(* ===== verification/Prelude.thy ===== *)
theory Prelude
  imports Complex_Main "HOL-Library.Word" "HOL-Library.Char_ord" "HOL-Library.Signed_Division"
begin

text \<open>
  The shared base of the development: machine integers as the Rust sources use them, the values the
  contracts exchange with the Soroban host, and the computation type in which every entry point of
  the two contracts is written.

  A contract invocation either completes, with a result and the new contract state, or fails; a
  failed invocation is rolled back by the host, so a failure carries no state. The failures are a
  typed contract error (\<open>panic_with_error!\<close>), a rejected \<open>require_auth\<close>, and a trap (an \<open>unwrap\<close>
  on nothing, an arithmetic overflow under \<open>overflow-checks = true\<close>, a host error).

  \<open>act_simps\<close> collects, for every combinator, when it completes and with which result, and
  when it fails and with which failure; \<open>act_ok\<close> collects the completion lemma of each operation.
\<close>

named_theorems act_simps "when a combinator completes and when it fails"
named_theorems act_ok "characterisations of the completed runs of an operation"

section \<open>Machine integers\<close>

type_synonym u32 = "32 word"
type_synonym u64 = "64 word"
type_synonym bytes32 = "256 word"
type_synonym bytes = "8 word list"

text \<open>\<open>i128\<close> values are integers; each operation states its range check.\<close>

definition i128_min :: int where
  "i128_min = - (2 ^ 127)"

definition i128_max :: int where
  "i128_max = 2 ^ 127 - 1"

definition in_i128 :: "int \<Rightarrow> bool" where
  "in_i128 x \<longleftrightarrow> i128_min \<le> x \<and> x \<le> i128_max"

definition checked_add :: "int \<Rightarrow> int \<Rightarrow> int option" where
  "checked_add a b = (if in_i128 (a + b) then Some (a + b) else None)"

definition checked_sub :: "int \<Rightarrow> int \<Rightarrow> int option" where
  "checked_sub a b = (if in_i128 (a - b) then Some (a - b) else None)"

definition checked_mul :: "int \<Rightarrow> int \<Rightarrow> int option" where
  "checked_mul a b = (if in_i128 (a * b) then Some (a * b) else None)"

text \<open>Rust's division truncates towards zero; it overflows only for \<open>i128::MIN / -1\<close>.\<close>

definition checked_div :: "int \<Rightarrow> int \<Rightarrow> int option" where
  "checked_div a b = (if b \<noteq> 0 \<and> in_i128 (a sdiv b) then Some (a sdiv b) else None)"

definition saturating_sub :: "int \<Rightarrow> int \<Rightarrow> int" where
  "saturating_sub a b = max i128_min (min i128_max (a - b))"

definition checked_add_u32 :: "u32 \<Rightarrow> u32 \<Rightarrow> u32 option" where
  "checked_add_u32 a b = (if unat a + unat b < 2 ^ 32 then Some (a + b) else None)"

definition checked_add_u64 :: "u64 \<Rightarrow> u64 \<Rightarrow> u64 option" where
  "checked_add_u64 a b = (if unat a + unat b < 2 ^ 64 then Some (a + b) else None)"

definition saturating_add_u32 :: "u32 \<Rightarrow> u32 \<Rightarrow> u32" where
  "saturating_add_u32 a b = (if unat a + unat b < 2 ^ 32 then a + b else - 1)"

definition saturating_sub_u32 :: "u32 \<Rightarrow> u32 \<Rightarrow> u32" where
  "saturating_sub_u32 a b = (if b \<le> a then a - b else 0)"

lemma in_i128_0 [simp]: "in_i128 0"
  by (simp add: in_i128_def i128_min_def i128_max_def)

lemma in_i128_between:
  assumes "in_i128 a" "in_i128 b" "a \<le> x" "x \<le> b"
  shows "in_i128 x"
  using assms by (simp add: in_i128_def)

lemma sdiv_nonneg:
  fixes a b :: int
  assumes "0 \<le> a" "0 < b"
  shows "a sdiv b = a div b"
  using assms by (simp add: signed_divide_int_def sgn_if)

lemma checked_add_u32_Some [simp]:
  "checked_add_u32 a b = Some c \<longleftrightarrow> unat a + unat b < 2 ^ 32 \<and> c = a + b"
  by (auto simp: checked_add_u32_def)

lemma unat_u32_less: "unat (a :: u32) < 2 ^ 32"
  by (rule order_less_le_trans [OF unsigned_less]) simp

lemma unat_u64_less: "unat (a :: u64) < 2 ^ 64"
  by (rule order_less_le_trans [OF unsigned_less]) simp

lemma unat_add_u32:
  fixes a b :: u32
  assumes "unat a + unat b < 2 ^ 32"
  shows "unat (a + b) = unat a + unat b"
  using assms by (simp add: unat_word_ariths)

lemma unat_add_u64:
  fixes a b :: u64
  assumes "unat a + unat b < 2 ^ 64"
  shows "unat (a + b) = unat a + unat b"
  using assms by (simp add: unat_word_ariths)

lemma checked_add_u64_Some [simp]:
  "checked_add_u64 a b = Some c \<longleftrightarrow> unat a + unat b < 2 ^ 64 \<and> c = a + b"
  by (auto simp: checked_add_u64_def)

section \<open>Computations of a contract\<close>

datatype 'e failure = ContractError 'e | AuthError | Trap

type_synonym ('s, 'e, 'a) action = "'s \<Rightarrow> 'e failure + ('a \<times> 's)"

definition ret :: "'a \<Rightarrow> ('s, 'e, 'a) action" where
  "ret a = (\<lambda>s. Inr (a, s))"

definition fail :: "'e failure \<Rightarrow> ('s, 'e, 'a) action" where
  "fail e = (\<lambda>s. Inl e)"

text \<open>\<open>panic_with_error!(env, e)\<close>\<close>

definition panic :: "'e \<Rightarrow> ('s, 'e, 'a) action" where
  "panic e = fail (ContractError e)"

definition bind :: "('s, 'e, 'a) action \<Rightarrow> ('a \<Rightarrow> ('s, 'e, 'b) action) \<Rightarrow> ('s, 'e, 'b) action" where
  "bind m f = (\<lambda>s. case m s of Inl e \<Rightarrow> Inl e | Inr (a, s') \<Rightarrow> f a s')"

text \<open>\<open>m; k\<close>, for a statement whose value is not used.\<close>

definition andthen :: "('s, 'e, 'a) action \<Rightarrow> ('s, 'e, 'b) action \<Rightarrow> ('s, 'e, 'b) action" where
  "andthen m k = bind m (\<lambda>_. k)"

definition gets :: "('s \<Rightarrow> 'a) \<Rightarrow> ('s, 'e, 'a) action" where
  "gets f = (\<lambda>s. Inr (f s, s))"

definition modify :: "('s \<Rightarrow> 's) \<Rightarrow> ('s, 'e, unit) action" where
  "modify f = (\<lambda>s. Inr ((), f s))"

definition panic_if :: "bool \<Rightarrow> 'e \<Rightarrow> ('s, 'e, unit) action" where
  "panic_if c e = (if c then panic e else ret ())"

definition when_do :: "bool \<Rightarrow> ('s, 'e, unit) action \<Rightarrow> ('s, 'e, unit) action" where
  "when_do c m = (if c then m else ret ())"

text \<open>\<open>opt.unwrap_or_else(|| panic_with_error!(env, e))\<close> and \<open>opt.unwrap()\<close>\<close>

definition expect_some :: "'a option \<Rightarrow> 'e \<Rightarrow> ('s, 'e, 'a) action" where
  "expect_some opt e = (case opt of Some a \<Rightarrow> ret a | None \<Rightarrow> panic e)"

definition unwrap :: "'a option \<Rightarrow> ('s, 'e, 'a) action" where
  "unwrap opt = (case opt of Some a \<Rightarrow> ret a | None \<Rightarrow> fail Trap)"

text \<open>\<open>vec.get(0)\<close>\<close>

definition get0 :: "'a list \<Rightarrow> 'a option" where
  "get0 xs = (case xs of [] \<Rightarrow> None | x # _ \<Rightarrow> Some x)"

text \<open>\<open>for x in xs { body x }\<close>\<close>

primrec for_each :: "'a list \<Rightarrow> ('a \<Rightarrow> ('s, 'e, unit) action) \<Rightarrow> ('s, 'e, unit) action" where
  "for_each [] body = ret ()"
| "for_each (x # xs) body = andthen (body x) (for_each xs body)"

section \<open>Completion and failure of the combinators\<close>

lemma ret_run [act_simps]: "ret a s = Inr (a, s)"
  by (simp add: ret_def)

lemma gets_run [act_simps]: "gets f s = Inr (f s, s)"
  by (simp add: gets_def)

lemma modify_run [act_simps]: "modify f s = Inr ((), f s)"
  by (simp add: modify_def)

lemma fail_run [act_simps]: "fail e s = Inl e"
  by (simp add: fail_def)

lemma panic_run [act_simps]: "panic e s = Inl (ContractError e)"
  by (simp add: panic_def fail_def)

lemma bind_Inr [act_simps]:
  "bind m f s = Inr r \<longleftrightarrow> (\<exists>a s'. m s = Inr (a, s') \<and> f a s' = Inr r)"
  by (auto simp: bind_def split: sum.splits prod.splits)

lemma bind_Inl [act_simps]:
  "bind m f s = Inl e \<longleftrightarrow> m s = Inl e \<or> (\<exists>a s'. m s = Inr (a, s') \<and> f a s' = Inl e)"
  by (auto simp: bind_def split: sum.splits prod.splits)

lemma andthen_Inr [act_simps]:
  "andthen m k s = Inr r \<longleftrightarrow> (\<exists>a s'. m s = Inr (a, s') \<and> k s' = Inr r)"
  by (simp add: andthen_def bind_Inr)

lemma andthen_Inl [act_simps]:
  "andthen m k s = Inl e \<longleftrightarrow> m s = Inl e \<or> (\<exists>a s'. m s = Inr (a, s') \<and> k s' = Inl e)"
  by (simp add: andthen_def bind_Inl)

lemma panic_if_Inr [act_simps]: "panic_if c e s = Inr r \<longleftrightarrow> \<not> c \<and> r = ((), s)"
  by (auto simp: panic_if_def panic_run ret_run)

lemma panic_if_Inl [act_simps]: "panic_if c e s = Inl f \<longleftrightarrow> c \<and> f = ContractError e"
  by (auto simp: panic_if_def panic_run ret_run)

lemma when_do_Inr [act_simps]:
  "when_do c m s = Inr r \<longleftrightarrow> (if c then m s = Inr r else r = ((), s))"
  by (auto simp: when_do_def ret_run)

lemma when_do_Inl [act_simps]: "when_do c m s = Inl e \<longleftrightarrow> c \<and> m s = Inl e"
  by (auto simp: when_do_def ret_run)

lemma expect_some_Inr [act_simps]:
  "expect_some opt e s = Inr r \<longleftrightarrow> (\<exists>a. opt = Some a \<and> r = (a, s))"
  by (auto simp: expect_some_def panic_run ret_run split: option.splits)

lemma expect_some_Inl [act_simps]:
  "expect_some opt e s = Inl f \<longleftrightarrow> opt = None \<and> f = ContractError e"
  by (auto simp: expect_some_def panic_run ret_run split: option.splits)

lemma unwrap_Inr [act_simps]: "unwrap opt s = Inr r \<longleftrightarrow> (\<exists>a. opt = Some a \<and> r = (a, s))"
  by (auto simp: unwrap_def fail_run ret_run split: option.splits)

lemma unwrap_Inl [act_simps]: "unwrap opt s = Inl f \<longleftrightarrow> opt = None \<and> f = Trap"
  by (auto simp: unwrap_def fail_run ret_run split: option.splits)

lemma get0_Some [simp]: "get0 xs = Some x \<longleftrightarrow> (\<exists>ys. xs = x # ys)"
  by (cases xs) (auto simp: get0_def)

lemma get0_None [simp]: "get0 xs = None \<longleftrightarrow> xs = []"
  by (cases xs) (auto simp: get0_def)

lemma get0_single [simp]: "length xs = Suc 0 \<and> (\<exists>ys. xs = x # ys) \<longleftrightarrow> xs = [x]"
  by (auto simp: length_Suc_conv)

lemma get0_hd: "(\<exists>ys. xs = x # ys) \<longleftrightarrow> xs \<noteq> [] \<and> x = hd xs"
  by (cases xs) auto

lemma if_Inr [act_simps]: "(if c then m else k) s = Inr r \<longleftrightarrow> (if c then m s = Inr r else k s = Inr r)"
  by simp

lemma if_Inl [act_simps]: "(if c then m else k) s = Inl e \<longleftrightarrow> (if c then m s = Inl e else k s = Inl e)"
  by simp

lemma bind_run:
  "bind m f s = (case m s of Inl e \<Rightarrow> Inl e | Inr (a, s') \<Rightarrow> f a s')"
  by (simp add: bind_def)

lemma andthen_run:
  "andthen m k s = (case m s of Inl e \<Rightarrow> Inl e | Inr (_, s') \<Rightarrow> k s')"
  by (simp add: andthen_def bind_def)

lemma bind_step: "m s = Inr (a, s') \<Longrightarrow> bind m f s = f a s'"
  by (simp add: bind_run)

text \<open>The equations that evaluate a computation on a concrete state.\<close>

lemmas act_eval = bind_run andthen_run ret_run gets_run modify_run fail_run panic_run panic_if_def
  when_do_def expect_some_def unwrap_def get0_def

text \<open>Invocations that run one after the other agree when they agree on their first parts.\<close>

lemma bind_assoc: "bind (bind m f) g = bind m (\<lambda>a. bind (f a) g)"
  by (rule ext) (auto simp: bind_def split: sum.splits)

lemma bind_ret_left [simp]: "bind (ret a) f = f a"
  by (rule ext) (simp add: bind_def ret_def)

text \<open>A loop that only checks: it completes, with the state unchanged, when each element passes.\<close>

lemma for_each_check:
  assumes "\<And>x r. x \<in> set xs \<Longrightarrow> body x s = Inr r \<longleftrightarrow> P x \<and> r = ((), s)"
  shows "for_each xs body s = Inr r \<longleftrightarrow> (\<forall>x\<in>set xs. P x) \<and> r = ((), s)"
  using assms by (induction xs) (auto simp: ret_run andthen_Inr)

section \<open>Values exchanged with the host\<close>

text \<open>An \<open>Address\<close> is determined by its strkey string.\<close>

datatype address = Address (strkey: string)

datatype sc_val =
    ScVoid
  | ScBool bool
  | ScU32 u32
  | ScU64 u64
  | ScI128 int
  | ScSymbol string
  | ScBytes32 bytes32
  | ScAddress address
  | ScVec "sc_val list"
  | ScMap "(sc_val \<times> sc_val) list"

text \<open>A published event: the topics and the data.\<close>

type_synonym event = "sc_val list \<times> sc_val"

text \<open>A requested extension of an entry's lifetime: the threshold and the extension, in ledgers.\<close>

datatype 'k ttl_bump = BumpInstance u32 u32 | BumpPersistent 'k u32 u32

text \<open>What a \<open>try_invoke_contract\<close> call yields: a returned value, or any failure of the callee.\<close>

datatype 'a reply = Replied 'a | CallFailed

end
