(* ===== verification/Common_Types.thy ===== *)
theory Common_Types
  imports Prelude
begin

text \<open>
  The constants and value types of \<open>bettapay_common\<close>: \<open>constants.rs\<close> and \<open>types.rs\<close>. The
  fee arithmetic of \<open>Bps\<close> is shown to round up exactly, and to reject exactly the amounts
  whose intermediate product leaves the \<open>i128\<close> range.
\<close>

section \<open>Constants\<close>

definition BPS_DENOMINATOR :: u32 where
  "BPS_DENOMINATOR = 10000"

definition MIN_FEE_BPS :: u32 where
  "MIN_FEE_BPS = 5"

definition MAX_FEE_BPS :: u32 where
  "MAX_FEE_BPS = 5000"

definition LEDGERS_PER_DAY :: u32 where
  "LEDGERS_PER_DAY = 17280"

definition TTL_THRESHOLD_LEDGERS :: u32 where
  "TTL_THRESHOLD_LEDGERS = LEDGERS_PER_DAY * 14"

definition TTL_BUMP_LEDGERS :: u32 where
  "TTL_BUMP_LEDGERS = LEDGERS_PER_DAY * 30"

definition RECOVERY_DELAY_SECONDS :: u64 where
  "RECOVERY_DELAY_SECONDS = 7 * 24 * 60 * 60"

definition PAUSE_REASON_NONE :: u32 where
  "PAUSE_REASON_NONE = 0"

definition MAX_PAUSE_REASON :: u32 where
  "MAX_PAUSE_REASON = 99"

lemma RECOVERY_DELAY_SECONDS_unat: "unat RECOVERY_DELAY_SECONDS = 604800"
  by (simp add: RECOVERY_DELAY_SECONDS_def)

section \<open>Basis points\<close>

datatype Bps = Bps (bps_value: u32)

definition as_i128 :: "Bps \<Rightarrow> int" where
  "as_i128 b = uint (bps_value b)"

text \<open>The two \<open>From\<close> conversions between the wrapper and its value.\<close>

definition bps_from_u32 :: "u32 \<Rightarrow> Bps" where
  "bps_from_u32 value = Bps value"

definition u32_from_bps :: "Bps \<Rightarrow> u32" where
  "u32_from_bps bps = bps_value bps"

lemma bps_conversions_inverse [simp]:
  "u32_from_bps (bps_from_u32 value) = value" "bps_from_u32 (u32_from_bps bps) = bps"
  by (simp_all add: bps_from_u32_def u32_from_bps_def)

text \<open>The \<open>PartialOrd\<close> and \<open>Ord\<close> the source derives compare the wrapped value.\<close>

instantiation Bps :: linorder
begin

definition less_eq_Bps :: "Bps \<Rightarrow> Bps \<Rightarrow> bool" where
  "less_eq_Bps a b \<longleftrightarrow> bps_value a \<le> bps_value b"

definition less_Bps :: "Bps \<Rightarrow> Bps \<Rightarrow> bool" where
  "less_Bps a b \<longleftrightarrow> bps_value a < bps_value b"

instance
  by standard (auto simp: less_eq_Bps_def less_Bps_def intro: Bps.expand)

end

definition calculate_fee_ceil :: "Bps \<Rightarrow> int \<Rightarrow> int option" where
  "calculate_fee_ceil b amount =
    (let denom = uint BPS_DENOMINATOR in
     case checked_mul amount (as_i128 b) of
       None \<Rightarrow> None
     | Some product \<Rightarrow>
        (case checked_add product (denom - 1) of
           None \<Rightarrow> None
         | Some shifted \<Rightarrow> checked_div shifted denom))"

section \<open>Settlement rules\<close>

record SettlementRule =
  sr_platform_fee_bps :: u32
  sr_network_fee_bps :: u32
  sr_settlement_delay_ledger :: u32
  sr_auto_settle :: bool

definition platform_bps :: "SettlementRule \<Rightarrow> Bps" where
  "platform_bps r = Bps (sr_platform_fee_bps r)"

definition network_bps :: "SettlementRule \<Rightarrow> Bps" where
  "network_bps r = Bps (sr_network_fee_bps r)"

section \<open>The fee arithmetic\<close>

lemma as_i128_nonneg [simp]: "0 \<le> as_i128 b"
  by (simp add: as_i128_def)

lemma as_i128_less: "as_i128 b < 2 ^ 32"
  using uint_lt2p [of "bps_value b"] by (simp add: as_i128_def)

lemma as_i128_mono: "a \<le> b \<Longrightarrow> as_i128 a \<le> as_i128 b"
  by (simp add: as_i128_def less_eq_Bps_def word_le_def)

text \<open>The reference: the fee rounded up, on unbounded integers.\<close>

definition fee_ceil :: "int \<Rightarrow> int \<Rightarrow> int" where
  "fee_ceil rate amount = \<lceil>real_of_int (amount * rate) / 10000\<rceil>"

lemma fee_ceil_div: "fee_ceil rate amount = (amount * rate + 9999) div 10000"
proof -
  define x where "x = amount * rate"
  define q where "q = (x + 9999) div 10000"
  define m where "m = (x + 9999) mod 10000"
  have "x + 9999 = 10000 * q + m"
    by (simp add: q_def m_def)
  then have "real_of_int x = 10000 * real_of_int q + real_of_int m - 9999"
    by linarith
  moreover have "0 \<le> m" "m < 10000"
    by (simp_all add: m_def)
  ultimately have "\<lceil>real_of_int x / 10000\<rceil> = q"
    by (intro ceiling_unique) (simp_all add: field_simps)
  then show ?thesis
    by (simp only: fee_ceil_def x_def [symmetric] q_def)
qed

lemma fee_ceil_nonneg: "0 \<le> amount \<Longrightarrow> 0 \<le> rate \<Longrightarrow> 0 \<le> fee_ceil rate amount"
  by (simp add: fee_ceil_div pos_imp_zdiv_nonneg_iff)

lemma fee_ceil_mono:
  assumes "0 \<le> a" "a \<le> b" "0 \<le> r" "r \<le> r'"
  shows "fee_ceil r a \<le> fee_ceil r' b"
  using assms by (simp add: fee_ceil_div zdiv_mono1 mult_mono)

lemma fee_ceil_le_amount:
  assumes "0 \<le> a" "0 \<le> r" "r \<le> 10000"
  shows "fee_ceil r a \<le> a"
proof -
  have "a * r \<le> a * 10000"
    using assms by (simp add: mult_left_mono)
  then have "(a * r + 9999) div 10000 \<le> (a * 10000 + 9999) div 10000"
    by (simp add: zdiv_mono1)
  then show ?thesis
    by (simp add: fee_ceil_div)
qed

lemma BPS_DENOMINATOR_uint [simp]: "uint BPS_DENOMINATOR = 10000"
  by (simp add: BPS_DENOMINATOR_def)

lemma calculate_fee_ceil_eq:
  assumes "0 \<le> amount"
  shows "calculate_fee_ceil b amount =
    (if amount * as_i128 b + 9999 \<le> i128_max then Some (fee_ceil (as_i128 b) amount) else None)"
proof -
  define p where "p = amount * as_i128 b"
  have "0 \<le> p"
    using assms by (simp add: p_def)
  moreover have "0 \<le> (p + 9999) div 10000" "(p + 9999) div 10000 \<le> p + 9999"
    using \<open>0 \<le> p\<close> zdiv_mono2 [of "p + 9999" 1 10000] by (simp_all add: pos_imp_zdiv_nonneg_iff)
  ultimately show ?thesis
    by (auto simp: calculate_fee_ceil_def Let_def checked_mul_def checked_add_def checked_div_def
        p_def [symmetric] sdiv_nonneg fee_ceil_div in_i128_def i128_min_def i128_max_def)
qed

end
