(* ===== verification/Host.thy ===== *)
theory Host
  imports Common_Types
begin

text \<open>
  What the Soroban host gives a contract, as far as the sources use it, and the part of the contract
  state the two contracts lay out alike. The host of one invocation is a record: the addresses that
  authorised it, the ledger clock, and what the deployer answers about a Wasm hash. The host's own
  code is not part of the repository, so these are parameters of every operation.

  The shared state holds the instance entries both contracts keep (the admin list of each contract's
  own \<open>DataKey::Admin\<close>, and the entries of \<open>CommonDataKey\<close>), the installed executable, the
  events published so far and the lifetime extensions requested so far. Nothing is assumed about how the
  host accounts for lifetimes: the extensions are only logged.
\<close>

record host =
  h_auths :: "address set"
  h_timestamp :: u64
  h_sequence :: u32
  h_probe_deploys :: "bytes32 \<Rightarrow> bool"
  h_probe_reply :: "bytes32 \<Rightarrow> u32 \<Rightarrow> bool reply"

record PendingRecovery =
  pr_new_admin :: address
  pr_execute_after :: u64
  pr_initiated_by :: address

text \<open>
  An entry read as an untyped value and decoded by hand: it decodes, or it has the layout of an older
  release and does not.
\<close>

datatype 'a stored = Decodes 'a | Undecodable

record 'k contract_state =
  st_admin :: "address list option"
  st_threshold :: "u32 option"
  st_paused :: "bool option"
  st_recovery_address :: "address option"
  st_pending_recovery :: "PendingRecovery stored option"
  st_deployer :: "address option"
  st_schema_version :: "u32 option"
  st_wasm :: bytes32
  st_events :: "event list"
  st_bumps :: "'k ttl_bump list"

text \<open>\<open>address.require_auth()\<close>\<close>

definition require_auth :: "('h host_scheme) \<Rightarrow> address \<Rightarrow> ('s, 'e, unit) action" where
  "require_auth env a = (if a \<in> h_auths env then ret () else fail AuthError)"

text \<open>\<open>env.events().publish(topics, data)\<close>\<close>

definition publish :: "sc_val list \<Rightarrow> sc_val \<Rightarrow> (('k, 'x) contract_state_scheme, 'e, unit) action" where
  "publish topics data = modify (\<lambda>s. s\<lparr>st_events := st_events s @ [(topics, data)]\<rparr>)"

text \<open>\<open>env.storage().instance().extend_ttl(..)\<close> and \<open>env.storage().persistent().extend_ttl(..)\<close>\<close>

definition extend_instance_ttl :: "u32 \<Rightarrow> u32 \<Rightarrow> (('k, 'x) contract_state_scheme, 'e, unit) action" where
  "extend_instance_ttl threshold extend_to =
    modify (\<lambda>s. s\<lparr>st_bumps := st_bumps s @ [BumpInstance threshold extend_to]\<rparr>)"

definition extend_persistent_ttl ::
  "'k \<Rightarrow> u32 \<Rightarrow> u32 \<Rightarrow> (('k, 'x) contract_state_scheme, 'e, unit) action" where
  "extend_persistent_ttl key threshold extend_to =
    modify (\<lambda>s. s\<lparr>st_bumps := st_bumps s @ [BumpPersistent key threshold extend_to]\<rparr>)"

text \<open>\<open>env.deployer().update_current_contract_wasm(hash)\<close>\<close>

definition update_current_contract_wasm ::
  "bytes32 \<Rightarrow> (('k, 'x) contract_state_scheme, 'e, unit) action" where
  "update_current_contract_wasm hash = modify (\<lambda>s. s\<lparr>st_wasm := hash\<rparr>)"

lemma require_auth_Inr [act_simps]: "require_auth env a s = Inr r \<longleftrightarrow> a \<in> h_auths env \<and> r = ((), s)"
  by (auto simp: require_auth_def act_simps)

lemma require_auth_Inl [act_simps]: "require_auth env a s = Inl e \<longleftrightarrow> a \<notin> h_auths env \<and> e = AuthError"
  by (auto simp: require_auth_def act_simps)

lemma publish_run [act_simps]:
  "publish topics data s = Inr ((), s\<lparr>st_events := st_events s @ [(topics, data)]\<rparr>)"
  by (simp add: publish_def act_simps)

lemma extend_instance_ttl_run [act_simps]:
  "extend_instance_ttl t e s = Inr ((), s\<lparr>st_bumps := st_bumps s @ [BumpInstance t e]\<rparr>)"
  by (simp add: extend_instance_ttl_def act_simps)

lemma extend_persistent_ttl_run [act_simps]:
  "extend_persistent_ttl k t e s = Inr ((), s\<lparr>st_bumps := st_bumps s @ [BumpPersistent k t e]\<rparr>)"
  by (simp add: extend_persistent_ttl_def act_simps)

lemma update_current_contract_wasm_run [act_simps]:
  "update_current_contract_wasm hash s = Inr ((), s\<lparr>st_wasm := hash\<rparr>)"
  by (simp add: update_current_contract_wasm_def act_simps)

lemmas host_eval = act_eval require_auth_def publish_run extend_instance_ttl_run
  extend_persistent_ttl_run update_current_contract_wasm_run

end
