(* ===== verification/Events.thy ===== *)
theory Events
  imports Host
begin

text \<open>
  \<open>bettapay_common/src/events.rs\<close>: the payload types, the registry of event topics and the
  emission helpers both contracts share. The registry is shown to name each topic once.
\<close>

section \<open>Payloads\<close>

record AdminTransferred =
  at_old_admins :: "address list"
  at_new_admins :: "address list"

text \<open>The value encodings of tuples, options and the structs of this crate.\<close>

definition sc_addresses :: "address list \<Rightarrow> sc_val" where
  "sc_addresses as = ScVec (map ScAddress as)"

definition sc_option :: "('a \<Rightarrow> sc_val) \<Rightarrow> 'a option \<Rightarrow> sc_val" where
  "sc_option f opt = (case opt of None \<Rightarrow> ScVoid | Some a \<Rightarrow> f a)"

definition sc_admin_transferred :: "AdminTransferred \<Rightarrow> sc_val" where
  "sc_admin_transferred p =
    ScMap [(ScSymbol ''new_admins'', sc_addresses (at_new_admins p)),
           (ScSymbol ''old_admins'', sc_addresses (at_old_admins p))]"

definition sc_settlement_rule :: "SettlementRule \<Rightarrow> sc_val" where
  "sc_settlement_rule r =
    ScMap [(ScSymbol ''auto_settle'', ScBool (sr_auto_settle r)),
           (ScSymbol ''network_fee_bps'', ScU32 (sr_network_fee_bps r)),
           (ScSymbol ''platform_fee_bps'', ScU32 (sr_platform_fee_bps r)),
           (ScSymbol ''settlement_delay_ledger'', ScU32 (sr_settlement_delay_ledger r))]"

section \<open>The topic registry\<close>

definition ADMIN_TRANSFERRED_EVENT :: string where
  "ADMIN_TRANSFERRED_EVENT = ''admin_transferred''"

definition PAUSED_EVENT :: string where
  "PAUSED_EVENT = ''paused''"

definition UNPAUSED_EVENT :: string where
  "UNPAUSED_EVENT = ''unpaused''"

definition RECOVERY_INITIATED_EVENT :: string where
  "RECOVERY_INITIATED_EVENT = ''recovery_initiated''"

definition RECOVERY_CANCELLED_EVENT :: string where
  "RECOVERY_CANCELLED_EVENT = ''recovery_cancelled''"

definition RECOVERY_EXECUTED_EVENT :: string where
  "RECOVERY_EXECUTED_EVENT = ''recovery_executed''"

definition CONTRACT_UPGRADED_EVENT :: string where
  "CONTRACT_UPGRADED_EVENT = ''contract_upgraded''"

definition THRESHOLD_CHANGED_EVENT :: string where
  "THRESHOLD_CHANGED_EVENT = ''threshold_changed''"

definition RECOVERY_ADDRESS_UPDATED_EVENT :: string where
  "RECOVERY_ADDRESS_UPDATED_EVENT = ''recovery_address_updated''"

definition INITIALIZED_EVENT :: string where
  "INITIALIZED_EVENT = ''initialized''"

definition MIGRATED_EVENT :: string where
  "MIGRATED_EVENT = ''migrated''"

definition SYS_PARAM_UPDATED_EVENT :: string where
  "SYS_PARAM_UPDATED_EVENT = ''sys_param_updated''"

definition FEE_CONFIG_UPDATED_EVENT :: string where
  "FEE_CONFIG_UPDATED_EVENT = ''fee_config_updated''"

definition ANCHOR_UPSERTED_EVENT :: string where
  "ANCHOR_UPSERTED_EVENT = ''anchor_upserted''"

definition ANCHOR_REMOVED_EVENT :: string where
  "ANCHOR_REMOVED_EVENT = ''anchor_removed''"

definition GOVERNANCE_UPDATED_EVENT :: string where
  "GOVERNANCE_UPDATED_EVENT = ''governance_updated''"

definition MERCHANT_REGISTERED_EVENT :: string where
  "MERCHANT_REGISTERED_EVENT = ''merchant_registered''"

definition MERCHANT_CONSENT_EVENT :: string where
  "MERCHANT_CONSENT_EVENT = ''merchant_consent''"

definition MERCHANT_UNREGISTERED_EVENT :: string where
  "MERCHANT_UNREGISTERED_EVENT = ''merchant_unregistered''"

definition SETTLEMENT_RULE_UPDATED_EVENT :: string where
  "SETTLEMENT_RULE_UPDATED_EVENT = ''settlement_rule_updated''"

definition SETTLEMENT_RULE_CLEARED_EVENT :: string where
  "SETTLEMENT_RULE_CLEARED_EVENT = ''settlement_rule_cleared''"

definition DEFAULT_RULE_UPDATED_EVENT :: string where
  "DEFAULT_RULE_UPDATED_EVENT = ''default_rule_updated''"

definition BOOTSTRAP_FALLBACK_EVENT :: string where
  "BOOTSTRAP_FALLBACK_EVENT = ''bootstrap_fallback''"

definition PAYMENT_STORED_EVENT :: string where
  "PAYMENT_STORED_EVENT = ''payment_stored''"

definition PAYMENTS_PRUNED_EVENT :: string where
  "PAYMENTS_PRUNED_EVENT = ''payments_pruned''"

definition PAYMENT_PRUNED_EVENT :: string where
  "PAYMENT_PRUNED_EVENT = ''payment_pruned''"

definition OP_SCHEDULED_EVENT :: string where
  "OP_SCHEDULED_EVENT = ''op_scheduled''"

definition OP_EXECUTED_EVENT :: string where
  "OP_EXECUTED_EVENT = ''op_executed''"

definition OP_CANCELLED_EVENT :: string where
  "OP_CANCELLED_EVENT = ''op_cancelled''"

definition FEE_CEILING_REJECTED_EVENT :: string where
  "FEE_CEILING_REJECTED_EVENT = ''fee_ceiling_rejected''"

definition ALL_EVENT_TOPICS :: "string list" where
  "ALL_EVENT_TOPICS =
    [ADMIN_TRANSFERRED_EVENT,
     PAUSED_EVENT,
     UNPAUSED_EVENT,
     RECOVERY_INITIATED_EVENT,
     RECOVERY_CANCELLED_EVENT,
     RECOVERY_EXECUTED_EVENT,
     CONTRACT_UPGRADED_EVENT,
     THRESHOLD_CHANGED_EVENT,
     RECOVERY_ADDRESS_UPDATED_EVENT,
     INITIALIZED_EVENT,
     MIGRATED_EVENT,
     SYS_PARAM_UPDATED_EVENT,
     FEE_CONFIG_UPDATED_EVENT,
     ANCHOR_UPSERTED_EVENT,
     ANCHOR_REMOVED_EVENT,
     GOVERNANCE_UPDATED_EVENT,
     MERCHANT_REGISTERED_EVENT,
     MERCHANT_CONSENT_EVENT,
     MERCHANT_UNREGISTERED_EVENT,
     SETTLEMENT_RULE_UPDATED_EVENT,
     SETTLEMENT_RULE_CLEARED_EVENT,
     DEFAULT_RULE_UPDATED_EVENT,
     BOOTSTRAP_FALLBACK_EVENT,
     PAYMENT_STORED_EVENT,
     PAYMENTS_PRUNED_EVENT,
     PAYMENT_PRUNED_EVENT,
     OP_SCHEDULED_EVENT,
     OP_EXECUTED_EVENT,
     OP_CANCELLED_EVENT,
     FEE_CEILING_REJECTED_EVENT]"

lemmas topic_defs =
  ADMIN_TRANSFERRED_EVENT_def PAUSED_EVENT_def UNPAUSED_EVENT_def RECOVERY_INITIATED_EVENT_def RECOVERY_CANCELLED_EVENT_def RECOVERY_EXECUTED_EVENT_def CONTRACT_UPGRADED_EVENT_def THRESHOLD_CHANGED_EVENT_def RECOVERY_ADDRESS_UPDATED_EVENT_def INITIALIZED_EVENT_def MIGRATED_EVENT_def SYS_PARAM_UPDATED_EVENT_def FEE_CONFIG_UPDATED_EVENT_def ANCHOR_UPSERTED_EVENT_def ANCHOR_REMOVED_EVENT_def GOVERNANCE_UPDATED_EVENT_def MERCHANT_REGISTERED_EVENT_def MERCHANT_CONSENT_EVENT_def MERCHANT_UNREGISTERED_EVENT_def SETTLEMENT_RULE_UPDATED_EVENT_def SETTLEMENT_RULE_CLEARED_EVENT_def DEFAULT_RULE_UPDATED_EVENT_def BOOTSTRAP_FALLBACK_EVENT_def PAYMENT_STORED_EVENT_def PAYMENTS_PRUNED_EVENT_def PAYMENT_PRUNED_EVENT_def OP_SCHEDULED_EVENT_def OP_EXECUTED_EVENT_def OP_CANCELLED_EVENT_def FEE_CEILING_REJECTED_EVENT_def

section \<open>Emission helpers\<close>

definition emit_admin_transferred ::
  "AdminTransferred \<Rightarrow> (('k, 'x) contract_state_scheme, 'e, unit) action" where
  "emit_admin_transferred payload =
    publish [ScSymbol ADMIN_TRANSFERRED_EVENT] (sc_admin_transferred payload)"

definition emit_paused ::
  "address \<Rightarrow> u32 \<Rightarrow> (('k, 'x) contract_state_scheme, 'e, unit) action" where
  "emit_paused admin reason =
    publish [ScSymbol PAUSED_EVENT] (ScVec [ScAddress admin, ScBool True, ScU32 reason])"

definition emit_unpaused :: "address \<Rightarrow> (('k, 'x) contract_state_scheme, 'e, unit) action" where
  "emit_unpaused admin = publish [ScSymbol UNPAUSED_EVENT] (ScVec [ScAddress admin, ScBool False])"

definition emit_recovery_initiated ::
  "address \<Rightarrow> address \<Rightarrow> u64 \<Rightarrow> (('k, 'x) contract_state_scheme, 'e, unit) action" where
  "emit_recovery_initiated recovery new_admin execute_after =
    publish [ScSymbol RECOVERY_INITIATED_EVENT]
      (ScVec [ScAddress recovery, ScAddress new_admin, ScU64 execute_after])"

definition emit_recovery_cancelled :: "address \<Rightarrow> (('k, 'x) contract_state_scheme, 'e, unit) action" where
  "emit_recovery_cancelled canceller =
    publish [ScSymbol RECOVERY_CANCELLED_EVENT] (ScAddress canceller)"

definition emit_recovery_executed ::
  "AdminTransferred \<Rightarrow> (('k, 'x) contract_state_scheme, 'e, unit) action" where
  "emit_recovery_executed payload =
    publish [ScSymbol RECOVERY_EXECUTED_EVENT] (sc_admin_transferred payload)"

definition emit_settlement_rule_cleared ::
  "address \<Rightarrow> address \<Rightarrow> SettlementRule \<Rightarrow> SettlementRule \<Rightarrow>
    (('k, 'x) contract_state_scheme, 'e, unit) action" where
  "emit_settlement_rule_cleared merchant admin removed fallback =
    publish [ScSymbol SETTLEMENT_RULE_CLEARED_EVENT, ScAddress merchant]
      (ScVec [ScAddress admin, sc_settlement_rule removed, sc_settlement_rule fallback])"

lemmas emit_defs = emit_admin_transferred_def emit_paused_def emit_unpaused_def
  emit_recovery_initiated_def emit_recovery_cancelled_def emit_recovery_executed_def
  emit_settlement_rule_cleared_def

section \<open>The registry names each topic once\<close>

text \<open>A topic is a Soroban \<open>Symbol\<close>: at most 32 characters from letters, digits and underscore.\<close>

definition symbol_char :: "char \<Rightarrow> bool" where
  "symbol_char c \<longleftrightarrow>
    c = CHR ''_'' \<or> (CHR ''0'' \<le> c \<and> c \<le> CHR ''9'') \<or> (CHR ''A'' \<le> c \<and> c \<le> CHR ''Z'') \<or>
    (CHR ''a'' \<le> c \<and> c \<le> CHR ''z'')"

definition valid_symbol :: "string \<Rightarrow> bool" where
  "valid_symbol t \<longleftrightarrow> length t \<le> 32 \<and> list_all symbol_char t"

lemma ALL_EVENT_TOPICS_distinct: "distinct ALL_EVENT_TOPICS"
  by code_simp

lemma ALL_EVENT_TOPICS_symbols: "list_all valid_symbol ALL_EVENT_TOPICS"
  by code_simp

text \<open>An event belongs to the registry when its first topic is a registered name.\<close>

definition registered_event :: "event \<Rightarrow> bool" where
  "registered_event e = (case e of (ScSymbol t # _, _) \<Rightarrow> t \<in> set ALL_EVENT_TOPICS | _ \<Rightarrow> False)"

end
