(* ===== verification/Common_Storage.thy ===== *)
theory Common_Storage
  imports Events
begin

text \<open>
  \<open>bettapay_common/src/storage.rs\<close> and \<open>upgrade.rs\<close>: the pause flag, the zero address, the
  instance lifetime policy and the interface probe that precedes a code swap.
\<close>

section \<open>The pause flag\<close>

definition is_paused :: "(('k, 'x) contract_state_scheme, 'e, bool) action" where
  "is_paused = gets (\<lambda>s. case st_paused s of Some b \<Rightarrow> b | None \<Rightarrow> False)"

definition set_paused :: "bool \<Rightarrow> (('k, 'x) contract_state_scheme, 'e, unit) action" where
  "set_paused paused = modify (\<lambda>s. s\<lparr>st_paused := Some paused\<rparr>)"

definition apply_pause :: "address \<Rightarrow> u32 \<Rightarrow> (('k, 'x) contract_state_scheme, 'e, unit) action" where
  "apply_pause admin reason = andthen (set_paused True) (emit_paused admin reason)"

definition apply_unpause :: "address \<Rightarrow> (('k, 'x) contract_state_scheme, 'e, unit) action" where
  "apply_unpause admin = andthen (set_paused False) (emit_unpaused admin)"

section \<open>Addresses\<close>

definition primary_admin :: "address list \<Rightarrow> address option" where
  "primary_admin admins = get0 admins"

definition ZERO_ADDRESS_STRKEY :: string where
  "ZERO_ADDRESS_STRKEY = ''GAAAAAAAAAAAAAAAAAAAAAAAAAAAAAAAAAAAAAAAAAAAAAAAAAAAAWHF''"

definition zero_address :: address where
  "zero_address = Address ZERO_ADDRESS_STRKEY"

definition is_zero_address :: "address \<Rightarrow> bool" where
  "is_zero_address address = (address = zero_address)"

section \<open>Lifetime and upgrade\<close>

definition bump_instance_ttl :: "(('k, 'x) contract_state_scheme, 'e, unit) action" where
  "bump_instance_ttl = extend_instance_ttl TTL_THRESHOLD_LEDGERS TTL_BUMP_LEDGERS"

text \<open>
  Deploying the probe traps when the Wasm hash was never uploaded; the call to the probe either
  answers or fails.
\<close>

definition probe_supports_interface :: "'h host_scheme \<Rightarrow> bytes32 \<Rightarrow> u32 \<Rightarrow> ('s, 'e, bool) action" where
  "probe_supports_interface env new_wasm_hash version =
    (if h_probe_deploys env new_wasm_hash
     then ret (case h_probe_reply env new_wasm_hash version of
                 Replied supports \<Rightarrow> supports
               | CallFailed \<Rightarrow> False)
     else fail Trap)"

section \<open>Completion and failure\<close>

text \<open>The value of the flag: an absent entry means the contract is not paused.\<close>

definition paused :: "('k, 'x) contract_state_scheme \<Rightarrow> bool" where
  "paused s \<longleftrightarrow> st_paused s = Some True"

lemma is_paused_run [act_simps]: "is_paused s = Inr (paused s, s)"
  by (auto simp: is_paused_def paused_def act_simps split: option.splits)

lemma apply_pause_run [act_simps]:
  "apply_pause admin reason s =
    Inr ((), s\<lparr>st_paused := Some True,
               st_events := st_events s @
                 [([ScSymbol PAUSED_EVENT], ScVec [ScAddress admin, ScBool True, ScU32 reason])]\<rparr>)"
  by (simp add: apply_pause_def set_paused_def emit_paused_def andthen_run act_simps)

lemma apply_unpause_run [act_simps]:
  "apply_unpause admin s =
    Inr ((), s\<lparr>st_paused := Some False,
               st_events := st_events s @
                 [([ScSymbol UNPAUSED_EVENT], ScVec [ScAddress admin, ScBool False])]\<rparr>)"
  by (simp add: apply_unpause_def set_paused_def emit_unpaused_def andthen_run act_simps)

lemma bump_instance_ttl_run [act_simps]:
  "bump_instance_ttl s = Inr ((), s\<lparr>st_bumps := st_bumps s @
    [BumpInstance TTL_THRESHOLD_LEDGERS TTL_BUMP_LEDGERS]\<rparr>)"
  by (simp add: bump_instance_ttl_def act_simps)

definition wasm_supports :: "'h host_scheme \<Rightarrow> bytes32 \<Rightarrow> u32 \<Rightarrow> bool" where
  "wasm_supports env hash version \<longleftrightarrow> h_probe_reply env hash version = Replied True"

lemma probe_supports_interface_Inr [act_simps]:
  "probe_supports_interface env hash version s = Inr r \<longleftrightarrow>
    h_probe_deploys env hash \<and> r = (wasm_supports env hash version, s)"
  by (auto simp: probe_supports_interface_def wasm_supports_def act_simps split: reply.splits)

lemma probe_supports_interface_Inl [act_simps]:
  "probe_supports_interface env hash version s = Inl e \<longleftrightarrow> \<not> h_probe_deploys env hash \<and> e = Trap"
  by (auto simp: probe_supports_interface_def act_simps)

lemma st_paused_upd [simp]:
  "paused (s\<lparr>st_admin := a\<rparr>) = paused s" "paused (s\<lparr>st_threshold := t\<rparr>) = paused s"
  "paused (s\<lparr>st_recovery_address := ra\<rparr>) = paused s"
  "paused (s\<lparr>st_pending_recovery := p\<rparr>) = paused s" "paused (s\<lparr>st_deployer := d\<rparr>) = paused s"
  "paused (s\<lparr>st_schema_version := v\<rparr>) = paused s" "paused (s\<lparr>st_wasm := w\<rparr>) = paused s"
  "paused (s\<lparr>st_events := ev\<rparr>) = paused s" "paused (s\<lparr>st_bumps := b\<rparr>) = paused s"
  "paused (s\<lparr>st_paused := f\<rparr>) = (f = Some True)"
  by (simp_all add: paused_def)

end
