(* ===== verification/Error_Codes.thy ===== *)
theory Error_Codes
  imports Prelude
begin

text \<open>
  \<open>bettapay_common/src/error_codes.rs\<close>: the numeric registry of error codes, the check each
  contract runs on its own error table, and the audit of gaps in a contract's range. The check is
  shown to mean what its documentation says, and the audit to return exactly the missing codes.
\<close>

section \<open>The registry\<close>

definition ALREADY_INITIALIZED :: u32 where
  "ALREADY_INITIALIZED = 1"

definition NOT_INITIALIZED :: u32 where
  "NOT_INITIALIZED = 2"

definition UNAUTHORIZED :: u32 where
  "UNAUTHORIZED = 3"

definition INVALID_FEE_BPS :: u32 where
  "INVALID_FEE_BPS = 4"

definition PAUSED :: u32 where
  "PAUSED = 5"

definition INVALID_ADMIN :: u32 where
  "INVALID_ADMIN = 6"

definition INVALID_RECOVERY_ADDRESS :: u32 where
  "INVALID_RECOVERY_ADDRESS = 7"

definition RECOVERY_NOT_PENDING :: u32 where
  "RECOVERY_NOT_PENDING = 8"

definition RECOVERY_DELAY_ACTIVE :: u32 where
  "RECOVERY_DELAY_ACTIVE = 9"

definition EXECUTION_NOT_READY :: u32 where
  "EXECUTION_NOT_READY = 10"

definition OPERATION_NOT_SCHEDULED :: u32 where
  "OPERATION_NOT_SCHEDULED = 11"

definition OPERATION_ALREADY_SCHEDULED :: u32 where
  "OPERATION_ALREADY_SCHEDULED = 12"

definition INVALID_WASM_INTERFACE :: u32 where
  "INVALID_WASM_INTERFACE = 13"

definition INVALID_THRESHOLD :: u32 where
  "INVALID_THRESHOLD = 14"

definition RECOVERY_ALREADY_PENDING :: u32 where
  "RECOVERY_ALREADY_PENDING = 15"

definition ALREADY_PAUSED :: u32 where
  "ALREADY_PAUSED = 17"

definition ALREADY_UNPAUSED :: u32 where
  "ALREADY_UNPAUSED = 16"

definition SAME_ADMIN :: u32 where
  "SAME_ADMIN = 18"

definition GOVERNANCE_RANGE_START :: u32 where
  "GOVERNANCE_RANGE_START = 200"

definition SETTLEMENT_RANGE_START :: u32 where
  "SETTLEMENT_RANGE_START = 300"

definition SHARED_CODES :: "(string \<times> u32) list" where
  "SHARED_CODES =
    [(''AlreadyInitialized'', ALREADY_INITIALIZED),
     (''NotInitialized'', NOT_INITIALIZED),
     (''Unauthorized'', UNAUTHORIZED),
     (''InvalidFeeBps'', INVALID_FEE_BPS),
     (''Paused'', PAUSED),
     (''InvalidAdmin'', INVALID_ADMIN),
     (''InvalidRecoveryAddress'', INVALID_RECOVERY_ADDRESS),
     (''RecoveryNotPending'', RECOVERY_NOT_PENDING),
     (''RecoveryDelayActive'', RECOVERY_DELAY_ACTIVE),
     (''ExecutionNotReady'', EXECUTION_NOT_READY),
     (''OperationNotScheduled'', OPERATION_NOT_SCHEDULED),
     (''OperationAlreadyScheduled'', OPERATION_ALREADY_SCHEDULED),
     (''InvalidWasmInterface'', INVALID_WASM_INTERFACE),
     (''InvalidThreshold'', INVALID_THRESHOLD),
     (''RecoveryAlreadyPending'', RECOVERY_ALREADY_PENDING),
     (''AlreadyPaused'', ALREADY_PAUSED),
     (''AlreadyUnpaused'', ALREADY_UNPAUSED),
     (''SameAdmin'', SAME_ADMIN)]"

lemmas code_defs =
  ALREADY_INITIALIZED_def NOT_INITIALIZED_def UNAUTHORIZED_def INVALID_FEE_BPS_def PAUSED_def INVALID_ADMIN_def INVALID_RECOVERY_ADDRESS_def RECOVERY_NOT_PENDING_def RECOVERY_DELAY_ACTIVE_def EXECUTION_NOT_READY_def OPERATION_NOT_SCHEDULED_def OPERATION_ALREADY_SCHEDULED_def INVALID_WASM_INTERFACE_def INVALID_THRESHOLD_def RECOVERY_ALREADY_PENDING_def ALREADY_PAUSED_def ALREADY_UNPAUSED_def SAME_ADMIN_def GOVERNANCE_RANGE_START_def SETTLEMENT_RANGE_START_def

section \<open>The conformity checks\<close>

text \<open>The assertions of the first loop, on one entry of the table.\<close>

definition entry_conforms :: "u32 \<Rightarrow> string \<times> u32 \<Rightarrow> bool" where
  "entry_conforms range_start entry =
    (case entry of (name, code) \<Rightarrow>
      (case find (\<lambda>(_, c). c = code) SHARED_CODES of
         Some (shared_name, _) \<Rightarrow> name = shared_name
       | None \<Rightarrow> range_start \<le> code))"

text \<open>The nested loops over the pairs of entries at positions \<open>i < j\<close>.\<close>

primrec codes_pairwise_different :: "(string \<times> u32) list \<Rightarrow> bool" where
  "codes_pairwise_different [] = True"
| "codes_pairwise_different (e # es) =
    (list_all (\<lambda>e'. snd e \<noteq> snd e') es \<and> codes_pairwise_different es)"

text \<open>No assertion of \<open>assert_no_code_collisions\<close> fails.\<close>

definition assert_no_code_collisions :: "(string \<times> u32) list \<Rightarrow> u32 \<Rightarrow> bool" where
  "assert_no_code_collisions contract_codes range_start \<longleftrightarrow>
    list_all (entry_conforms range_start) contract_codes \<and> codes_pairwise_different contract_codes"

definition u32_range_inclusive :: "u32 \<Rightarrow> u32 \<Rightarrow> u32 list" where
  "u32_range_inclusive lo hi = map word_of_nat [unat lo ..< Suc (unat hi)]"

definition find_code_gaps :: "(string \<times> u32) list \<Rightarrow> u32 \<Rightarrow> u32 list" where
  "find_code_gaps contract_codes range_start =
    (let specific_codes =
       remdups_adj (sort (filter (\<lambda>c. range_start \<le> c) (map snd contract_codes)))
     in if specific_codes = [] then []
        else filter (\<lambda>expected. expected \<notin> set specific_codes)
               (u32_range_inclusive (hd specific_codes) (last specific_codes)))"

section \<open>What the checks establish\<close>

lemma codes_pairwise_different_iff: "codes_pairwise_different t \<longleftrightarrow> distinct (map snd t)"
  by (induction t) (auto simp: list_all_iff)

lemma SHARED_CODES_distinct: "distinct (map snd SHARED_CODES)" "distinct (map fst SHARED_CODES)"
  by code_simp+

lemma SHARED_CODES_below: "list_all (\<lambda>(_, c). 1 \<le> c \<and> c \<le> 99) SHARED_CODES"
  by code_simp

lemma find_by_code:
  assumes "distinct (map snd t)"
  shows "find (\<lambda>(_, c). c = code) t = Some e \<longleftrightarrow> e \<in> set t \<and> snd e = code"
  using assms by (induction t) force+

lemma find_by_code_None: "find (\<lambda>(_, c). c = code) t = None \<longleftrightarrow> code \<notin> snd ` set t"
  by (induction t) auto

lemma entry_conforms_iff:
  "entry_conforms range_start (name, code) \<longleftrightarrow>
    (name, code) \<in> set SHARED_CODES \<or> code \<notin> snd ` set SHARED_CODES \<and> range_start \<le> code"
proof (cases "find (\<lambda>(_, c). c = code) SHARED_CODES")
  case None
  then have "code \<notin> snd ` set SHARED_CODES"
    by (simp only: find_by_code_None not_False_eq_True)
  moreover from this have "(name, code) \<notin> set SHARED_CODES"
    by (metis image_eqI snd_conv)
  ultimately show ?thesis
    using None by (simp add: entry_conforms_def)
next
  case (Some e)
  then obtain shared where e: "e = (shared, code)" "(shared, code) \<in> set SHARED_CODES"
    using find_by_code [OF SHARED_CODES_distinct(1), of code e] by (cases e) auto
  moreover have "(name, code) \<in> set SHARED_CODES \<longleftrightarrow> name = shared"
    using e find_by_code [OF SHARED_CODES_distinct(1), of code "(name, code)"] Some by auto
  moreover have "code \<in> snd ` set SHARED_CODES"
    using e by force
  ultimately show ?thesis
    using Some by (simp add: entry_conforms_def)
qed

lemma hd_sorted_least: "sorted (xs :: u32 list) \<Longrightarrow> x \<in> set xs \<Longrightarrow> hd xs \<le> x"
  by (cases xs) auto

lemma last_sorted_greatest: "sorted (xs :: u32 list) \<Longrightarrow> x \<in> set xs \<Longrightarrow> x \<le> last xs"
  by (induction xs) (auto split: if_splits)

lemma set_u32_range_inclusive: "set (u32_range_inclusive lo hi) = {lo..hi}"
proof -
  have "c \<in> word_of_nat ` {unat lo ..< Suc (unat hi)}" if "lo \<le> c" "c \<le> hi" for c
    using that by (intro image_eqI [of _ _ "unat c"]) (auto simp: word_le_nat_alt)
  moreover have "lo \<le> word_of_nat n \<and> word_of_nat n \<le> hi" if "unat lo \<le> n" "n \<le> unat hi" for n
    using that unat_u32_less [of hi]
    by (auto simp: word_le_nat_alt unat_of_nat take_bit_eq_mod)
  ultimately have "word_of_nat ` {unat lo ..< Suc (unat hi)} = {lo..hi}"
    by (intro equalityI subsetI) (auto simp only: atLeastAtMost_iff atLeastLessThan_iff less_Suc_eq_le)
  then show ?thesis
    by (simp only: u32_range_inclusive_def set_map set_upt)
qed

text \<open>The gaps are the codes between the least and the greatest specific code that are not used.\<close>

definition specific_codes :: "(string \<times> u32) list \<Rightarrow> u32 \<Rightarrow> u32 set" where
  "specific_codes t range_start = {c \<in> snd ` set t. range_start \<le> c}"

lemma find_code_gaps_set:
  "set (find_code_gaps t range_start) =
    {c. (\<exists>lo \<in> specific_codes t range_start. lo \<le> c) \<and>
        (\<exists>hi \<in> specific_codes t range_start. c \<le> hi)} - specific_codes t range_start"
proof -
  define xs where "xs = remdups_adj (sort (filter (\<lambda>c. range_start \<le> c) (map snd t)))"
  have set_xs: "set xs = specific_codes t range_start"
    by (auto simp: xs_def specific_codes_def)
  have sorted: "sorted xs"
    by (simp add: xs_def sorted_remdups_adj)
  show ?thesis
  proof (cases "xs = []")
    case True
    then show ?thesis
      using set_xs by (simp add: find_code_gaps_def xs_def [symmetric])
  next
    case False
    then have "hd xs \<in> set xs" "last xs \<in> set xs"
      by simp_all
    then have "{hd xs..last xs} = {c. (\<exists>lo \<in> set xs. lo \<le> c) \<and> (\<exists>hi \<in> set xs. c \<le> hi)}"
      using hd_sorted_least [OF sorted] last_sorted_greatest [OF sorted]
      by (auto; meson order_trans)
    then show ?thesis
      using False unfolding set_xs [symmetric]
      by (auto simp: find_code_gaps_def xs_def [symmetric] set_u32_range_inclusive)
  qed
qed

end
