(* ===== verification/Settlement_Types.thy ===== *)
theory Settlement_Types
  imports Common_Storage Error_Codes
begin

text \<open>
  \<open>settlement_contract/src/errors.rs\<close>, \<open>policy.rs\<close> and \<open>types.rs\<close>: the errors, the
  protocol constants, the records of the settlement contract, and its state. The host of the settlement
  contract also answers calls to other contracts and provides the encoding and the hash that key the
  scheduled operations.
\<close>

section \<open>Errors\<close>

datatype SettlementError =
    AlreadyInitialized
  | NotInitialized
  | Unauthorized
  | InvalidFeeBps
  | Paused
  | InvalidAdmin
  | InvalidRecoveryAddress
  | RecoveryNotPending
  | RecoveryDelayActive
  | ExecutionNotReady
  | OperationNotScheduled
  | OperationAlreadyScheduled
  | InvalidWasmInterface
  | InvalidThreshold
  | RecoveryAlreadyPending
  | AlreadyPaused
  | AlreadyUnpaused
  | MerchantExists
  | MerchantMissing
  | DuplicatePaymentReference
  | MerchantRuleNotSet
  | ZeroAddress
  | InvalidPaymentReference
  | InvalidSettlementDelay
  | InvalidGovernance
  | AmountOverflow
  | GovernanceCallFailed
  | FeeExceedsGovernanceConfig
  | AmountTooSmall
  | BatchTooLarge
  | PaymentOrphaned
  | OperationHashCollision
  | AdminSetEmpty
  | SameAdmin
  | PayloadTooLarge
  | ExecutionDelayTooLong
  | InvalidPauseReason

primrec settlement_error_code :: "SettlementError \<Rightarrow> u32" where
  "settlement_error_code AlreadyInitialized = 1"
| "settlement_error_code NotInitialized = 2"
| "settlement_error_code Unauthorized = 3"
| "settlement_error_code InvalidFeeBps = 4"
| "settlement_error_code Paused = 5"
| "settlement_error_code InvalidAdmin = 6"
| "settlement_error_code InvalidRecoveryAddress = 7"
| "settlement_error_code RecoveryNotPending = 8"
| "settlement_error_code RecoveryDelayActive = 9"
| "settlement_error_code ExecutionNotReady = 10"
| "settlement_error_code OperationNotScheduled = 11"
| "settlement_error_code OperationAlreadyScheduled = 12"
| "settlement_error_code InvalidWasmInterface = 13"
| "settlement_error_code InvalidThreshold = 14"
| "settlement_error_code RecoveryAlreadyPending = 15"
| "settlement_error_code AlreadyPaused = 17"
| "settlement_error_code AlreadyUnpaused = 16"
| "settlement_error_code MerchantExists = 300"
| "settlement_error_code MerchantMissing = 302"
| "settlement_error_code DuplicatePaymentReference = 303"
| "settlement_error_code MerchantRuleNotSet = 304"
| "settlement_error_code ZeroAddress = 306"
| "settlement_error_code InvalidPaymentReference = 307"
| "settlement_error_code InvalidSettlementDelay = 308"
| "settlement_error_code InvalidGovernance = 309"
| "settlement_error_code AmountOverflow = 310"
| "settlement_error_code GovernanceCallFailed = 311"
| "settlement_error_code FeeExceedsGovernanceConfig = 312"
| "settlement_error_code AmountTooSmall = 313"
| "settlement_error_code BatchTooLarge = 314"
| "settlement_error_code PaymentOrphaned = 315"
| "settlement_error_code OperationHashCollision = 316"
| "settlement_error_code AdminSetEmpty = 317"
| "settlement_error_code SameAdmin = 18"
| "settlement_error_code PayloadTooLarge = 318"
| "settlement_error_code ExecutionDelayTooLong = 319"
| "settlement_error_code InvalidPauseReason = 320"

text \<open>The assertions checked when the crate is compiled.\<close>

definition settlement_code_assertions :: bool where
  "settlement_code_assertions \<longleftrightarrow>
    settlement_error_code AlreadyInitialized = ALREADY_INITIALIZED \<and>
    settlement_error_code NotInitialized = NOT_INITIALIZED \<and>
    settlement_error_code Unauthorized = UNAUTHORIZED \<and>
    settlement_error_code InvalidFeeBps = INVALID_FEE_BPS \<and>
    settlement_error_code Paused = PAUSED \<and>
    settlement_error_code InvalidAdmin = INVALID_ADMIN \<and>
    settlement_error_code InvalidRecoveryAddress = INVALID_RECOVERY_ADDRESS \<and>
    settlement_error_code RecoveryNotPending = RECOVERY_NOT_PENDING \<and>
    settlement_error_code RecoveryDelayActive = RECOVERY_DELAY_ACTIVE \<and>
    settlement_error_code ExecutionNotReady = EXECUTION_NOT_READY \<and>
    settlement_error_code OperationNotScheduled = OPERATION_NOT_SCHEDULED \<and>
    settlement_error_code OperationAlreadyScheduled = OPERATION_ALREADY_SCHEDULED \<and>
    settlement_error_code InvalidWasmInterface = INVALID_WASM_INTERFACE \<and>
    settlement_error_code InvalidThreshold = INVALID_THRESHOLD \<and>
    settlement_error_code RecoveryAlreadyPending = RECOVERY_ALREADY_PENDING \<and>
    settlement_error_code AlreadyPaused = ALREADY_PAUSED \<and>
    settlement_error_code AlreadyUnpaused = ALREADY_UNPAUSED \<and>
    settlement_error_code SameAdmin = SAME_ADMIN \<and>
    SETTLEMENT_RANGE_START \<le> settlement_error_code MerchantExists \<and>
    SETTLEMENT_RANGE_START \<le> settlement_error_code MerchantMissing \<and>
    SETTLEMENT_RANGE_START \<le> settlement_error_code DuplicatePaymentReference \<and>
    SETTLEMENT_RANGE_START \<le> settlement_error_code MerchantRuleNotSet \<and>
    SETTLEMENT_RANGE_START \<le> settlement_error_code ZeroAddress \<and>
    SETTLEMENT_RANGE_START \<le> settlement_error_code InvalidPaymentReference \<and>
    SETTLEMENT_RANGE_START \<le> settlement_error_code InvalidSettlementDelay \<and>
    SETTLEMENT_RANGE_START \<le> settlement_error_code InvalidGovernance \<and>
    SETTLEMENT_RANGE_START \<le> settlement_error_code AmountOverflow \<and>
    SETTLEMENT_RANGE_START \<le> settlement_error_code GovernanceCallFailed \<and>
    SETTLEMENT_RANGE_START \<le> settlement_error_code FeeExceedsGovernanceConfig \<and>
    SETTLEMENT_RANGE_START \<le> settlement_error_code AmountTooSmall \<and>
    SETTLEMENT_RANGE_START \<le> settlement_error_code BatchTooLarge \<and>
    SETTLEMENT_RANGE_START \<le> settlement_error_code PaymentOrphaned \<and>
    SETTLEMENT_RANGE_START \<le> settlement_error_code OperationHashCollision \<and>
    SETTLEMENT_RANGE_START \<le> settlement_error_code AdminSetEmpty \<and>
    SETTLEMENT_RANGE_START \<le> settlement_error_code PayloadTooLarge \<and>
    SETTLEMENT_RANGE_START \<le> settlement_error_code ExecutionDelayTooLong \<and>
    SETTLEMENT_RANGE_START \<le> settlement_error_code InvalidPauseReason"

text \<open>The table of variant names and discriminants.\<close>

definition settlement_error_table :: "(string \<times> u32) list" where
  "settlement_error_table =
    [(''AlreadyInitialized'', settlement_error_code AlreadyInitialized),
     (''NotInitialized'', settlement_error_code NotInitialized),
     (''Unauthorized'', settlement_error_code Unauthorized),
     (''InvalidFeeBps'', settlement_error_code InvalidFeeBps),
     (''Paused'', settlement_error_code Paused),
     (''InvalidAdmin'', settlement_error_code InvalidAdmin),
     (''InvalidRecoveryAddress'', settlement_error_code InvalidRecoveryAddress),
     (''RecoveryNotPending'', settlement_error_code RecoveryNotPending),
     (''RecoveryDelayActive'', settlement_error_code RecoveryDelayActive),
     (''ExecutionNotReady'', settlement_error_code ExecutionNotReady),
     (''OperationNotScheduled'', settlement_error_code OperationNotScheduled),
     (''OperationAlreadyScheduled'', settlement_error_code OperationAlreadyScheduled),
     (''InvalidWasmInterface'', settlement_error_code InvalidWasmInterface),
     (''InvalidThreshold'', settlement_error_code InvalidThreshold),
     (''RecoveryAlreadyPending'', settlement_error_code RecoveryAlreadyPending),
     (''AlreadyPaused'', settlement_error_code AlreadyPaused),
     (''AlreadyUnpaused'', settlement_error_code AlreadyUnpaused),
     (''MerchantExists'', settlement_error_code MerchantExists),
     (''MerchantMissing'', settlement_error_code MerchantMissing),
     (''DuplicatePaymentReference'', settlement_error_code DuplicatePaymentReference),
     (''MerchantRuleNotSet'', settlement_error_code MerchantRuleNotSet),
     (''ZeroAddress'', settlement_error_code ZeroAddress),
     (''InvalidPaymentReference'', settlement_error_code InvalidPaymentReference),
     (''InvalidSettlementDelay'', settlement_error_code InvalidSettlementDelay),
     (''InvalidGovernance'', settlement_error_code InvalidGovernance),
     (''AmountOverflow'', settlement_error_code AmountOverflow),
     (''GovernanceCallFailed'', settlement_error_code GovernanceCallFailed),
     (''FeeExceedsGovernanceConfig'', settlement_error_code FeeExceedsGovernanceConfig),
     (''AmountTooSmall'', settlement_error_code AmountTooSmall),
     (''BatchTooLarge'', settlement_error_code BatchTooLarge),
     (''PaymentOrphaned'', settlement_error_code PaymentOrphaned),
     (''OperationHashCollision'', settlement_error_code OperationHashCollision),
     (''AdminSetEmpty'', settlement_error_code AdminSetEmpty),
     (''SameAdmin'', settlement_error_code SameAdmin),
     (''PayloadTooLarge'', settlement_error_code PayloadTooLarge),
     (''ExecutionDelayTooLong'', settlement_error_code ExecutionDelayTooLong),
     (''InvalidPauseReason'', settlement_error_code InvalidPauseReason)]"

section \<open>Policy constants\<close>

definition MIN_PAYMENT_AMOUNT :: int where
  "MIN_PAYMENT_AMOUNT = 100"

definition MAX_SETTLEMENT_DELAY_LEDGER :: u32 where
  "MAX_SETTLEMENT_DELAY_LEDGER = 100000"

definition FALLBACK_SETTLEMENT_DELAY_LEDGER :: u32 where
  "FALLBACK_SETTLEMENT_DELAY_LEDGER = 17280"

definition MAX_PAYMENTS_BATCH :: u32 where
  "MAX_PAYMENTS_BATCH = 100"

definition MAX_CANCEL_ALL_BATCH :: u32 where
  "MAX_CANCEL_ALL_BATCH = 50"

definition MAX_PAYMENT_REFERENCE_LEN :: u32 where
  "MAX_PAYMENT_REFERENCE_LEN = 32"

definition MAX_PAYMENTS_PER_MERCHANT :: u32 where
  "MAX_PAYMENTS_PER_MERCHANT = 10000"

definition SETTLEMENT_LEDGERS_PER_DAY :: u32 where
  "SETTLEMENT_LEDGERS_PER_DAY = 17280"

definition PAYMENT_TTL_THRESHOLD :: u32 where
  "PAYMENT_TTL_THRESHOLD = SETTLEMENT_LEDGERS_PER_DAY * 14"

definition PAYMENT_TTL_BUMP :: u32 where
  "PAYMENT_TTL_BUMP = SETTLEMENT_LEDGERS_PER_DAY * 30"

definition RULE_TTL_THRESHOLD :: u32 where
  "RULE_TTL_THRESHOLD = SETTLEMENT_LEDGERS_PER_DAY * 14"

definition RULE_TTL_BUMP :: u32 where
  "RULE_TTL_BUMP = SETTLEMENT_LEDGERS_PER_DAY * 30"

definition MERCHANT_TTL_THRESHOLD :: u32 where
  "MERCHANT_TTL_THRESHOLD = SETTLEMENT_LEDGERS_PER_DAY * 14"

definition MERCHANT_TTL_BUMP :: u32 where
  "MERCHANT_TTL_BUMP = SETTLEMENT_LEDGERS_PER_DAY * 30"

definition SCHEDULED_OP_TTL_THRESHOLD :: u32 where
  "SCHEDULED_OP_TTL_THRESHOLD = SETTLEMENT_LEDGERS_PER_DAY * 14"

definition SCHEDULED_OP_TTL_BUMP :: u32 where
  "SCHEDULED_OP_TTL_BUMP = SETTLEMENT_LEDGERS_PER_DAY * 30"

definition DEFAULT_TIMELOCK_DELAY_SECONDS :: u64 where
  "DEFAULT_TIMELOCK_DELAY_SECONDS = 7 * 24 * 60 * 60"

definition MIN_TIMELOCK_DELAY_SECONDS :: u64 where
  "MIN_TIMELOCK_DELAY_SECONDS = DEFAULT_TIMELOCK_DELAY_SECONDS"

definition MAX_TIMELOCK_DELAY_SECONDS :: u64 where
  "MAX_TIMELOCK_DELAY_SECONDS = ucast (SCHEDULED_OP_TTL_BUMP div SETTLEMENT_LEDGERS_PER_DAY) * 24 * 60 * 60"

definition MAX_SCHEDULED_OPERATION_PAYLOAD_LEN :: u32 where
  "MAX_SCHEDULED_OPERATION_PAYLOAD_LEN = 4096"

definition SUPPORTED_INTERFACE_VERSION :: u32 where
  "SUPPORTED_INTERFACE_VERSION = 1"

definition CURRENT_SCHEMA_VERSION :: u32 where
  "CURRENT_SCHEMA_VERSION = 1"

definition CAPABILITY_FLAGS :: "string list" where
  "CAPABILITY_FLAGS =
    [''timelock'', ''multisig_admin'', ''admin_recovery'', ''pause'', ''wasm_upgrade'',
     ''schema_migration'', ''merchant_rules'', ''default_rule'', ''governance_fee_ceiling'',
     ''fee_split_preview'', ''batch_payment_read'', ''payment_pruning'']"

definition READ_INSTANCE_TTL_THRESHOLD :: u32 where
  "READ_INSTANCE_TTL_THRESHOLD = 50000"

definition READ_INSTANCE_TTL_BUMP :: u32 where
  "READ_INSTANCE_TTL_BUMP = 100000"

definition BOOTSTRAP_DEFAULT_RULE :: SettlementRule where
  "BOOTSTRAP_DEFAULT_RULE =
    \<lparr>sr_platform_fee_bps = 100, sr_network_fee_bps = MIN_FEE_BPS, sr_settlement_delay_ledger = 0,
     sr_auto_settle = False\<rparr>"

section \<open>Records\<close>

record FeeSplit =
  fs_gross_amount :: int
  fs_platform_fee_amount :: int
  fs_network_fee_amount :: int
  fs_merchant_payout_amount :: int

datatype RuleProvenance = FromMerchant | FromDefault | FromGovernance | FromBootstrap

record EffectiveRule =
  er_rule :: SettlementRule
  er_provenance :: RuleProvenance

record PaymentRecord =
  pay_merchant :: address
  pay_amount :: int
  pay_platform_fee_amount :: int
  pay_network_fee_amount :: int
  pay_merchant_payout_amount :: int
  pay_platform_fee_bps :: u32
  pay_network_fee_bps :: u32
  pay_ledger :: u32
  pay_settlement_delay_ledger :: u32
  pay_auto_settle :: bool
  pay_version :: u32

record PaymentsPage =
  pp_records :: "PaymentRecord list"
  pp_next_cursor :: "u32 option"

record GovFeeConfig =
  gfc_platform_fee_bps :: u32
  gfc_network_fee_bps :: u32

record ScheduledOp =
  so_operation_xdr :: bytes
  so_execute_at :: u64

datatype Operation =
    UpdateGovernance address
  | CancelRecovery
  | TransferAdmin "address list" u32
  | Upgrade bytes32
  | RegisterMerchant address
  | UnregisterMerchant address
  | SetSettlementRule address SettlementRule
  | ClearSettlementRule address
  | SetDefaultRule SettlementRule

text \<open>The persistent keys; the instance keys of \<open>DataKey\<close> are fields of the state.\<close>

datatype DataKey =
    Merchant address
  | Rule address
  | ArchivedMerchant address
  | Payment address bytes32
  | ScheduledOperation bytes32
  | PaymentCount address

section \<open>Host and state\<close>

record settlement_host = host +
  h_invoke :: "address \<Rightarrow> string \<Rightarrow> sc_val list \<Rightarrow> sc_val reply"
  h_to_xdr :: "Operation \<Rightarrow> bytes"
  h_sha256 :: "bytes \<Rightarrow> bytes32"

record settlement_state = "DataKey contract_state" +
  ss_initializing :: bool
  ss_governance :: "address option"
  ss_merchant :: "address set"
  ss_rule :: "address \<rightharpoonup> SettlementRule"
  ss_archived :: "address set"
  ss_default_rule :: "SettlementRule option"
  ss_payment :: "address \<times> bytes32 \<rightharpoonup> PaymentRecord"
  ss_scheduled :: "bytes32 \<rightharpoonup> ScheduledOp"
  ss_cached_gov_rule :: "SettlementRule option option"
  ss_payment_count :: "address \<rightharpoonup> u32"
  ss_pending_operation_count :: "u32 option"

type_synonym 'a settlement_action = "(settlement_state, SettlementError, 'a) action"

text \<open>The type of a payment reference has the documented length in bytes.\<close>

lemma reference_length: "size (reference :: bytes32) = 8 * unat MAX_PAYMENT_REFERENCE_LEN"
  by (simp add: word_size MAX_PAYMENT_REFERENCE_LEN_def)

lemma MIN_TIMELOCK_DELAY_SECONDS_unat: "unat MIN_TIMELOCK_DELAY_SECONDS = 604800"
  by (simp add: MIN_TIMELOCK_DELAY_SECONDS_def DEFAULT_TIMELOCK_DELAY_SECONDS_def)

lemma MAX_TIMELOCK_DELAY_SECONDS_unat: "unat MAX_TIMELOCK_DELAY_SECONDS = 2592000"
proof -
  have "SCHEDULED_OP_TTL_BUMP div SETTLEMENT_LEDGERS_PER_DAY = 30"
    by (simp add: SCHEDULED_OP_TTL_BUMP_def SETTLEMENT_LEDGERS_PER_DAY_def)
  then show ?thesis
    by (simp add: MAX_TIMELOCK_DELAY_SECONDS_def)
qed

end
