(* ===== verification/Settlement_Storage.thy ===== *)
theory Settlement_Storage
  imports Settlement_Types
begin

text \<open>
  \<open>settlement_contract/src/storage.rs\<close>: reads and writes of the settlement contract's entries,
  the admin check, the counters, the resolution of the effective rule, and the calls to the governance
  contract. One invocation sees one set of replies: \<open>h_invoke\<close> is the function from the called
  contract, entry point and arguments to the reply.
\<close>

section \<open>Admins, governance and recovery entries\<close>

definition extend_read_ttl :: "unit settlement_action" where
  "extend_read_ttl = extend_instance_ttl READ_INSTANCE_TTL_THRESHOLD READ_INSTANCE_TTL_BUMP"

definition read_admins :: "address list settlement_action" where
  "read_admins =
    andthen extend_read_ttl (
    bind (gets st_admin) (\<lambda>admins.
    expect_some admins NotInitialized))"

definition read_admin :: "address settlement_action" where
  "read_admin =
    bind read_admins (\<lambda>admins.
    expect_some (primary_admin admins) AdminSetEmpty)"

definition read_optional_admins :: "address list settlement_action" where
  "read_optional_admins = gets (\<lambda>s. case st_admin s of Some admins \<Rightarrow> admins | None \<Rightarrow> [])"

definition read_optional_primary_admin :: "address settlement_action" where
  "read_optional_primary_admin =
    gets (\<lambda>s. case Option.bind (st_admin s) primary_admin of Some a \<Rightarrow> a | None \<Rightarrow> zero_address)"

definition validate_nonzero_address :: "address \<Rightarrow> SettlementError \<Rightarrow> unit settlement_action" where
  "validate_nonzero_address address zero_error = panic_if (is_zero_address address) zero_error"

text \<open>The loop of \<open>validate_admins_and_threshold\<close>, from the current position to the end.\<close>

primrec validate_each_admin :: "address list \<Rightarrow> unit settlement_action" where
  "validate_each_admin [] = ret ()"
| "validate_each_admin (admin # rest) =
    andthen (validate_nonzero_address admin ZeroAddress) (
    andthen (panic_if (admin \<in> set rest) InvalidAdmin) (
    validate_each_admin rest))"

definition validate_admins_and_threshold :: "address list \<Rightarrow> u32 \<Rightarrow> unit settlement_action" where
  "validate_admins_and_threshold admins threshold =
    andthen (panic_if (threshold = 0 \<or> length admins < unat threshold) InvalidThreshold) (
    andthen (panic_if (admins = []) InvalidAdmin) (
    validate_each_admin admins))"

definition write_admins :: "address list \<Rightarrow> u32 \<Rightarrow> unit settlement_action" where
  "write_admins admins threshold =
    andthen (validate_admins_and_threshold admins threshold) (
    andthen (modify (\<lambda>s. s\<lparr>st_admin := Some admins\<rparr>)) (
    modify (\<lambda>s. s\<lparr>st_threshold := Some threshold\<rparr>)))"

definition read_threshold :: "u32 settlement_action" where
  "read_threshold =
    andthen extend_read_ttl (
    bind (gets st_threshold) (\<lambda>t.
    expect_some t NotInitialized))"

definition read_schema_version :: "u32 settlement_action" where
  "read_schema_version =
    gets (\<lambda>s. case st_schema_version s of Some v \<Rightarrow> v | None \<Rightarrow> CURRENT_SCHEMA_VERSION)"

text \<open>The loop of \<open>verify_admin_auth\<close>: membership, then no later duplicate, then authorisation.\<close>

primrec verify_each_signer ::
  "'h host_scheme \<Rightarrow> address list \<Rightarrow> address list \<Rightarrow> unit settlement_action" where
  "verify_each_signer env admins [] = ret ()"
| "verify_each_signer env admins (signer # rest) =
    andthen (panic_if (signer \<notin> set admins) Unauthorized) (
    andthen (panic_if (signer \<in> set rest) Unauthorized) (
    andthen (require_auth env signer) (
    verify_each_signer env admins rest)))"

definition verify_admin_auth :: "'h host_scheme \<Rightarrow> address list \<Rightarrow> u32 \<Rightarrow> unit settlement_action" where
  "verify_admin_auth env signers required_count =
    bind read_admins (\<lambda>admins.
    andthen (panic_if (length signers < unat required_count) Unauthorized) (
    verify_each_signer env admins signers))"

definition read_governance :: "address settlement_action" where
  "read_governance =
    andthen extend_read_ttl (
    bind (gets ss_governance) (\<lambda>g.
    expect_some g NotInitialized))"

definition read_recovery_address :: "address settlement_action" where
  "read_recovery_address =
    andthen extend_read_ttl (
    bind (gets st_recovery_address) (\<lambda>a.
    expect_some a NotInitialized))"

definition read_pending_recovery :: "PendingRecovery settlement_action" where
  "read_pending_recovery =
    andthen extend_read_ttl (
    bind (gets st_pending_recovery) (\<lambda>entry.
    bind (expect_some entry RecoveryNotPending) (\<lambda>val.
    case val of
      Decodes p \<Rightarrow> ret p
    | Undecodable \<Rightarrow> panic RecoveryNotPending)))"

definition validate_governance :: "address \<Rightarrow> unit settlement_action" where
  "validate_governance governance = validate_nonzero_address governance InvalidGovernance"

section \<open>Merchants\<close>

definition is_merchant_registered_read :: "address \<Rightarrow> bool settlement_action" where
  "is_merchant_registered_read merchant = gets (\<lambda>s. merchant \<in> ss_merchant s)"

definition is_merchant_registered_internal :: "address \<Rightarrow> bool settlement_action" where
  "is_merchant_registered_internal merchant = gets (\<lambda>s. merchant \<in> ss_merchant s)"

definition assert_payments_readable :: "address \<Rightarrow> unit settlement_action" where
  "assert_payments_readable merchant =
    bind (is_merchant_registered_internal merchant) (\<lambda>registered.
    andthen (panic_if (\<not> registered) PaymentOrphaned) (
    bind (gets (\<lambda>s. merchant \<in> ss_archived s)) (\<lambda>archived.
    panic_if archived PaymentOrphaned)))"

definition is_merchant_registered_and_bump_ttl :: "address \<Rightarrow> bool settlement_action" where
  "is_merchant_registered_and_bump_ttl merchant =
    bind (gets (\<lambda>s. merchant \<in> ss_merchant s)) (\<lambda>exists.
    andthen (when_do exists
      (extend_persistent_ttl (Merchant merchant) MERCHANT_TTL_THRESHOLD MERCHANT_TTL_BUMP)) (
    ret exists))"

section \<open>Counters\<close>

definition read_payment_count :: "address \<Rightarrow> u32 settlement_action" where
  "read_payment_count merchant =
    gets (\<lambda>s. case ss_payment_count s merchant of Some n \<Rightarrow> n | None \<Rightarrow> 0)"

definition increment_payment_count :: "address \<Rightarrow> unit settlement_action" where
  "increment_payment_count merchant =
    bind (read_payment_count merchant) (\<lambda>count.
    bind (unwrap (checked_add_u32 count 1)) (\<lambda>next.
    andthen (modify (\<lambda>s. s\<lparr>ss_payment_count := (ss_payment_count s)(merchant \<mapsto> next)\<rparr>)) (
    extend_persistent_ttl (PaymentCount merchant) MERCHANT_TTL_THRESHOLD MERCHANT_TTL_BUMP)))"

definition decrement_payment_count :: "address \<Rightarrow> u32 \<Rightarrow> unit settlement_action" where
  "decrement_payment_count merchant removed =
    (if removed = 0 then ret () else
    bind (read_payment_count merchant) (\<lambda>count.
    andthen (modify (\<lambda>s. s\<lparr>ss_payment_count :=
      (ss_payment_count s)(merchant \<mapsto> saturating_sub_u32 count removed)\<rparr>)) (
    extend_persistent_ttl (PaymentCount merchant) MERCHANT_TTL_THRESHOLD MERCHANT_TTL_BUMP)))"

definition read_pending_operation_count :: "u32 settlement_action" where
  "read_pending_operation_count =
    gets (\<lambda>s. case ss_pending_operation_count s of Some n \<Rightarrow> n | None \<Rightarrow> 0)"

definition increment_pending_operation_count :: "unit settlement_action" where
  "increment_pending_operation_count =
    bind read_pending_operation_count (\<lambda>count.
    modify (\<lambda>s. s\<lparr>ss_pending_operation_count := Some (saturating_add_u32 count 1)\<rparr>))"

definition decrement_pending_operation_count :: "u32 \<Rightarrow> unit settlement_action" where
  "decrement_pending_operation_count removed =
    (if removed = 0 then ret () else
    bind read_pending_operation_count (\<lambda>count.
    modify (\<lambda>s. s\<lparr>ss_pending_operation_count := Some (saturating_sub_u32 count removed)\<rparr>)))"

section \<open>Calls to the governance contract\<close>

definition SETTLEMENT_BYPASS_GOV_FEES_PARAM :: string where
  "SETTLEMENT_BYPASS_GOV_FEES_PARAM = ''bypass_gov_fees''"

text \<open>
  The reply of \<open>get_system_param\<close> read as \<open>Option<i128>\<close>: a value of another type is a failed
  call.
\<close>

definition option_i128_reply :: "sc_val reply \<Rightarrow> int option reply" where
  "option_i128_reply r =
    (case r of
       Replied ScVoid \<Rightarrow> Replied None
     | Replied (ScI128 v) \<Rightarrow> Replied (Some v)
     | _ \<Rightarrow> CallFailed)"

definition governance_bypass_enabled :: "'h settlement_host_scheme \<Rightarrow> address \<Rightarrow> bool" where
  "governance_bypass_enabled env governance =
    (case option_i128_reply
       (h_invoke env governance ''get_system_param'' [ScSymbol SETTLEMENT_BYPASS_GOV_FEES_PARAM]) of
       Replied (Some v) \<Rightarrow> v = 1
     | _ \<Rightarrow> False)"

definition u32_of_val :: "sc_val \<Rightarrow> u32 option" where
  "u32_of_val v = (case v of ScU32 n \<Rightarrow> Some n | _ \<Rightarrow> None)"

definition classify_governance_fee_config :: "sc_val \<Rightarrow> SettlementError + GovFeeConfig option" where
  "classify_governance_fee_config raw_val =
    (case raw_val of
       ScMap m \<Rightarrow>
         if length m \<noteq> 2 then Inl GovernanceCallFailed
         else (case Option.bind (map_of m (ScSymbol ''platform_fee_bps'')) u32_of_val of
             None \<Rightarrow> Inl GovernanceCallFailed
           | Some platform \<Rightarrow>
              (case Option.bind (map_of m (ScSymbol ''network_fee_bps'')) u32_of_val of
                 None \<Rightarrow> Inl GovernanceCallFailed
               | Some network \<Rightarrow>
                   Inr (Some \<lparr>gfc_platform_fee_bps = platform, gfc_network_fee_bps = network\<rparr>)))
     | _ \<Rightarrow> Inr None)"

definition try_read_governance_fee_config :: "sc_val \<Rightarrow> GovFeeConfig option settlement_action" where
  "try_read_governance_fee_config raw_val =
    (case classify_governance_fee_config raw_val of
       Inr config \<Rightarrow> ret config
     | Inl error \<Rightarrow> panic error)"

definition read_cached_governance_fee_rule :: "SettlementRule option settlement_action" where
  "read_cached_governance_fee_rule =
    gets (\<lambda>s. case ss_cached_gov_rule s of Some r \<Rightarrow> r | None \<Rightarrow> None)"

definition read_governance_fee_rule ::
  "'h settlement_host_scheme \<Rightarrow> SettlementRule option settlement_action" where
  "read_governance_fee_rule env =
    bind (gets ss_governance) (\<lambda>g.
    case g of
      None \<Rightarrow> ret None
    | Some governance \<Rightarrow>
      if governance_bypass_enabled env governance then ret None
      else (case h_invoke env governance ''get_fee_config'' [] of
          CallFailed \<Rightarrow> read_cached_governance_fee_rule
        | Replied raw_val \<Rightarrow>
          bind (try_read_governance_fee_config raw_val) (\<lambda>config.
          case config of
            None \<Rightarrow> ret None
          | Some c \<Rightarrow>
            let rule = \<lparr>sr_platform_fee_bps = gfc_platform_fee_bps c,
                        sr_network_fee_bps = gfc_network_fee_bps c,
                        sr_settlement_delay_ledger = 0, sr_auto_settle = False\<rparr>
            in andthen (panic_if (MAX_SETTLEMENT_DELAY_LEDGER < sr_settlement_delay_ledger rule)
                 InvalidSettlementDelay) (
               andthen (modify (\<lambda>s. s\<lparr>ss_cached_gov_rule := Some (Some rule)\<rparr>)) (
               ret (Some rule))))))"

definition read_min_payment_amount :: "'h settlement_host_scheme \<Rightarrow> int settlement_action" where
  "read_min_payment_amount env =
    bind (gets ss_governance) (\<lambda>g.
    case g of
      None \<Rightarrow> ret MIN_PAYMENT_AMOUNT
    | Some governance \<Rightarrow>
      ret (case option_i128_reply
             (h_invoke env governance ''get_system_param'' [ScSymbol ''min_payment'']) of
             Replied (Some min_amount) \<Rightarrow> min_amount
           | _ \<Rightarrow> MIN_PAYMENT_AMOUNT))"

section \<open>The effective rule\<close>

definition read_effective_fallback_rule ::
  "'h settlement_host_scheme \<Rightarrow> EffectiveRule settlement_action" where
  "read_effective_fallback_rule env =
    bind (gets ss_default_rule) (\<lambda>default.
    case default of
      Some rule \<Rightarrow> ret \<lparr>er_rule = rule, er_provenance = FromDefault\<rparr>
    | None \<Rightarrow>
      bind (read_governance_fee_rule env) (\<lambda>governance_rule.
      case governance_rule of
        Some rule \<Rightarrow> ret \<lparr>er_rule = rule, er_provenance = FromGovernance\<rparr>
      | None \<Rightarrow> ret \<lparr>er_rule = BOOTSTRAP_DEFAULT_RULE, er_provenance = FromBootstrap\<rparr>))"

definition read_effective_rule_no_bump ::
  "'h settlement_host_scheme \<Rightarrow> address \<Rightarrow> EffectiveRule settlement_action" where
  "read_effective_rule_no_bump env merchant =
    bind (gets (\<lambda>s. ss_rule s merchant)) (\<lambda>merchant_rule.
    case merchant_rule of
      Some rule \<Rightarrow> ret \<lparr>er_rule = rule, er_provenance = FromMerchant\<rparr>
    | None \<Rightarrow> read_effective_fallback_rule env)"

definition read_rule_or_default_no_bump ::
  "'h settlement_host_scheme \<Rightarrow> address \<Rightarrow> SettlementRule settlement_action" where
  "read_rule_or_default_no_bump env merchant =
    bind (read_effective_rule_no_bump env merchant) (\<lambda>r. ret (er_rule r))"

definition read_rule_or_default ::
  "'h settlement_host_scheme \<Rightarrow> address \<Rightarrow> SettlementRule settlement_action" where
  "read_rule_or_default env merchant =
    bind (gets (\<lambda>s. ss_rule s merchant)) (\<lambda>merchant_rule.
    andthen (when_do (merchant_rule \<noteq> None)
      (extend_persistent_ttl (Rule merchant) RULE_TTL_THRESHOLD RULE_TTL_BUMP)) (
    read_rule_or_default_no_bump env merchant))"

definition read_fallback_rule :: "'h settlement_host_scheme \<Rightarrow> SettlementRule settlement_action" where
  "read_fallback_rule env = bind (read_effective_fallback_rule env) (\<lambda>r. ret (er_rule r))"

section \<open>Guards\<close>

definition assert_not_paused :: "unit settlement_action" where
  "assert_not_paused = bind is_paused (\<lambda>p. panic_if p Paused)"

definition assert_admin_and_not_paused ::
  "'h host_scheme \<Rightarrow> address list \<Rightarrow> unit settlement_action" where
  "assert_admin_and_not_paused env signers =
    andthen assert_not_paused (
    bind read_threshold (\<lambda>threshold.
    verify_admin_auth env signers threshold))"

definition invoke_governance_get_fee_config ::
  "'h settlement_host_scheme \<Rightarrow> address \<Rightarrow> sc_val settlement_action" where
  "invoke_governance_get_fee_config env governance =
    (case h_invoke env governance ''get_fee_config'' [] of
       Replied val \<Rightarrow> ret val
     | CallFailed \<Rightarrow> panic GovernanceCallFailed)"

definition assert_governance_reachable :: "'h settlement_host_scheme \<Rightarrow> unit settlement_action" where
  "assert_governance_reachable env =
    bind read_governance (\<lambda>governance.
    bind (invoke_governance_get_fee_config env governance) (\<lambda>_.
    ret ()))"

definition validate_fee_against_governance ::
  "'h settlement_host_scheme \<Rightarrow> SettlementRule \<Rightarrow> unit settlement_action" where
  "validate_fee_against_governance env rule =
    bind read_governance (\<lambda>governance.
    bind (invoke_governance_get_fee_config env governance) (\<lambda>raw_val.
    bind (try_read_governance_fee_config raw_val) (\<lambda>config.
    case config of
      None \<Rightarrow> ret ()
    | Some fee_config \<Rightarrow>
      if gfc_platform_fee_bps fee_config < sr_platform_fee_bps rule \<or>
         gfc_network_fee_bps fee_config < sr_network_fee_bps rule
      then andthen (publish [ScSymbol FEE_CEILING_REJECTED_EVENT, ScU32 (sr_platform_fee_bps rule)]
             (ScU32 (sr_network_fee_bps rule))) (
           panic FeeExceedsGovernanceConfig)
      else ret ())))"

end
