(* ===== verification/Merchant_Rules.thy ===== *)
theory Merchant_Rules
  imports Settlement_Storage
begin

text \<open>
  \<open>settlement_contract/src/merchant.rs\<close> and \<open>settlement.rs\<close>: registration of merchants and
  the settlement rules, with the arms of the timelocked operations on them from \<open>admin.rs\<close> (the
  functions with a leading underscore there; they carry the suffix \<open>_scheduled\<close> here).
\<close>

section \<open>Registration\<close>

definition register_merchant ::
  "'h settlement_host_scheme \<Rightarrow> address list \<Rightarrow> address \<Rightarrow> unit settlement_action" where
  "register_merchant env signers merchant =
    andthen (assert_admin_and_not_paused env signers) (
    andthen (validate_nonzero_address merchant ZeroAddress) (
    bind (unwrap (get0 signers)) (\<lambda>admin.
    bind read_admins (\<lambda>admins.
    andthen (panic_if (merchant \<in> set admins) InvalidAdmin) (
    andthen (require_auth env merchant) (
    andthen (publish [ScSymbol MERCHANT_CONSENT_EVENT, ScAddress merchant] ScVoid) (
    bind (gets (\<lambda>s. merchant \<in> ss_merchant s)) (\<lambda>has.
    andthen (panic_if has MerchantExists) (
    andthen (modify (\<lambda>s. s\<lparr>ss_merchant := insert merchant (ss_merchant s)\<rparr>)) (
    andthen (extend_persistent_ttl (Merchant merchant) MERCHANT_TTL_THRESHOLD MERCHANT_TTL_BUMP) (
    andthen (modify (\<lambda>s. s\<lparr>ss_archived := ss_archived s - {merchant}\<rparr>)) (
    publish [ScSymbol MERCHANT_REGISTERED_EVENT, ScAddress merchant] (ScAddress admin)))))))))))))"

definition unregister_merchant ::
  "'h settlement_host_scheme \<Rightarrow> address list \<Rightarrow> address \<Rightarrow> unit settlement_action" where
  "unregister_merchant env signers merchant =
    andthen (assert_admin_and_not_paused env signers) (
    bind (unwrap (get0 signers)) (\<lambda>admin.
    bind (gets (\<lambda>s. merchant \<in> ss_merchant s)) (\<lambda>has.
    andthen (panic_if (\<not> has) MerchantMissing) (
    andthen (modify (\<lambda>s. s\<lparr>ss_merchant := ss_merchant s - {merchant}\<rparr>)) (
    andthen (modify (\<lambda>s. s\<lparr>ss_archived := insert merchant (ss_archived s)\<rparr>)) (
    andthen (extend_persistent_ttl (ArchivedMerchant merchant) MERCHANT_TTL_THRESHOLD
      MERCHANT_TTL_BUMP) (
    bind (gets (\<lambda>s. ss_rule s merchant)) (\<lambda>old_rule.
    andthen
      (case old_rule of
         None \<Rightarrow> ret ()
       | Some removed \<Rightarrow>
           andthen (modify (\<lambda>s. s\<lparr>ss_rule := (ss_rule s)(merchant := None)\<rparr>)) (
           bind (read_fallback_rule env) (\<lambda>fallback.
           emit_settlement_rule_cleared merchant admin removed fallback))) (
    publish [ScSymbol MERCHANT_UNREGISTERED_EVENT, ScAddress merchant] (ScAddress admin))))))))))"

definition is_merchant_registered :: "address \<Rightarrow> bool settlement_action" where
  "is_merchant_registered merchant =
    bind (gets st_admin) (\<lambda>admin.
    andthen (panic_if (admin = None) NotInitialized) (
    is_merchant_registered_read merchant))"

definition register_merchant_scheduled :: "address \<Rightarrow> address \<Rightarrow> unit settlement_action" where
  "register_merchant_scheduled executor merchant =
    andthen assert_not_paused (
    andthen (validate_nonzero_address merchant ZeroAddress) (
    bind read_admins (\<lambda>admins.
    andthen (panic_if (merchant \<in> set admins) InvalidAdmin) (
    bind (gets (\<lambda>s. merchant \<in> ss_merchant s)) (\<lambda>has.
    andthen (panic_if has MerchantExists) (
    andthen (modify (\<lambda>s. s\<lparr>ss_merchant := insert merchant (ss_merchant s)\<rparr>)) (
    andthen (extend_persistent_ttl (Merchant merchant) MERCHANT_TTL_THRESHOLD MERCHANT_TTL_BUMP) (
    andthen (modify (\<lambda>s. s\<lparr>ss_archived := ss_archived s - {merchant}\<rparr>)) (
    publish [ScSymbol MERCHANT_REGISTERED_EVENT, ScAddress merchant] (ScAddress executor))))))))))"

definition unregister_merchant_scheduled ::
  "'h settlement_host_scheme \<Rightarrow> address \<Rightarrow> address \<Rightarrow> unit settlement_action" where
  "unregister_merchant_scheduled env executor merchant =
    andthen assert_not_paused (
    bind (gets (\<lambda>s. merchant \<in> ss_merchant s)) (\<lambda>has.
    andthen (panic_if (\<not> has) MerchantMissing) (
    andthen (modify (\<lambda>s. s\<lparr>ss_merchant := ss_merchant s - {merchant}\<rparr>)) (
    andthen (modify (\<lambda>s. s\<lparr>ss_archived := insert merchant (ss_archived s)\<rparr>)) (
    andthen (extend_persistent_ttl (ArchivedMerchant merchant) MERCHANT_TTL_THRESHOLD
      MERCHANT_TTL_BUMP) (
    bind (gets (\<lambda>s. ss_rule s merchant)) (\<lambda>old_rule.
    andthen
      (case old_rule of
         None \<Rightarrow> ret ()
       | Some removed \<Rightarrow>
           andthen (modify (\<lambda>s. s\<lparr>ss_rule := (ss_rule s)(merchant := None)\<rparr>)) (
           bind (read_fallback_rule env) (\<lambda>fallback.
           emit_settlement_rule_cleared merchant executor removed fallback))) (
    publish [ScSymbol MERCHANT_UNREGISTERED_EVENT, ScAddress merchant] (ScAddress executor)))))))))"

section \<open>Rules\<close>

definition validate_rule_bounds :: "SettlementRule \<Rightarrow> unit settlement_action" where
  "validate_rule_bounds rule =
    andthen (panic_if
      (BPS_DENOMINATOR < sr_platform_fee_bps rule \<or> BPS_DENOMINATOR < sr_network_fee_bps rule)
      InvalidFeeBps) (
    andthen (panic_if
      (sr_platform_fee_bps rule < MIN_FEE_BPS \<or> sr_network_fee_bps rule < MIN_FEE_BPS)
      InvalidFeeBps) (
    andthen (panic_if
      (MAX_FEE_BPS < sr_platform_fee_bps rule \<or> MAX_FEE_BPS < sr_network_fee_bps rule)
      InvalidFeeBps) (
    andthen (panic_if
      (case checked_add_u32 (sr_platform_fee_bps rule) (sr_network_fee_bps rule) of
         None \<Rightarrow> True
       | Some total_bps \<Rightarrow> BPS_DENOMINATOR < total_bps)
      InvalidFeeBps) (
    panic_if (MAX_SETTLEMENT_DELAY_LEDGER < sr_settlement_delay_ledger rule)
      InvalidSettlementDelay))))"

definition set_settlement_rule ::
  "'h settlement_host_scheme \<Rightarrow> address list \<Rightarrow> address \<Rightarrow> SettlementRule \<Rightarrow> unit settlement_action" where
  "set_settlement_rule env signers merchant rule =
    andthen (assert_admin_and_not_paused env signers) (
    bind (unwrap (get0 signers)) (\<lambda>admin.
    andthen (validate_nonzero_address merchant ZeroAddress) (
    bind (is_merchant_registered_and_bump_ttl merchant) (\<lambda>registered.
    andthen (panic_if (\<not> registered) MerchantMissing) (
    andthen (validate_rule_bounds rule) (
    andthen (validate_fee_against_governance env rule) (
    bind (gets (\<lambda>s. ss_rule s merchant)) (\<lambda>current.
    bind (case current of Some r \<Rightarrow> ret r | None \<Rightarrow> read_rule_or_default env merchant) (\<lambda>prev.
    andthen (modify (\<lambda>s. s\<lparr>ss_rule := (ss_rule s)(merchant \<mapsto> rule)\<rparr>)) (
    andthen (extend_persistent_ttl (Rule merchant) RULE_TTL_THRESHOLD RULE_TTL_BUMP) (
    publish [ScSymbol SETTLEMENT_RULE_UPDATED_EVENT, ScAddress merchant]
      (ScVec [ScAddress admin, sc_settlement_rule prev, sc_settlement_rule rule]))))))))))))"

definition clear_settlement_rule ::
  "'h settlement_host_scheme \<Rightarrow> address list \<Rightarrow> address \<Rightarrow> unit settlement_action" where
  "clear_settlement_rule env signers merchant =
    andthen (assert_admin_and_not_paused env signers) (
    bind (unwrap (get0 signers)) (\<lambda>admin.
    bind (gets (\<lambda>s. ss_rule s merchant)) (\<lambda>current.
    bind (expect_some current MerchantRuleNotSet) (\<lambda>removed.
    andthen (modify (\<lambda>s. s\<lparr>ss_rule := (ss_rule s)(merchant := None)\<rparr>)) (
    bind (read_fallback_rule env) (\<lambda>fallback.
    emit_settlement_rule_cleared merchant admin removed fallback))))))"

definition set_default_rule ::
  "'h settlement_host_scheme \<Rightarrow> address list \<Rightarrow> SettlementRule \<Rightarrow> unit settlement_action" where
  "set_default_rule env signers new_rule =
    andthen (assert_admin_and_not_paused env signers) (
    bind (unwrap (get0 signers)) (\<lambda>admin.
    andthen (panic_if
      (BPS_DENOMINATOR < sr_platform_fee_bps new_rule \<or> BPS_DENOMINATOR < sr_network_fee_bps new_rule)
      InvalidFeeBps) (
    andthen (panic_if
      (sr_platform_fee_bps new_rule < MIN_FEE_BPS \<or> sr_network_fee_bps new_rule < MIN_FEE_BPS)
      InvalidFeeBps) (
    andthen (panic_if
      (MAX_FEE_BPS < sr_platform_fee_bps new_rule \<or> MAX_FEE_BPS < sr_network_fee_bps new_rule)
      InvalidFeeBps) (
    andthen (panic_if
      (case checked_add_u32 (sr_platform_fee_bps new_rule) (sr_network_fee_bps new_rule) of
         None \<Rightarrow> True
       | Some total_bps \<Rightarrow> BPS_DENOMINATOR < total_bps)
      InvalidFeeBps) (
    andthen (panic_if (MAX_SETTLEMENT_DELAY_LEDGER < sr_settlement_delay_ledger new_rule)
      InvalidSettlementDelay) (
    andthen (validate_fee_against_governance env new_rule) (
    bind (gets ss_default_rule) (\<lambda>current.
    andthen (modify (\<lambda>s. s\<lparr>ss_default_rule := Some new_rule\<rparr>)) (
    publish [ScSymbol DEFAULT_RULE_UPDATED_EVENT]
      (ScVec [ScAddress admin,
        sc_settlement_rule (case current of Some r \<Rightarrow> r | None \<Rightarrow> BOOTSTRAP_DEFAULT_RULE),
        sc_settlement_rule new_rule])))))))))))"

definition get_default_rule :: "SettlementRule option settlement_action" where
  "get_default_rule = gets ss_default_rule"

definition get_settlement_rule :: "address \<Rightarrow> SettlementRule option settlement_action" where
  "get_settlement_rule merchant =
    bind (gets (\<lambda>s. ss_rule s merchant)) (\<lambda>rule.
    case rule of
      Some r \<Rightarrow>
        andthen (extend_persistent_ttl (Rule merchant) RULE_TTL_THRESHOLD RULE_TTL_BUMP) (
        ret (Some r))
    | None \<Rightarrow> ret None)"

definition get_settlement_rule_no_bump :: "address \<Rightarrow> SettlementRule option settlement_action" where
  "get_settlement_rule_no_bump merchant = gets (\<lambda>s. ss_rule s merchant)"

definition get_effective_rule ::
  "'h settlement_host_scheme \<Rightarrow> address \<Rightarrow> SettlementRule settlement_action" where
  "get_effective_rule env merchant = read_rule_or_default_no_bump env merchant"

definition get_rule_provenance ::
  "'h settlement_host_scheme \<Rightarrow> address \<Rightarrow> EffectiveRule settlement_action" where
  "get_rule_provenance env merchant = read_effective_rule_no_bump env merchant"

section \<open>The timelocked arms on rules\<close>

definition set_settlement_rule_scheduled ::
  "'h settlement_host_scheme \<Rightarrow> address \<Rightarrow> address \<Rightarrow> SettlementRule \<Rightarrow> unit settlement_action" where
  "set_settlement_rule_scheduled env executor merchant rule =
    andthen assert_not_paused (
    andthen (validate_fee_against_governance env rule) (
    bind (is_merchant_registered_and_bump_ttl merchant) (\<lambda>registered.
    andthen (panic_if (\<not> registered) MerchantMissing) (
    andthen (panic_if
      (BPS_DENOMINATOR < sr_platform_fee_bps rule \<or> BPS_DENOMINATOR < sr_network_fee_bps rule)
      InvalidFeeBps) (
    andthen (panic_if
      (sr_platform_fee_bps rule < MIN_FEE_BPS \<or> sr_network_fee_bps rule < MIN_FEE_BPS)
      InvalidFeeBps) (
    andthen (panic_if
      (MAX_FEE_BPS < sr_platform_fee_bps rule \<or> MAX_FEE_BPS < sr_network_fee_bps rule)
      InvalidFeeBps) (
    bind (unwrap (checked_add_u32 (sr_platform_fee_bps rule) (sr_network_fee_bps rule))) (\<lambda>total_bps.
    andthen (panic_if (BPS_DENOMINATOR < total_bps) InvalidFeeBps) (
    andthen (panic_if (MAX_SETTLEMENT_DELAY_LEDGER < sr_settlement_delay_ledger rule)
      InvalidSettlementDelay) (
    bind (gets (\<lambda>s. ss_rule s merchant)) (\<lambda>current.
    bind (case current of Some r \<Rightarrow> ret r | None \<Rightarrow> read_rule_or_default env merchant) (\<lambda>prev.
    andthen (modify (\<lambda>s. s\<lparr>ss_rule := (ss_rule s)(merchant \<mapsto> rule)\<rparr>)) (
    andthen (extend_persistent_ttl (Rule merchant) RULE_TTL_THRESHOLD RULE_TTL_BUMP) (
    publish [ScSymbol SETTLEMENT_RULE_UPDATED_EVENT, ScAddress merchant]
      (ScVec [ScAddress executor, sc_settlement_rule prev, sc_settlement_rule rule])))))))))))))))"

definition clear_settlement_rule_scheduled ::
  "'h settlement_host_scheme \<Rightarrow> address \<Rightarrow> address \<Rightarrow> unit settlement_action" where
  "clear_settlement_rule_scheduled env executor merchant =
    andthen assert_not_paused (
    bind (gets (\<lambda>s. ss_rule s merchant)) (\<lambda>current.
    bind (expect_some current MerchantRuleNotSet) (\<lambda>removed.
    andthen (modify (\<lambda>s. s\<lparr>ss_rule := (ss_rule s)(merchant := None)\<rparr>)) (
    bind (read_rule_or_default env merchant) (\<lambda>fallback.
    publish [ScSymbol SETTLEMENT_RULE_CLEARED_EVENT, ScAddress merchant]
      (ScVec [ScAddress executor, sc_settlement_rule removed, sc_settlement_rule fallback]))))))"

definition set_default_rule_scheduled ::
  "'h settlement_host_scheme \<Rightarrow> address \<Rightarrow> SettlementRule \<Rightarrow> unit settlement_action" where
  "set_default_rule_scheduled env executor new_rule =
    andthen assert_not_paused (
    andthen (validate_fee_against_governance env new_rule) (
    andthen (panic_if
      (BPS_DENOMINATOR < sr_platform_fee_bps new_rule \<or> BPS_DENOMINATOR < sr_network_fee_bps new_rule)
      InvalidFeeBps) (
    andthen (panic_if
      (sr_platform_fee_bps new_rule < MIN_FEE_BPS \<or> sr_network_fee_bps new_rule < MIN_FEE_BPS)
      InvalidFeeBps) (
    andthen (panic_if
      (MAX_FEE_BPS < sr_platform_fee_bps new_rule \<or> MAX_FEE_BPS < sr_network_fee_bps new_rule)
      InvalidFeeBps) (
    bind (unwrap (checked_add_u32 (sr_platform_fee_bps new_rule) (sr_network_fee_bps new_rule)))
      (\<lambda>total_bps.
    andthen (panic_if (BPS_DENOMINATOR < total_bps) InvalidFeeBps) (
    andthen (panic_if (MAX_SETTLEMENT_DELAY_LEDGER < sr_settlement_delay_ledger new_rule)
      InvalidSettlementDelay) (
    bind (gets ss_default_rule) (\<lambda>current.
    andthen (modify (\<lambda>s. s\<lparr>ss_default_rule := Some new_rule\<rparr>)) (
    publish [ScSymbol DEFAULT_RULE_UPDATED_EVENT]
      (ScVec [ScAddress executor,
        sc_settlement_rule (case current of Some r \<Rightarrow> r | None \<Rightarrow> BOOTSTRAP_DEFAULT_RULE),
        sc_settlement_rule new_rule])))))))))))"

end
