(* ===== verification/Contract_Interfaces.thy ===== *)
theory Contract_Interfaces
  imports Common_Storage "HOL-Library.Sublist"
begin

text \<open>
  The contracts between components, as locales. A contract is a labelled transition relation, one
  label per invocation. \<open>step_invariant\<close> lifts what every invocation preserves to the reachable
  states; \<open>simulation\<close> is the refinement of an abstract machine; \<open>timelock\<close> is the delay both recovery
  flows and the scheduled operations promise; \<open>pausable\<close> is what a pause freezes; \<open>multisig\<close> is the
  promise of an admin check; \<open>counted_store\<close> is the promise of a counter kept beside a keyed store. Each is interpreted in
  the theories of the components that provide it.
\<close>

section \<open>Runs\<close>

inductive run :: "('l \<Rightarrow> 's \<Rightarrow> 's \<Rightarrow> bool) \<Rightarrow> 's \<Rightarrow> 'l list \<Rightarrow> 's \<Rightarrow> bool" for step where
  run_nil: "run step s [] s"
| run_snoc: "run step s ls s' \<Longrightarrow> step l s' s'' \<Longrightarrow> run step s (ls @ [l]) s''"

inductive_cases run_nilE: "run step s [] s'"
inductive_cases run_snocE: "run step s (ls @ [l]) s'"

lemma run_append:
  assumes "run step s2 ls2 s3" "run step s1 ls1 s2"
  shows "run step s1 (ls1 @ ls2) s3"
  using assms
proof (induction rule: run.induct)
  case (run_snoc s ls s' l s'')
  then show ?case
    using run.run_snoc [of step s1 "ls1 @ ls"] by simp
qed simp

text \<open>A run is the sequence of its first step and the rest.\<close>

lemma run_cons_iff: "run step s (l # ls) s' \<longleftrightarrow> (\<exists>s1. step l s s1 \<and> run step s1 ls s')"
proof
  assume "run step s (l # ls) s'"
  then show "\<exists>s1. step l s s1 \<and> run step s1 ls s'"
  proof (induction ls arbitrary: s' rule: rev_induct)
    case Nil
    then show ?case
      by (metis append_Nil run_nilE run_snocE run_nil)
  next
    case (snoc m ls)
    from snoc.prems obtain t where t: "run step s (l # ls) t" "step m t s'"
      using run_snocE [of step s "l # ls" m s'] by auto
    then show ?case
      using snoc.IH [of t] by (metis run_snoc)
  qed
next
  assume "\<exists>s1. step l s s1 \<and> run step s1 ls s'"
  then obtain s1 where "step l s s1" "run step s1 ls s'"
    by blast
  then show "run step s (l # ls) s'"
    using run_append [of step s1 ls s' s "[l]"] run_snoc [OF run_nil, of step l s s1] by simp
qed

lemma run_nil_iff [simp]: "run step s [] s' \<longleftrightarrow> s' = s"
  using run_nil [of step s] by (auto elim: run_nilE)

lemma run_split:
  assumes "run step s (ls1 @ ls2) s'"
  obtains t where "run step s ls1 t" "run step t ls2 s'"
  using assms by (induction ls1 arbitrary: s) (auto simp: run_cons_iff)

text \<open>The ledger time of an invocation: a label is a host and a call.\<close>

definition label_time :: "'h host_scheme \<times> 'c \<Rightarrow> nat" where
  "label_time l = unat (h_timestamp (fst l))"

text \<open>The time from which a pending recovery may be executed.\<close>

definition recovery_due :: "PendingRecovery \<Rightarrow> nat" where
  "recovery_due p = unat (pr_execute_after p)"

section \<open>Invariants\<close>

locale step_invariant =
  fixes step :: "'l \<Rightarrow> 's \<Rightarrow> 's \<Rightarrow> bool"
    and init :: "'s \<Rightarrow> bool"
    and inv :: "'s \<Rightarrow> bool"
  assumes init_inv: "init s \<Longrightarrow> inv s"
    and step_inv: "inv s \<Longrightarrow> step l s s' \<Longrightarrow> inv s'"
begin

lemma run_inv:
  assumes "run step s ls s'" "inv s"
  shows "inv s'"
  using assms by (induction rule: run.induct) (auto intro: step_inv)

lemma reachable_inv:
  assumes "init s" "run step s ls s'"
  shows "inv s'"
  using assms by (blast intro: run_inv init_inv)

end

section \<open>Refinement\<close>

text \<open>
  A concrete transition relation implements an abstract one: under the invariant every concrete step leaves
  the abstraction alone or is an abstract step, whose label \<open>view_label\<close> takes from the concrete one.
\<close>

locale simulation =
  fixes step :: "'l \<Rightarrow> 's \<Rightarrow> 's \<Rightarrow> bool"
    and abstract_step :: "'m \<Rightarrow> 'a \<Rightarrow> 'a \<Rightarrow> bool"
    and abstraction :: "'s \<Rightarrow> 'a"
    and view_label :: "'l \<Rightarrow> 'm"
    and inv :: "'s \<Rightarrow> bool"
  assumes simulates: "inv s \<Longrightarrow> step l s s' \<Longrightarrow>
      inv s' \<and> (abstraction s' = abstraction s \<or> abstract_step (view_label l) (abstraction s) (abstraction s'))"
begin

text \<open>Every history is an abstract history, whose labels are a subsequence of its own.\<close>

lemma run_simulates:
  assumes "run step s ls s'" "inv s"
  shows "inv s' \<and>
    (\<exists>ms. subseq ms (map view_label ls) \<and> run abstract_step (abstraction s) ms (abstraction s'))"
  using assms
proof (induction rule: run.induct)
  case (run_nil s)
  then show ?case
    by (auto intro: exI [of _ "[]"])
next
  case (run_snoc s ls s' l s'')
  then obtain ms where IH: "inv s'" "subseq ms (map view_label ls)"
    "run abstract_step (abstraction s) ms (abstraction s')"
    by blast
  have sub: "subseq ms (map view_label (ls @ [l]))" "subseq (ms @ [view_label l]) (map view_label (ls @ [l]))"
    using IH(2) by (auto intro: list_emb_append2)
  from simulates [OF IH(1) run_snoc.hyps(2)]
  consider "inv s''" "abstraction s'' = abstraction s'"
    | "inv s''" "abstract_step (view_label l) (abstraction s') (abstraction s'')"
    by blast
  then show ?case
  proof cases
    case 1
    then show ?thesis
      using IH(3) sub(1) by auto
  next
    case 2
    then show ?thesis
      using run.run_snoc [OF IH(3)] sub(2) by blast
  qed
qed

end

section \<open>Timelocks\<close>

text \<open>
  \<open>ready k s\<close> is the entry pending under \<open>k\<close> in \<open>s\<close>, and \<open>due\<close> the time from which it may be
  used. A step that makes an entry pending, or changes it, opens it with the delay; a step that fires it
  finds it pending and due, and removes it.
\<close>

locale timelock =
  fixes step :: "'l \<Rightarrow> 's \<Rightarrow> 's \<Rightarrow> bool"
    and now :: "'l \<Rightarrow> nat"
    and ready :: "'k \<Rightarrow> 's \<Rightarrow> 'p option"
    and due :: "'p \<Rightarrow> nat"
    and opens :: "'k \<Rightarrow> 'p \<Rightarrow> 's \<Rightarrow> 'l \<Rightarrow> bool"
    and fires :: "'k \<Rightarrow> 'l \<Rightarrow> bool"
    and delay :: nat
  assumes opened: "step l s s' \<Longrightarrow> ready k s' = Some p \<Longrightarrow> ready k s \<noteq> Some p \<Longrightarrow>
      opens k p s l \<and> now l + delay \<le> due p"
    and fired: "step l s s' \<Longrightarrow> fires k l \<Longrightarrow>
      (\<exists>p. ready k s = Some p \<and> due p \<le> now l) \<and> ready k s' = None"
begin

lemma ready_opened:
  assumes "run step s0 ls s" "ready k s = Some p" "ready k s0 = None"
  shows "\<exists>ls1 l ls2 s1 s1'. ls = ls1 @ l # ls2 \<and> run step s0 ls1 s1 \<and> step l s1 s1' \<and>
    run step s1' ls2 s \<and> opens k p s1 l \<and> now l + delay \<le> due p \<and> (\<forall>l' \<in> set ls2. \<not> fires k l')"
  using assms
proof (induction rule: run.induct)
  case (run_nil s)
  then show ?case
    by simp
next
  case (run_snoc s ls s' l s'')
  show ?case
  proof (cases "ready k s' = Some p")
    case True
    then obtain ls1 m ls2 s1 s1' where IH: "ls = ls1 @ m # ls2" "run step s ls1 s1" "step m s1 s1'"
      "run step s1' ls2 s'" "opens k p s1 m" "now m + delay \<le> due p" "\<forall>l' \<in> set ls2. \<not> fires k l'"
      using run_snoc.IH run_snoc.prems by blast
    moreover have "\<not> fires k l"
      using fired [OF run_snoc.hyps(2), of k] run_snoc.prems(1) by auto
    moreover have "run step s1' (ls2 @ [l]) s''"
      using IH(4) run_snoc.hyps(2) by (rule run.run_snoc)
    ultimately show ?thesis
      by (intro exI [of _ ls1] exI [of _ m] exI [of _ "ls2 @ [l]"] exI [of _ s1] exI [of _ s1']) auto
  next
    case False
    then have "opens k p s' l \<and> now l + delay \<le> due p"
      using opened run_snoc.hyps(2) run_snoc.prems(1) by blast
    then show ?thesis
      using run_snoc.hyps by (intro exI [of _ ls] exI [of _ l] exI [of _ "[]"]) auto
  qed
qed

text \<open>
  A use of an entry is preceded by an invocation that opened this very entry at least the delay before,
  and the entry was not used in between.
\<close>

lemma fire_after_delay:
  assumes "run step s0 ls s" "ready k s0 = None" "step l s s'" "fires k l"
  shows "\<exists>p ls1 m ls2 s1. ready k s = Some p \<and> ls = ls1 @ m # ls2 \<and> run step s0 ls1 s1 \<and>
    opens k p s1 m \<and> now m + delay \<le> now l \<and> (\<forall>l' \<in> set ls2. \<not> fires k l')"
proof -
  obtain p where p: "ready k s = Some p" "due p \<le> now l"
    using fired [OF assms(3,4)] by blast
  obtain ls1 m ls2 s1 where "ls = ls1 @ m # ls2" "run step s0 ls1 s1"
    "opens k p s1 m" "now m + delay \<le> due p" "\<forall>l' \<in> set ls2. \<not> fires k l'"
    using ready_opened [OF assms(1) p(1) assms(2)] by blast
  with p show ?thesis
    by (intro exI [of _ p] exI [of _ ls1] exI [of _ m] exI [of _ ls2] exI [of _ s1]) auto
qed

end

section \<open>Pausing\<close>

text \<open>
  \<open>view\<close> is the part of the state a pause freezes; only a lifting invocation ends the pause.
\<close>

locale pausable =
  fixes step :: "'l \<Rightarrow> 's \<Rightarrow> 's \<Rightarrow> bool"
    and is_frozen :: "'s \<Rightarrow> bool"
    and lifts :: "'l \<Rightarrow> bool"
    and view :: "'s \<Rightarrow> 'v"
  assumes stays_frozen: "step l s s' \<Longrightarrow> is_frozen s \<Longrightarrow> \<not> lifts l \<Longrightarrow> is_frozen s'"
    and frozen_view: "step l s s' \<Longrightarrow> is_frozen s \<Longrightarrow> view s' = view s"
begin

lemma pause_freezes:
  assumes "run step s ls s'" "is_frozen s" "\<forall>l \<in> set ls. \<not> lifts l"
  shows "is_frozen s' \<and> view s' = view s"
  using assms by (induction rule: run.induct) (auto dest: frozen_view intro: stays_frozen)

end

section \<open>Admin checks\<close>

text \<open>
  A quorum: at least \<open>n\<close> signers, all different, all of them admins, all of whom authorised the
  invocation.
\<close>

definition admin_quorum ::
  "'h host_scheme \<Rightarrow> ('k, 'x) contract_state_scheme \<Rightarrow> address list \<Rightarrow> u32 \<Rightarrow> bool" where
  "admin_quorum env s signers n \<longleftrightarrow>
    (case st_admin s of
       None \<Rightarrow> False
     | Some admins \<Rightarrow> unat n \<le> length signers \<and> distinct signers \<and> set signers \<subseteq> set admins \<and>
         set signers \<subseteq> h_auths env)"

locale multisig =
  fixes verify :: "'h host_scheme \<Rightarrow> address list \<Rightarrow> u32 \<Rightarrow> (('k, 'x) contract_state_scheme, 'e, unit) action"
    and touch :: "('k, 'x) contract_state_scheme \<Rightarrow> ('k, 'x) contract_state_scheme"
  assumes verify_ok:
    "verify env signers n s = Inr r \<longleftrightarrow> admin_quorum env s signers n \<and> r = ((), touch s)"
begin

lemma verify_count:
  assumes "verify env signers n s = Inr r" "st_admin s = Some admins"
  shows "unat n \<le> card (set admins \<inter> h_auths env)"
proof -
  have "card (set signers) \<le> card (set admins \<inter> h_auths env)"
    using assms by (intro card_mono) (auto simp: verify_ok admin_quorum_def)
  then show ?thesis
    using assms by (simp add: verify_ok admin_quorum_def distinct_card)
qed

lemma verify_possible:
  assumes "st_admin s = Some admins" "unat n \<le> card (set admins \<inter> h_auths env)"
  shows "\<exists>signers. verify env signers n s = Inr ((), touch s)"
proof -
  obtain signers where "set signers = set admins \<inter> h_auths env" "distinct signers"
    using finite_distinct_list [of "set admins \<inter> h_auths env"] by auto
  then have "verify env signers n s = Inr ((), touch s)"
    using assms by (simp add: verify_ok admin_quorum_def distinct_card [symmetric])
  then show ?thesis ..
qed

lemma verify_iff_enough:
  assumes "st_admin s = Some admins"
  shows "(\<exists>signers r. verify env signers n s = Inr r) \<longleftrightarrow>
    unat n \<le> card (set admins \<inter> h_auths env)"
  using verify_count [OF _ assms] verify_possible [OF assms] by blast

end

section \<open>Counted stores\<close>

text \<open>
  A keyed store with a counter beside it. As long as the store is below the capacity of the counter, an
  invocation changes the entries and the counter alike; an invocation adds at most one entry.
\<close>

locale counted_store =
  fixes step :: "'l \<Rightarrow> 's \<Rightarrow> 's \<Rightarrow> bool"
    and entries :: "'s \<Rightarrow> 'k set"
    and counter :: "'s \<Rightarrow> nat"
    and capacity :: nat
  assumes step_counts: "step l s s' \<Longrightarrow> finite (entries s) \<Longrightarrow> counter s = card (entries s) \<Longrightarrow>
      card (entries s) < capacity \<Longrightarrow> finite (entries s') \<and> counter s' = card (entries s')"
    and step_grows: "step l s s' \<Longrightarrow> finite (entries s) \<Longrightarrow> card (entries s') \<le> Suc (card (entries s))"
begin

lemma run_counts:
  assumes "run step s ls s'" "finite (entries s)" "counter s = card (entries s)"
    "card (entries s) + length ls \<le> capacity"
  shows "finite (entries s') \<and> counter s' = card (entries s') \<and>
    card (entries s') \<le> card (entries s) + length ls"
  using assms
proof (induction rule: run.induct)
  case (run_snoc s ls s' l s'')
  then have "finite (entries s')" "counter s' = card (entries s')"
    "card (entries s') \<le> card (entries s) + length ls"
    by simp_all
  then show ?case
    using step_counts [OF run_snoc.hyps(2)] step_grows [OF run_snoc.hyps(2)] run_snoc.prems by simp
qed simp

end

section \<open>The well-formed shared state\<close>

text \<open>The admin lists the two contracts accept.\<close>

definition valid_admins :: "address list \<Rightarrow> u32 \<Rightarrow> bool" where
  "valid_admins admins threshold \<longleftrightarrow>
    threshold \<noteq> 0 \<and> unat threshold \<le> length admins \<and> distinct admins \<and> zero_address \<notin> set admins"

text \<open>
  Not initialised: no admin list, threshold, recovery address or pending recovery. Initialised: distinct
  admins, none of them the zero address, a threshold between 1 and their number, a recovery address, and
  any pending recovery of the current layout names a target.
\<close>

definition shared_wf :: "('k, 'x) contract_state_scheme \<Rightarrow> bool" where
  "shared_wf s \<longleftrightarrow>
    (case st_admin s of
       None \<Rightarrow> st_threshold s = None \<and> st_recovery_address s = None \<and> st_pending_recovery s = None
     | Some admins \<Rightarrow>
         distinct admins \<and> zero_address \<notin> set admins \<and>
         (\<exists>t. st_threshold s = Some t \<and> t \<noteq> 0 \<and> unat t \<le> length admins) \<and>
         (\<exists>a. st_recovery_address s = Some a \<and> a \<noteq> zero_address) \<and>
         (\<forall>entry. st_pending_recovery s = Some entry \<longrightarrow>
            (\<exists>p. entry = Decodes p \<and> pr_new_admin p \<noteq> zero_address)))"

end
