(* ===== verification/Settlement_Ops.thy ===== *)
theory Settlement_Ops
  imports Settlement_Storage Merchant_Rules Contract_Interfaces
begin

text \<open>
  The behaviour of the settlement contract's helpers: when each completes and what it leaves, the
  specification of the effective rule, and the checks on a rule. The lemmas of \<open>act_ok\<close> carry the
  proofs about the entry points, in the theories \<open>Merchant_Ops\<close>, \<open>Admin_Ops\<close>,
  \<open>Scheduler_Ops\<close> and \<open>Payment_Ops\<close>.
\<close>

section \<open>Lifetime extensions\<close>

abbreviation instance_bump :: "DataKey ttl_bump" where
  "instance_bump \<equiv> BumpInstance READ_INSTANCE_TTL_THRESHOLD READ_INSTANCE_TTL_BUMP"

abbreviation merchant_bump :: "address \<Rightarrow> DataKey ttl_bump" where
  "merchant_bump m \<equiv> BumpPersistent (Merchant m) MERCHANT_TTL_THRESHOLD MERCHANT_TTL_BUMP"

abbreviation rule_bump :: "address \<Rightarrow> DataKey ttl_bump" where
  "rule_bump m \<equiv> BumpPersistent (Rule m) RULE_TTL_THRESHOLD RULE_TTL_BUMP"

abbreviation payment_bump :: "address \<Rightarrow> bytes32 \<Rightarrow> DataKey ttl_bump" where
  "payment_bump m ref \<equiv> BumpPersistent (Payment m ref) PAYMENT_TTL_THRESHOLD PAYMENT_TTL_BUMP"

abbreviation touch :: "settlement_state \<Rightarrow> settlement_state" where
  "touch s \<equiv> s\<lparr>st_bumps := st_bumps s @ [instance_bump]\<rparr>"

lemma extend_read_ttl_run [act_simps]: "extend_read_ttl s = Inr ((), touch s)"
  by (simp add: extend_read_ttl_def act_simps)

section \<open>Admins and recovery entries\<close>

lemma read_admins_Inr [act_ok]:
  "read_admins s = Inr r \<longleftrightarrow> (\<exists>admins. st_admin s = Some admins \<and> r = (admins, touch s))"
  by (auto simp: read_admins_def act_simps)

lemma read_admins_Inl [act_ok]:
  "read_admins s = Inl e \<longleftrightarrow> st_admin s = None \<and> e = ContractError NotInitialized"
  by (auto simp: read_admins_def act_simps)

lemma read_threshold_Inr [act_ok]:
  "read_threshold s = Inr r \<longleftrightarrow> (\<exists>t. st_threshold s = Some t \<and> r = (t, touch s))"
  by (auto simp: read_threshold_def act_simps)

lemma read_threshold_Inl [act_ok]:
  "read_threshold s = Inl e \<longleftrightarrow> st_threshold s = None \<and> e = ContractError NotInitialized"
  by (auto simp: read_threshold_def act_simps)

lemma validate_nonzero_address_Inr [act_ok]:
  "validate_nonzero_address a err s = Inr r \<longleftrightarrow> a \<noteq> zero_address \<and> r = ((), s)"
  by (auto simp: validate_nonzero_address_def is_zero_address_def act_simps)

lemma validate_nonzero_address_Inl [act_ok]:
  "validate_nonzero_address a err s = Inl e \<longleftrightarrow> a = zero_address \<and> e = ContractError err"
  by (auto simp: validate_nonzero_address_def is_zero_address_def act_simps)

lemma validate_governance_Inr [act_ok]:
  "validate_governance g s = Inr r \<longleftrightarrow> g \<noteq> zero_address \<and> r = ((), s)"
  by (simp add: validate_governance_def act_ok)

lemma validate_each_admin_Inr:
  "validate_each_admin admins s = Inr r \<longleftrightarrow> distinct admins \<and> zero_address \<notin> set admins \<and> r = ((), s)"
  by (induction admins) (auto simp: act_simps act_ok)

lemma validate_admins_and_threshold_Inr [act_ok]:
  "validate_admins_and_threshold admins t s = Inr r \<longleftrightarrow> valid_admins admins t \<and> r = ((), s)"
  by (auto simp: validate_admins_and_threshold_def valid_admins_def validate_each_admin_Inr act_simps
      unat_eq_zero)

lemma write_admins_Inr [act_ok]:
  "write_admins admins t s = Inr r \<longleftrightarrow> valid_admins admins t \<and>
    r = ((), s\<lparr>st_admin := Some admins, st_threshold := Some t\<rparr>)"
  by (auto simp: write_admins_def act_simps act_ok)

lemma verify_each_signer_Inr:
  "verify_each_signer env admins signers s = Inr r \<longleftrightarrow>
    distinct signers \<and> set signers \<subseteq> set admins \<and> set signers \<subseteq> h_auths env \<and> r = ((), s)"
  by (induction signers) (auto simp: act_simps)

lemma verify_admin_auth_Inr [act_ok]:
  "verify_admin_auth env signers n s = Inr r \<longleftrightarrow> admin_quorum env s signers n \<and> r = ((), touch s)"
  by (auto simp: verify_admin_auth_def admin_quorum_def verify_each_signer_Inr act_simps act_ok
      split: option.splits)

interpretation settlement_auth: multisig verify_admin_auth "\<lambda>s. touch s"
  by unfold_locales (rule verify_admin_auth_Inr)

lemma read_governance_Inr [act_ok]:
  "read_governance s = Inr r \<longleftrightarrow> (\<exists>g. ss_governance s = Some g \<and> r = (g, touch s))"
  by (auto simp: read_governance_def act_simps)

lemma read_recovery_address_Inr [act_ok]:
  "read_recovery_address s = Inr r \<longleftrightarrow> (\<exists>a. st_recovery_address s = Some a \<and> r = (a, touch s))"
  by (auto simp: read_recovery_address_def act_simps)

lemma read_pending_recovery_Inr [act_ok]:
  "read_pending_recovery s = Inr r \<longleftrightarrow>
    (\<exists>p. st_pending_recovery s = Some (Decodes p) \<and> r = (p, touch s))"
  by (auto simp: read_pending_recovery_def act_eval extend_read_ttl_run
      split: option.splits stored.splits)

lemma assert_not_paused_Inr [act_ok]:
  "assert_not_paused s = Inr r \<longleftrightarrow> \<not> paused s \<and> r = ((), s)"
  by (auto simp: assert_not_paused_def act_simps)

lemma assert_not_paused_Inl [act_ok]:
  "assert_not_paused s = Inl e \<longleftrightarrow> paused s \<and> e = ContractError Paused"
  by (auto simp: assert_not_paused_def act_simps)

text \<open>The signers meet the stored threshold.\<close>

definition quorum :: "'h host_scheme \<Rightarrow> settlement_state \<Rightarrow> address list \<Rightarrow> bool" where
  "quorum env s signers \<longleftrightarrow> (\<exists>t. st_threshold s = Some t \<and> admin_quorum env s signers t)"

lemma admin_quorum_upd [simp]:
  "admin_quorum env (s\<lparr>st_bumps := b\<rparr>) signers n = admin_quorum env s signers n"
  by (simp add: admin_quorum_def)

lemma quorum_upd [simp]:
  "quorum env (s\<lparr>st_bumps := b\<rparr>) signers = quorum env s signers"
  by (simp add: quorum_def)

lemma assert_admin_and_not_paused_Inr [act_ok]:
  "assert_admin_and_not_paused env signers s = Inr r \<longleftrightarrow>
    \<not> paused s \<and> quorum env s signers \<and> r = ((), touch (touch s))"
  by (auto simp: assert_admin_and_not_paused_def quorum_def act_simps act_ok)

lemma quorum_nonempty:
  "quorum env s signers \<Longrightarrow> shared_wf s \<Longrightarrow> signers \<noteq> []"
  by (auto simp: quorum_def admin_quorum_def shared_wf_def unat_eq_zero split: option.splits)

section \<open>The effective rule\<close>

text \<open>
  The specification of the resolution: what the governance contract offers, what the chain default,
  governance, bootstrap yields, and what the chain yields for a merchant; with the cached governance
  rule the resolution leaves.
\<close>

definition rule_of_config :: "GovFeeConfig \<Rightarrow> SettlementRule" where
  "rule_of_config c =
    \<lparr>sr_platform_fee_bps = gfc_platform_fee_bps c, sr_network_fee_bps = gfc_network_fee_bps c,
     sr_settlement_delay_ledger = 0, sr_auto_settle = False\<rparr>"

definition governance_offer ::
  "'h settlement_host_scheme \<Rightarrow> settlement_state \<Rightarrow> SettlementError + SettlementRule option" where
  "governance_offer env s =
    (case ss_governance s of
       None \<Rightarrow> Inr None
     | Some g \<Rightarrow>
         if governance_bypass_enabled env g then Inr None
         else (case h_invoke env g ''get_fee_config'' [] of
             CallFailed \<Rightarrow> Inr (Option.bind (ss_cached_gov_rule s) id)
           | Replied v \<Rightarrow> (case classify_governance_fee_config v of
               Inl e \<Rightarrow> Inl e
             | Inr c \<Rightarrow> Inr (map_option rule_of_config c))))"

definition governance_cache ::
  "'h settlement_host_scheme \<Rightarrow> settlement_state \<Rightarrow> SettlementRule option option" where
  "governance_cache env s =
    (case governance_offer env s of
       Inr (Some r) \<Rightarrow> Some (Some r)
     | _ \<Rightarrow> ss_cached_gov_rule s)"

definition fallback_rule ::
  "'h settlement_host_scheme \<Rightarrow> settlement_state \<Rightarrow> SettlementError + EffectiveRule" where
  "fallback_rule env s =
    (case ss_default_rule s of
       Some r \<Rightarrow> Inr \<lparr>er_rule = r, er_provenance = FromDefault\<rparr>
     | None \<Rightarrow> (case governance_offer env s of
         Inl e \<Rightarrow> Inl e
       | Inr (Some r) \<Rightarrow> Inr \<lparr>er_rule = r, er_provenance = FromGovernance\<rparr>
       | Inr None \<Rightarrow> Inr \<lparr>er_rule = BOOTSTRAP_DEFAULT_RULE, er_provenance = FromBootstrap\<rparr>))"

definition fallback_cache ::
  "'h settlement_host_scheme \<Rightarrow> settlement_state \<Rightarrow> SettlementRule option option" where
  "fallback_cache env s =
    (if ss_default_rule s = None then governance_cache env s else ss_cached_gov_rule s)"

definition effective_rule ::
  "'h settlement_host_scheme \<Rightarrow> settlement_state \<Rightarrow> address \<Rightarrow> SettlementError + EffectiveRule" where
  "effective_rule env s merchant =
    (case ss_rule s merchant of
       Some r \<Rightarrow> Inr \<lparr>er_rule = r, er_provenance = FromMerchant\<rparr>
     | None \<Rightarrow> fallback_rule env s)"

definition effective_cache ::
  "'h settlement_host_scheme \<Rightarrow> settlement_state \<Rightarrow> address \<Rightarrow> SettlementRule option option" where
  "effective_cache env s merchant =
    (if ss_rule s merchant = None then fallback_cache env s else ss_cached_gov_rule s)"

text \<open>The resolution looks at the governance address, the two rules and the cached rule only.\<close>

lemma governance_offer_cong:
  assumes "ss_governance s' = ss_governance s" "ss_cached_gov_rule s' = ss_cached_gov_rule s"
  shows "governance_offer env s' = governance_offer env s" "governance_cache env s' = governance_cache env s"
  unfolding governance_cache_def governance_offer_def assms by (rule refl)+

lemma fallback_rule_cong:
  assumes "ss_governance s' = ss_governance s" "ss_cached_gov_rule s' = ss_cached_gov_rule s"
    "ss_default_rule s' = ss_default_rule s"
  shows "fallback_rule env s' = fallback_rule env s" "fallback_cache env s' = fallback_cache env s"
  unfolding fallback_rule_def fallback_cache_def governance_offer_cong [OF assms(1,2)] assms
  by (rule refl)+

lemma effective_rule_cong:
  assumes "ss_governance s' = ss_governance s" "ss_cached_gov_rule s' = ss_cached_gov_rule s"
    "ss_default_rule s' = ss_default_rule s" "ss_rule s' = ss_rule s"
  shows "effective_rule env s' m = effective_rule env s m" "effective_cache env s' m = effective_cache env s m"
  unfolding effective_rule_def effective_cache_def fallback_rule_cong [OF assms(1-3)] assms
  by (rule refl)+

lemma fallback_rule_upd [simp]:
  "fallback_rule env (s\<lparr>st_bumps := b\<rparr>) = fallback_rule env s"
  "fallback_rule env (s\<lparr>st_events := e\<rparr>) = fallback_rule env s"
  "fallback_rule env (s\<lparr>ss_merchant := ms\<rparr>) = fallback_rule env s"
  "fallback_rule env (s\<lparr>ss_archived := ar\<rparr>) = fallback_rule env s"
  "fallback_rule env (s\<lparr>ss_rule := rs\<rparr>) = fallback_rule env s"
  "fallback_rule env (s\<lparr>ss_payment := ps\<rparr>) = fallback_rule env s"
  "fallback_cache env (s\<lparr>st_bumps := b\<rparr>) = fallback_cache env s"
  "fallback_cache env (s\<lparr>st_events := e\<rparr>) = fallback_cache env s"
  "fallback_cache env (s\<lparr>ss_merchant := ms\<rparr>) = fallback_cache env s"
  "fallback_cache env (s\<lparr>ss_archived := ar\<rparr>) = fallback_cache env s"
  "fallback_cache env (s\<lparr>ss_rule := rs\<rparr>) = fallback_cache env s"
  "fallback_cache env (s\<lparr>ss_payment := ps\<rparr>) = fallback_cache env s"
  by (rule fallback_rule_cong; simp)+

lemma effective_rule_upd [simp]:
  "effective_rule env (s\<lparr>st_bumps := b\<rparr>) m = effective_rule env s m"
  "effective_rule env (s\<lparr>st_events := e\<rparr>) m = effective_rule env s m"
  "effective_rule env (s\<lparr>ss_merchant := ms\<rparr>) m = effective_rule env s m"
  "effective_rule env (s\<lparr>ss_payment := ps\<rparr>) m = effective_rule env s m"
  "effective_cache env (s\<lparr>st_bumps := b\<rparr>) m = effective_cache env s m"
  "effective_cache env (s\<lparr>st_events := e\<rparr>) m = effective_cache env s m"
  "effective_cache env (s\<lparr>ss_merchant := ms\<rparr>) m = effective_cache env s m"
  "effective_cache env (s\<lparr>ss_payment := ps\<rparr>) m = effective_cache env s m"
  by (rule effective_rule_cong; simp)+

text \<open>Without a rule of its own a merchant has the fallback rule.\<close>

lemma effective_rule_none:
  "ss_rule s m = None \<Longrightarrow> effective_rule env s m = fallback_rule env s"
  "ss_rule s m = None \<Longrightarrow> effective_cache env s m = fallback_cache env s"
  by (simp_all add: effective_rule_def effective_cache_def)

lemma cached_same:
  "Option.bind (ss_cached_gov_rule s) id = Some r \<Longrightarrow> s\<lparr>ss_cached_gov_rule := Some (Some r)\<rparr> = s"
  by (cases "ss_cached_gov_rule s") auto

lemma read_governance_fee_rule_run:
  "read_governance_fee_rule env s =
    (case governance_offer env s of
       Inl e \<Rightarrow> Inl (ContractError e)
     | Inr r \<Rightarrow> Inr (r, s\<lparr>ss_cached_gov_rule := governance_cache env s\<rparr>))"
  by (auto simp: read_governance_fee_rule_def governance_offer_def governance_cache_def
      try_read_governance_fee_config_def read_cached_governance_fee_rule_def rule_of_config_def
      MAX_SETTLEMENT_DELAY_LEDGER_def Let_def act_eval cached_same
      split: option.splits reply.splits sum.splits bind_splits)

lemma read_effective_fallback_rule_run:
  "read_effective_fallback_rule env s =
    (case fallback_rule env s of
       Inl e \<Rightarrow> Inl (ContractError e)
     | Inr r \<Rightarrow> Inr (r, s\<lparr>ss_cached_gov_rule := fallback_cache env s\<rparr>))"
  by (auto simp: read_effective_fallback_rule_def fallback_rule_def fallback_cache_def
      read_governance_fee_rule_run act_eval split: option.splits sum.splits)

lemma read_effective_rule_no_bump_run:
  "read_effective_rule_no_bump env merchant s =
    (case effective_rule env s merchant of
       Inl e \<Rightarrow> Inl (ContractError e)
     | Inr r \<Rightarrow> Inr (r, s\<lparr>ss_cached_gov_rule := effective_cache env s merchant\<rparr>))"
  by (auto simp: read_effective_rule_no_bump_def effective_rule_def effective_cache_def
      read_effective_fallback_rule_run act_eval split: option.splits sum.splits)

lemma read_fallback_rule_run:
  "read_fallback_rule env s =
    (case fallback_rule env s of
       Inl e \<Rightarrow> Inl (ContractError e)
     | Inr r \<Rightarrow> Inr (er_rule r, s\<lparr>ss_cached_gov_rule := fallback_cache env s\<rparr>))"
  by (auto simp: read_fallback_rule_def read_effective_fallback_rule_run act_eval split: sum.splits)

lemma read_rule_or_default_no_bump_run:
  "read_rule_or_default_no_bump env merchant s =
    (case effective_rule env s merchant of
       Inl e \<Rightarrow> Inl (ContractError e)
     | Inr r \<Rightarrow> Inr (er_rule r, s\<lparr>ss_cached_gov_rule := effective_cache env s merchant\<rparr>))"
  by (auto simp: read_rule_or_default_no_bump_def read_effective_rule_no_bump_run act_eval
      split: sum.splits)

text \<open>The resolution of a rule in the form the operations use it.\<close>

lemma read_rule_or_default_run:
  "read_rule_or_default env merchant s =
    (case effective_rule env s merchant of
       Inl e \<Rightarrow> Inl (ContractError e)
     | Inr r \<Rightarrow> Inr (er_rule r, s\<lparr>ss_cached_gov_rule := effective_cache env s merchant,
         st_bumps := st_bumps s @ (if ss_rule s merchant = None then [] else [rule_bump merchant])\<rparr>))"
  by (auto simp: read_rule_or_default_def read_rule_or_default_no_bump_run act_eval
      extend_persistent_ttl_run split: sum.splits)

lemma read_fallback_rule_Inr [act_ok]:
  "read_fallback_rule env s = Inr r \<longleftrightarrow>
    (\<exists>e. fallback_rule env s = Inr e \<and>
      r = (er_rule e, s\<lparr>ss_cached_gov_rule := fallback_cache env s\<rparr>))"
  by (auto simp: read_fallback_rule_run split: sum.splits)

lemma read_rule_or_default_Inr [act_ok]:
  "read_rule_or_default env m s = Inr r \<longleftrightarrow>
    (\<exists>e. effective_rule env s m = Inr e \<and>
      r = (er_rule e, s\<lparr>ss_cached_gov_rule := effective_cache env s m,
         st_bumps := st_bumps s @ (if ss_rule s m = None then [] else [rule_bump m])\<rparr>))"
  by (auto simp: read_rule_or_default_run split: sum.splits)

lemma read_rule_or_default_no_bump_Inr [act_ok]:
  "read_rule_or_default_no_bump env m s = Inr r \<longleftrightarrow>
    (\<exists>e. effective_rule env s m = Inr e \<and>
      r = (er_rule e, s\<lparr>ss_cached_gov_rule := effective_cache env s m\<rparr>))"
  by (auto simp: read_rule_or_default_no_bump_run split: sum.splits)

lemma read_effective_rule_no_bump_Inr [act_ok]:
  "read_effective_rule_no_bump env m s = Inr r \<longleftrightarrow>
    (\<exists>e. effective_rule env s m = Inr e \<and> r = (e, s\<lparr>ss_cached_gov_rule := effective_cache env s m\<rparr>))"
  by (auto simp: read_effective_rule_no_bump_run split: sum.splits)

lemma is_merchant_registered_and_bump_ttl_run [act_ok]:
  "is_merchant_registered_and_bump_ttl m s =
    Inr (m \<in> ss_merchant s,
      s\<lparr>st_bumps := st_bumps s @ (if m \<in> ss_merchant s then [merchant_bump m] else [])\<rparr>)"
  by (simp add: is_merchant_registered_and_bump_ttl_def act_eval extend_persistent_ttl_run)

lemma is_merchant_registered_internal_run [act_ok]:
  "is_merchant_registered_internal m s = Inr (m \<in> ss_merchant s, s)"
  by (simp add: is_merchant_registered_internal_def act_simps)

section \<open>The checks on a rule\<close>

definition valid_rule :: "SettlementRule \<Rightarrow> bool" where
  "valid_rule r \<longleftrightarrow>
    5 \<le> unat (sr_platform_fee_bps r) \<and> unat (sr_platform_fee_bps r) \<le> 5000 \<and>
    5 \<le> unat (sr_network_fee_bps r) \<and> unat (sr_network_fee_bps r) \<le> 5000 \<and>
    unat (sr_settlement_delay_ledger r) \<le> 100000"

lemma word_bounds:
  "BPS_DENOMINATOR < a \<longleftrightarrow> 10000 < unat a" "a < MIN_FEE_BPS \<longleftrightarrow> unat a < 5"
  "MAX_FEE_BPS < a \<longleftrightarrow> 5000 < unat a" "MAX_SETTLEMENT_DELAY_LEDGER < a \<longleftrightarrow> 100000 < unat a"
  by (simp_all add: BPS_DENOMINATOR_def MIN_FEE_BPS_def MAX_FEE_BPS_def MAX_SETTLEMENT_DELAY_LEDGER_def
      word_less_nat_alt)

text \<open>The sum of two fees within the per-fee bound neither overflows nor exceeds the denominator.\<close>

lemma fee_sum_ok:
  fixes a b :: u32
  assumes "unat a \<le> 5000" "unat b \<le> 5000"
  shows "unat a + unat b < 4294967296" "\<not> 10000 < unat (a + b)"
  using assms unat_add_u32 [of a b] by simp_all

lemma validate_rule_bounds_Inr [act_ok]:
  "validate_rule_bounds rule s = Inr r \<longleftrightarrow> valid_rule rule \<and> r = ((), s)"
  using fee_sum_ok [of "sr_platform_fee_bps rule" "sr_network_fee_bps rule"]
  by (auto simp: validate_rule_bounds_def valid_rule_def word_bounds checked_add_u32_def act_simps
      not_less split: option.splits if_splits)

text \<open>
  Governance answers, and when it has a fee configuration the rule stays below it.
\<close>

definition fee_allowed :: "'h settlement_host_scheme \<Rightarrow> settlement_state \<Rightarrow> SettlementRule \<Rightarrow> bool" where
  "fee_allowed env s rule \<longleftrightarrow>
    (\<exists>g v. ss_governance s = Some g \<and> h_invoke env g ''get_fee_config'' [] = Replied v \<and>
      (case classify_governance_fee_config v of
         Inl _ \<Rightarrow> False
       | Inr None \<Rightarrow> True
       | Inr (Some c) \<Rightarrow> sr_platform_fee_bps rule \<le> gfc_platform_fee_bps c \<and>
           sr_network_fee_bps rule \<le> gfc_network_fee_bps c))"

lemma fee_allowed_upd [simp]:
  "fee_allowed env (s\<lparr>st_bumps := b\<rparr>) rule = fee_allowed env s rule"
  by (simp add: fee_allowed_def)

lemma invoke_governance_get_fee_config_Inr [act_ok]:
  "invoke_governance_get_fee_config env g s = Inr r \<longleftrightarrow>
    (\<exists>v. h_invoke env g ''get_fee_config'' [] = Replied v \<and> r = (v, s))"
  by (auto simp: invoke_governance_get_fee_config_def act_eval split: reply.splits)

lemma validate_fee_against_governance_Inr [act_ok]:
  "validate_fee_against_governance env rule s = Inr r \<longleftrightarrow> fee_allowed env s rule \<and> r = ((), touch s)"
proof (cases "ss_governance s")
  case (Some g)
  then show ?thesis
    by (cases "h_invoke env g ''get_fee_config'' []")
      (auto simp: validate_fee_against_governance_def fee_allowed_def try_read_governance_fee_config_def
        invoke_governance_get_fee_config_def read_governance_def extend_read_ttl_run publish_run act_eval
        not_less split: sum.splits option.splits)
qed (auto simp: validate_fee_against_governance_def fee_allowed_def act_simps act_ok)

definition governance_answers :: "'h settlement_host_scheme \<Rightarrow> settlement_state \<Rightarrow> bool" where
  "governance_answers env s \<longleftrightarrow>
    (\<exists>g v. ss_governance s = Some g \<and> h_invoke env g ''get_fee_config'' [] = Replied v)"

lemma governance_answers_upd [simp]:
  "governance_answers env (s\<lparr>st_bumps := b\<rparr>) = governance_answers env s"
  by (simp add: governance_answers_def)

lemma assert_governance_reachable_Inr [act_ok]:
  "assert_governance_reachable env s = Inr r \<longleftrightarrow> governance_answers env s \<and> r = ((), touch s)"
  by (auto simp: assert_governance_reachable_def governance_answers_def act_simps act_ok)

end
