(* ===== verification/Admin.thy ===== *)
theory Admin
  imports Settlement_Storage
begin

text \<open>
  \<open>settlement_contract/src/admin.rs\<close>: initialisation, the admin set, recovery, pausing,
  migration and upgrade of the settlement contract. The queue of timelocked operations is in the
  theory \<open>Scheduler\<close>.
\<close>

section \<open>Migrations\<close>

definition migrate_step :: "u32 \<Rightarrow> unit settlement_action" where
  "migrate_step from_version = ret ()"

text \<open>
  The \<open>while version < CURRENT_SCHEMA_VERSION\<close> loop; \<open>version += 1\<close> cannot overflow under the
  loop condition.
\<close>

function run_migrations_from :: "u32 \<Rightarrow> unit settlement_action" where
  "run_migrations_from version =
    (if version < CURRENT_SCHEMA_VERSION
     then andthen (migrate_step version) (
          andthen (modify (\<lambda>s. s\<lparr>st_schema_version := Some (version + 1)\<rparr>)) (
          run_migrations_from (version + 1)))
     else ret ())"
  by auto

termination
proof (relation "measure (\<lambda>version. unat (CURRENT_SCHEMA_VERSION - version))")
  fix version :: u32
  assume "version < CURRENT_SCHEMA_VERSION"
  then have "version = 0"
    by (simp add: CURRENT_SCHEMA_VERSION_def word_less_nat_alt unat_eq_0)
  then show "(version + 1, version) \<in> measure (\<lambda>version. unat (CURRENT_SCHEMA_VERSION - version))"
    by (simp add: CURRENT_SCHEMA_VERSION_def)
qed simp

declare run_migrations_from.simps [simp del]

definition run_migrations :: "unit settlement_action" where
  "run_migrations = bind read_schema_version run_migrations_from"

section \<open>Versions and capabilities\<close>

definition supports_interface :: "u32 \<Rightarrow> bool settlement_action" where
  "supports_interface version = ret (version = SUPPORTED_INTERFACE_VERSION)"

definition build_version :: "u32 settlement_action" where
  "build_version = ret CURRENT_SCHEMA_VERSION"

definition get_capabilities :: "(string \<rightharpoonup> bool) settlement_action" where
  "get_capabilities = ret (foldl (\<lambda>flags name. flags(name \<mapsto> True)) Map.empty CAPABILITY_FLAGS)"

section \<open>Initialisation and getters\<close>

definition init ::
  "'h host_scheme \<Rightarrow> address \<Rightarrow> address list \<Rightarrow> u32 \<Rightarrow> address \<Rightarrow> address \<Rightarrow> unit settlement_action" where
  "init env deployer admins threshold governance recovery_address =
    bind (gets st_admin) (\<lambda>current.
    andthen (panic_if (current \<noteq> None) AlreadyInitialized) (
    andthen (require_auth env deployer) (
    bind (gets ss_initializing) (\<lambda>initializing.
    andthen (panic_if initializing AlreadyInitialized) (
    andthen (validate_admins_and_threshold admins threshold) (
    andthen (modify (\<lambda>s. s\<lparr>ss_initializing := True\<rparr>)) (
    andthen (validate_governance governance) (
    andthen (validate_nonzero_address recovery_address InvalidRecoveryAddress) (
    andthen (for_each admins (require_auth env)) (
    andthen (modify (\<lambda>s. s\<lparr>st_deployer := Some deployer\<rparr>)) (
    andthen (write_admins admins threshold) (
    andthen (modify (\<lambda>s. s\<lparr>ss_governance := Some governance\<rparr>)) (
    andthen (modify (\<lambda>s. s\<lparr>st_recovery_address := Some recovery_address\<rparr>)) (
    andthen (modify (\<lambda>s. s\<lparr>ss_initializing := False\<rparr>)) (
    modify (\<lambda>s. s\<lparr>st_schema_version := Some CURRENT_SCHEMA_VERSION\<rparr>))))))))))))))))"

definition is_initialized :: "bool settlement_action" where
  "is_initialized = gets (\<lambda>s. st_admin s \<noteq> None)"

definition get_admin :: "address list settlement_action" where
  "get_admin = read_admins"

definition get_threshold :: "u32 settlement_action" where
  "get_threshold = read_threshold"

definition get_governance :: "address settlement_action" where
  "get_governance = read_governance"

definition get_recovery_address :: "address settlement_action" where
  "get_recovery_address = read_recovery_address"

section \<open>Administration\<close>

definition update_governance :: "'h host_scheme \<Rightarrow> address list \<Rightarrow> address \<Rightarrow> unit settlement_action" where
  "update_governance env signers new_governance =
    andthen (assert_admin_and_not_paused env signers) (
    andthen (validate_governance new_governance) (
    bind (unwrap (get0 signers)) (\<lambda>admin.
    andthen (modify (\<lambda>s. s\<lparr>ss_governance := Some new_governance\<rparr>)) (
    publish [ScSymbol GOVERNANCE_UPDATED_EVENT] (ScVec [ScAddress admin, ScAddress new_governance])))))"

definition initiate_recovery :: "'h host_scheme \<Rightarrow> address \<Rightarrow> unit settlement_action" where
  "initiate_recovery env new_admin =
    bind read_recovery_address (\<lambda>recovery_address.
    andthen (require_auth env recovery_address) (
    andthen (validate_nonzero_address new_admin InvalidAdmin) (
    bind (gets st_pending_recovery) (\<lambda>entry.
    andthen (panic_if (entry \<noteq> None) RecoveryAlreadyPending) (
    bind (unwrap (checked_add_u64 (h_timestamp env) RECOVERY_DELAY_SECONDS)) (\<lambda>execute_after.
    andthen (modify (\<lambda>s. s\<lparr>st_pending_recovery :=
      Some (Decodes \<lparr>pr_new_admin = new_admin, pr_execute_after = execute_after,
                     pr_initiated_by = recovery_address\<rparr>)\<rparr>)) (
    emit_recovery_initiated recovery_address new_admin execute_after)))))))"

definition cancel_recovery :: "'h host_scheme \<Rightarrow> address list \<Rightarrow> unit settlement_action" where
  "cancel_recovery env signers =
    bind read_pending_recovery (\<lambda>pending.
    andthen
      (if length signers = 1 \<and> get0 signers = Some (pr_initiated_by pending)
       then require_auth env (pr_initiated_by pending)
       else bind read_threshold (verify_admin_auth env signers)) (
    bind (unwrap (get0 signers)) (\<lambda>canceller.
    andthen (modify (\<lambda>s. s\<lparr>st_pending_recovery := None\<rparr>)) (
    emit_recovery_cancelled canceller))))"

definition update_recovery_address ::
  "'h host_scheme \<Rightarrow> address list \<Rightarrow> address \<Rightarrow> unit settlement_action" where
  "update_recovery_address env signers new_recovery =
    bind read_threshold (\<lambda>threshold.
    andthen (verify_admin_auth env signers threshold) (
    bind (unwrap (get0 signers)) (\<lambda>admin.
    andthen (validate_nonzero_address new_recovery InvalidRecoveryAddress) (
    andthen (modify (\<lambda>s. s\<lparr>st_recovery_address := Some new_recovery\<rparr>)) (
    publish [ScSymbol RECOVERY_ADDRESS_UPDATED_EVENT, ScAddress new_recovery] (ScAddress admin))))))"

definition execute_recovery :: "'h host_scheme \<Rightarrow> unit settlement_action" where
  "execute_recovery env =
    bind read_pending_recovery (\<lambda>pending.
    andthen (panic_if (h_timestamp env < pr_execute_after pending) RecoveryDelayActive) (
    bind read_optional_admins (\<lambda>old_admins.
    andthen (write_admins [pr_new_admin pending] 1) (
    andthen (modify (\<lambda>s. s\<lparr>st_pending_recovery := None\<rparr>)) (
    emit_recovery_executed
      \<lparr>at_old_admins = old_admins, at_new_admins = [pr_new_admin pending]\<rparr>)))))"

text \<open>The loop that rejects a new admin who is a registered merchant.\<close>

definition reject_merchants :: "address list \<Rightarrow> unit settlement_action" where
  "reject_merchants new_admins =
    for_each new_admins (\<lambda>a.
      bind (is_merchant_registered_internal a) (\<lambda>registered.
      panic_if registered InvalidAdmin))"

definition transfer_admin ::
  "'h host_scheme \<Rightarrow> address list \<Rightarrow> address list \<Rightarrow> u32 \<Rightarrow> unit settlement_action" where
  "transfer_admin env signers new_admins new_threshold =
    bind read_threshold (\<lambda>threshold.
    andthen (verify_admin_auth env signers threshold) (
    andthen (validate_admins_and_threshold new_admins new_threshold) (
    bind read_admins (\<lambda>old_admins.
    bind read_threshold (\<lambda>old_threshold.
    andthen (panic_if (old_admins = new_admins \<and> old_threshold = new_threshold) SameAdmin) (
    andthen (reject_merchants new_admins) (
    andthen (write_admins new_admins new_threshold) (
    emit_admin_transferred \<lparr>at_old_admins = old_admins, at_new_admins = new_admins\<rparr>))))))))"

definition change_threshold :: "'h host_scheme \<Rightarrow> address list \<Rightarrow> u32 \<Rightarrow> unit settlement_action" where
  "change_threshold env signers new_threshold =
    bind read_admins (\<lambda>admins.
    andthen (panic_if (new_threshold = 0 \<or> length admins < unat new_threshold) InvalidThreshold) (
    bind read_threshold (\<lambda>current_threshold.
    andthen (panic_if (new_threshold = current_threshold) SameAdmin) (
    bind (unwrap (checked_add_u32 current_threshold 1)) (\<lambda>required_count.
    andthen (verify_admin_auth env signers required_count) (
    andthen (modify (\<lambda>s. s\<lparr>st_threshold := Some new_threshold\<rparr>)) (
    bind (unwrap (get0 signers)) (\<lambda>caller.
    publish [ScSymbol THRESHOLD_CHANGED_EVENT]
      (ScVec [ScAddress caller, ScU32 current_threshold, ScU32 new_threshold])))))))))"

definition upgrade :: "'h host_scheme \<Rightarrow> address list \<Rightarrow> bytes32 \<Rightarrow> unit settlement_action" where
  "upgrade env signers new_wasm_hash =
    bind read_threshold (\<lambda>threshold.
    andthen (verify_admin_auth env signers threshold) (
    bind (unwrap (get0 signers)) (\<lambda>admin.
    bind (probe_supports_interface env new_wasm_hash 1) (\<lambda>supports.
    andthen (panic_if (\<not> supports) InvalidWasmInterface) (
    andthen (publish [ScSymbol CONTRACT_UPGRADED_EVENT, ScBytes32 new_wasm_hash] (ScAddress admin)) (
    update_current_contract_wasm new_wasm_hash))))))"

definition pause :: "'h host_scheme \<Rightarrow> address list \<Rightarrow> u32 \<Rightarrow> unit settlement_action" where
  "pause env signers reason =
    bind read_threshold (\<lambda>threshold.
    andthen (verify_admin_auth env signers threshold) (
    bind is_paused (\<lambda>p.
    andthen (panic_if p AlreadyPaused) (
    andthen (panic_if (MAX_PAUSE_REASON < reason) InvalidPauseReason) (
    bind (unwrap (get0 signers)) (\<lambda>admin.
    apply_pause admin reason))))))"

definition unpause :: "'h host_scheme \<Rightarrow> address list \<Rightarrow> unit settlement_action" where
  "unpause env signers =
    bind read_threshold (\<lambda>threshold.
    andthen (verify_admin_auth env signers threshold) (
    bind is_paused (\<lambda>p.
    andthen (panic_if (\<not> p) AlreadyUnpaused) (
    bind (unwrap (get0 signers)) (\<lambda>admin.
    apply_unpause admin)))))"

definition settlement_is_paused :: "bool settlement_action" where
  "settlement_is_paused = is_paused"

definition get_pending_operation_count :: "u32 settlement_action" where
  "get_pending_operation_count = read_pending_operation_count"

definition migrate :: "'h host_scheme \<Rightarrow> address list \<Rightarrow> unit settlement_action" where
  "migrate env signers =
    bind read_threshold (\<lambda>threshold.
    andthen (verify_admin_auth env signers threshold) (
    andthen assert_not_paused (
    bind (unwrap (get0 signers)) (\<lambda>admin.
    andthen run_migrations (
    publish [ScSymbol MIGRATED_EVENT] (ScVec [ScAddress admin, ScU32 CURRENT_SCHEMA_VERSION]))))))"

end
