(* ===== verification/Scheduler.thy ===== *)
theory Scheduler
  imports Admin Merchant_Rules
begin

text \<open>
  The queue of timelocked operations of \<open>settlement_contract/src/admin.rs\<close>: \<open>schedule\<close>,
  \<open>execute\<close>, \<open>dry_run\<close>, \<open>cancel\<close> and \<open>cancel_all\<close>, and the arms that concern the
  admin set, governance and the executable. The XDR encoding and the hash are the host's.
\<close>

section \<open>The arms\<close>

definition update_governance_scheduled :: "address \<Rightarrow> address \<Rightarrow> unit settlement_action" where
  "update_governance_scheduled executor new_governance =
    andthen assert_not_paused (
    andthen (validate_governance new_governance) (
    andthen (modify (\<lambda>s. s\<lparr>ss_governance := Some new_governance\<rparr>)) (
    publish [ScSymbol GOVERNANCE_UPDATED_EVENT]
      (ScVec [ScAddress executor, ScAddress new_governance]))))"

definition cancel_recovery_scheduled :: "address \<Rightarrow> unit settlement_action" where
  "cancel_recovery_scheduled executor =
    bind (gets st_pending_recovery) (\<lambda>entry.
    andthen (panic_if (entry = None) RecoveryNotPending) (
    andthen (modify (\<lambda>s. s\<lparr>st_pending_recovery := None\<rparr>)) (
    emit_recovery_cancelled executor)))"

definition transfer_admin_scheduled :: "address list \<Rightarrow> u32 \<Rightarrow> unit settlement_action" where
  "transfer_admin_scheduled new_admins new_threshold =
    bind read_admins (\<lambda>old_admins.
    andthen (validate_admins_and_threshold new_admins new_threshold) (
    andthen (reject_merchants new_admins) (
    andthen (write_admins new_admins new_threshold) (
    emit_admin_transferred \<lparr>at_old_admins = old_admins, at_new_admins = new_admins\<rparr>))))"

definition upgrade_scheduled :: "'h host_scheme \<Rightarrow> address \<Rightarrow> bytes32 \<Rightarrow> unit settlement_action" where
  "upgrade_scheduled env executor new_wasm_hash =
    andthen (panic_if (new_wasm_hash = 0) InvalidWasmInterface) (
    andthen assert_not_paused (
    bind (probe_supports_interface env new_wasm_hash SUPPORTED_INTERFACE_VERSION) (\<lambda>supports.
    andthen (panic_if (\<not> supports) InvalidWasmInterface) (
    andthen (publish [ScSymbol CONTRACT_UPGRADED_EVENT, ScBytes32 new_wasm_hash]
      (ScAddress executor)) (
    update_current_contract_wasm new_wasm_hash)))))"

text \<open>The \<open>match operation\<close> of \<open>execute\<close>.\<close>

primrec dispatch_operation ::
  "'h settlement_host_scheme \<Rightarrow> address \<Rightarrow> Operation \<Rightarrow> unit settlement_action" where
  "dispatch_operation env executor (UpdateGovernance new_gov) =
    update_governance_scheduled executor new_gov"
| "dispatch_operation env executor CancelRecovery = cancel_recovery_scheduled executor"
| "dispatch_operation env executor (TransferAdmin new_admins new_threshold) =
    transfer_admin_scheduled new_admins new_threshold"
| "dispatch_operation env executor (Upgrade wasm_hash) = upgrade_scheduled env executor wasm_hash"
| "dispatch_operation env executor (RegisterMerchant merchant) =
    register_merchant_scheduled executor merchant"
| "dispatch_operation env executor (UnregisterMerchant merchant) =
    unregister_merchant_scheduled env executor merchant"
| "dispatch_operation env executor (SetSettlementRule merchant rule) =
    set_settlement_rule_scheduled env executor merchant rule"
| "dispatch_operation env executor (ClearSettlementRule merchant) =
    clear_settlement_rule_scheduled env executor merchant"
| "dispatch_operation env executor (SetDefaultRule rule) =
    set_default_rule_scheduled env executor rule"

section \<open>The queue\<close>

definition op_hash :: "'h settlement_host_scheme \<Rightarrow> Operation \<Rightarrow> bytes32" where
  "op_hash env operation = h_sha256 env (h_to_xdr env operation)"

text \<open>The checks of \<open>schedule\<close> on the operation itself.\<close>

definition validate_operation_bounds :: "Operation \<Rightarrow> unit settlement_action" where
  "validate_operation_bounds operation =
    andthen
      (case operation of
         TransferAdmin new_admins t \<Rightarrow>
           panic_if (t = 0 \<or> length new_admins < unat t) InvalidThreshold
       | _ \<Rightarrow> ret ())
      (case operation of
         SetSettlementRule _ r \<Rightarrow>
           panic_if (MAX_SETTLEMENT_DELAY_LEDGER < sr_settlement_delay_ledger r) InvalidSettlementDelay
       | _ \<Rightarrow> ret ())"

definition schedule ::
  "'h settlement_host_scheme \<Rightarrow> address list \<Rightarrow> Operation \<Rightarrow> u64 \<Rightarrow> unit settlement_action" where
  "schedule env signers operation execute_in =
    andthen (assert_admin_and_not_paused env signers) (
    bind (unwrap (get0 signers)) (\<lambda>caller.
    andthen (panic_if (execute_in = 0) ExecutionNotReady) (
    andthen (panic_if (execute_in < MIN_TIMELOCK_DELAY_SECONDS) ExecutionNotReady) (
    andthen (panic_if (MAX_TIMELOCK_DELAY_SECONDS < execute_in) ExecutionDelayTooLong) (
    andthen (validate_operation_bounds operation) (
    andthen (panic_if
      (unat MAX_SCHEDULED_OPERATION_PAYLOAD_LEN < length (h_to_xdr env operation)) PayloadTooLarge) (
    andthen (assert_governance_reachable env) (
    bind (gets (\<lambda>s. ss_scheduled s (op_hash env operation))) (\<lambda>existing.
    andthen
      (case existing of
         Some e \<Rightarrow>
           if so_operation_xdr e = h_to_xdr env operation
           then panic OperationAlreadyScheduled
           else panic OperationHashCollision
       | None \<Rightarrow> ret ()) (
    bind (expect_some (checked_add_u64 (h_timestamp env) execute_in) ExecutionDelayTooLong) (\<lambda>execute_at.
    andthen (modify (\<lambda>s. s\<lparr>ss_scheduled := (ss_scheduled s)(op_hash env operation \<mapsto>
      \<lparr>so_operation_xdr = h_to_xdr env operation, so_execute_at = execute_at\<rparr>)\<rparr>)) (
    andthen (extend_persistent_ttl (ScheduledOperation (op_hash env operation))
      SCHEDULED_OP_TTL_THRESHOLD SCHEDULED_OP_TTL_BUMP) (
    andthen increment_pending_operation_count (
    publish [ScSymbol OP_SCHEDULED_EVENT, ScBytes32 (op_hash env operation)]
      (ScVec [ScAddress caller, ScU64 execute_at])))))))))))))))"

definition validate_scheduled_execution ::
  "'h settlement_host_scheme \<Rightarrow> Operation \<Rightarrow> bytes32 settlement_action" where
  "validate_scheduled_execution env operation =
    andthen assert_not_paused (
    bind (gets (\<lambda>s. ss_scheduled s (op_hash env operation))) (\<lambda>entry.
    bind (expect_some entry OperationNotScheduled) (\<lambda>scheduled.
    andthen (panic_if (so_operation_xdr scheduled \<noteq> h_to_xdr env operation) OperationNotScheduled) (
    andthen (panic_if (h_timestamp env < so_execute_at scheduled) ExecutionNotReady) (
    bind (gets st_pending_recovery) (\<lambda>pending.
    andthen (panic_if (pending \<noteq> None \<and> operation \<noteq> CancelRecovery) RecoveryDelayActive) (
    ret (op_hash env operation))))))))"

definition consume_scheduled_operation :: "bytes32 \<Rightarrow> unit settlement_action" where
  "consume_scheduled_operation key =
    andthen (modify (\<lambda>s. s\<lparr>ss_scheduled := (ss_scheduled s)(key := None)\<rparr>)) (
    decrement_pending_operation_count 1)"

definition execute ::
  "'h settlement_host_scheme \<Rightarrow> address \<Rightarrow> Operation \<Rightarrow> unit settlement_action" where
  "execute env executor operation =
    bind (validate_scheduled_execution env operation) (\<lambda>key.
    andthen (consume_scheduled_operation key) (
    andthen (dispatch_operation env executor operation) (
    publish [ScSymbol OP_EXECUTED_EVENT, ScBytes32 key] ScVoid)))"

definition dry_run :: "'h settlement_host_scheme \<Rightarrow> Operation \<Rightarrow> unit settlement_action" where
  "dry_run env operation = bind (validate_scheduled_execution env operation) (\<lambda>_. ret ())"

definition cancel ::
  "'h settlement_host_scheme \<Rightarrow> address list \<Rightarrow> Operation \<Rightarrow> unit settlement_action" where
  "cancel env signers operation =
    bind read_threshold (\<lambda>threshold.
    andthen (verify_admin_auth env signers threshold) (
    andthen assert_not_paused (
    bind (unwrap (get0 signers)) (\<lambda>caller.
    bind (gets (\<lambda>s. ss_scheduled s (op_hash env operation))) (\<lambda>entry.
    bind (expect_some entry OperationNotScheduled) (\<lambda>scheduled.
    andthen (panic_if (so_operation_xdr scheduled \<noteq> h_to_xdr env operation) OperationNotScheduled) (
    andthen (consume_scheduled_operation (op_hash env operation)) (
    publish [ScSymbol OP_CANCELLED_EVENT, ScBytes32 (op_hash env operation)] (ScAddress caller)))))))))"

text \<open>The loop of \<open>cancel_all\<close>, with the count of the cancelled operations.\<close>

primrec cancel_each ::
  "'h settlement_host_scheme \<Rightarrow> Operation list \<Rightarrow> u32 \<Rightarrow> u32 settlement_action" where
  "cancel_each env [] cancelled = ret cancelled"
| "cancel_each env (operation # operations) cancelled =
    bind (gets (\<lambda>s. ss_scheduled s (op_hash env operation))) (\<lambda>entry.
    if (case entry of Some e \<Rightarrow> so_operation_xdr e = h_to_xdr env operation | None \<Rightarrow> False)
    then andthen (consume_scheduled_operation (op_hash env operation)) (
         bind (unwrap (checked_add_u32 cancelled 1)) (\<lambda>n.
         cancel_each env operations n))
    else cancel_each env operations cancelled)"

definition cancel_all ::
  "'h settlement_host_scheme \<Rightarrow> address list \<Rightarrow> Operation list \<Rightarrow> u32 settlement_action" where
  "cancel_all env signers operations =
    bind read_threshold (\<lambda>threshold.
    andthen (verify_admin_auth env signers threshold) (
    andthen assert_not_paused (
    bind (unwrap (get0 signers)) (\<lambda>caller.
    andthen (panic_if (unat MAX_CANCEL_ALL_BATCH < length operations) BatchTooLarge) (
    bind (cancel_each env operations 0) (\<lambda>cancelled.
    andthen (publish [ScSymbol OP_CANCELLED_EVENT] (ScVec [ScAddress caller, ScU32 cancelled])) (
    ret cancelled)))))))"

end
