(* ===== verification/Admin_Ops.thy ===== *)
theory Admin_Ops
  imports Settlement_Ops Scheduler
begin

text \<open>
  When the administrative entry points of the settlement contract and the arms of the queue that concern
  the admin set, governance, recovery and the executable complete, and what they leave.
\<close>

section \<open>Administration\<close>

lemma init_Inr [act_ok]:
  "init env deployer admins t g ra s = Inr r \<longleftrightarrow>
    st_admin s = None \<and> deployer \<in> h_auths env \<and> \<not> ss_initializing s \<and> valid_admins admins t \<and>
    g \<noteq> zero_address \<and> ra \<noteq> zero_address \<and> set admins \<subseteq> h_auths env \<and>
    r = ((), s\<lparr>st_admin := Some admins, st_threshold := Some t, st_recovery_address := Some ra,
      st_deployer := Some deployer, st_schema_version := Some CURRENT_SCHEMA_VERSION,
      ss_initializing := False, ss_governance := Some g\<rparr>)"
  by (auto simp: init_def act_simps act_ok for_each_check [where P = "\<lambda>a. a \<in> h_auths env"])

lemma update_governance_Inr [act_ok]:
  "update_governance env signers g s = Inr r \<longleftrightarrow>
    \<not> paused s \<and> quorum env s signers \<and> signers \<noteq> [] \<and> g \<noteq> zero_address \<and>
    r = ((), s\<lparr>ss_governance := Some g,
      st_bumps := st_bumps s @ [instance_bump, instance_bump],
      st_events := st_events s @ [([ScSymbol GOVERNANCE_UPDATED_EVENT],
        ScVec [ScAddress (hd signers), ScAddress g])]\<rparr>)"
  by (auto simp: update_governance_def act_simps act_ok get0_hd)

lemma initiate_recovery_Inr [act_ok]:
  "initiate_recovery env new_admin s = Inr r \<longleftrightarrow>
    (\<exists>ra. st_recovery_address s = Some ra \<and> ra \<in> h_auths env \<and> new_admin \<noteq> zero_address \<and>
      st_pending_recovery s = None \<and>
      unat (h_timestamp env) + unat RECOVERY_DELAY_SECONDS < 2 ^ 64 \<and>
      r = ((), s\<lparr>st_pending_recovery := Some (Decodes
            \<lparr>pr_new_admin = new_admin, pr_execute_after = h_timestamp env + RECOVERY_DELAY_SECONDS,
             pr_initiated_by = ra\<rparr>),
          st_bumps := st_bumps s @ [instance_bump],
          st_events := st_events s @ [([ScSymbol RECOVERY_INITIATED_EVENT],
            ScVec [ScAddress ra, ScAddress new_admin, ScU64 (h_timestamp env + RECOVERY_DELAY_SECONDS)])]\<rparr>))"
  by (auto simp: initiate_recovery_def emit_defs act_simps act_ok)

lemma cancel_recovery_Inr [act_ok]:
  "cancel_recovery env signers s = Inr r \<longleftrightarrow>
    (\<exists>p. st_pending_recovery s = Some (Decodes p) \<and> signers \<noteq> [] \<and>
      (signers = [pr_initiated_by p] \<and> pr_initiated_by p \<in> h_auths env \<or>
       signers \<noteq> [pr_initiated_by p] \<and> quorum env s signers) \<and>
      r = ((), s\<lparr>st_pending_recovery := None,
        st_bumps := st_bumps s @ (if signers = [pr_initiated_by p] then [instance_bump]
          else [instance_bump, instance_bump, instance_bump]),
        st_events := st_events s @ [([ScSymbol RECOVERY_CANCELLED_EVENT], ScAddress (hd signers))]\<rparr>))"
proof (cases "\<exists>p. st_pending_recovery s = Some (Decodes p)")
  case True
  then obtain p where p: "st_pending_recovery s = Some (Decodes p)"
    by blast
  show ?thesis
  proof (cases "signers = [pr_initiated_by p]")
    case True
    then show ?thesis
      using p by (auto simp: cancel_recovery_def emit_defs act_simps act_ok get0_def)
  next
    case False
    then have c: "\<not> (length signers = 1 \<and> get0 signers = Some (pr_initiated_by p))"
      by (cases signers) auto
    have "read_pending_recovery s = Inr (p, touch s)"
      using p by (simp add: act_ok)
    then show ?thesis
      unfolding cancel_recovery_def bind_step [of read_pending_recovery s p "touch s", OF \<open>read_pending_recovery s = Inr (p, touch s)\<close>]
        if_not_P [OF c]
      using p False by (auto simp: quorum_def emit_defs act_simps act_ok get0_hd)
  qed
next
  case False
  then show ?thesis
    by (auto simp: cancel_recovery_def act_simps act_ok)
qed

lemma update_recovery_address_Inr [act_ok]:
  "update_recovery_address env signers a s = Inr r \<longleftrightarrow>
    quorum env s signers \<and> signers \<noteq> [] \<and> a \<noteq> zero_address \<and>
    r = ((), s\<lparr>st_recovery_address := Some a,
      st_bumps := st_bumps s @ [instance_bump, instance_bump],
      st_events := st_events s @ [([ScSymbol RECOVERY_ADDRESS_UPDATED_EVENT, ScAddress a],
        ScAddress (hd signers))]\<rparr>)"
  by (auto simp: update_recovery_address_def quorum_def act_simps act_ok get0_hd)

lemma single_admin_valid: "valid_admins [a] 1 \<longleftrightarrow> a \<noteq> zero_address"
  by (auto simp: valid_admins_def)

lemma execute_recovery_Inr [act_ok]:
  "execute_recovery env s = Inr r \<longleftrightarrow>
    (\<exists>p. st_pending_recovery s = Some (Decodes p) \<and> pr_execute_after p \<le> h_timestamp env \<and>
      pr_new_admin p \<noteq> zero_address \<and>
      r = ((), s\<lparr>st_admin := Some [pr_new_admin p], st_threshold := Some 1,
        st_pending_recovery := None, st_bumps := st_bumps s @ [instance_bump],
        st_events := st_events s @ [([ScSymbol RECOVERY_EXECUTED_EVENT], sc_admin_transferred
          \<lparr>at_old_admins = (case st_admin s of Some admins \<Rightarrow> admins | None \<Rightarrow> []),
           at_new_admins = [pr_new_admin p]\<rparr>)]\<rparr>))"
  by (auto simp: execute_recovery_def read_optional_admins_def emit_defs act_simps act_ok not_less
      single_admin_valid)

lemma reject_merchants_Inr [act_ok]:
  "reject_merchants as s = Inr r \<longleftrightarrow> set as \<inter> ss_merchant s = {} \<and> r = ((), s)"
proof -
  have "for_each as (\<lambda>a. bind (is_merchant_registered_internal a) (\<lambda>registered.
      panic_if registered InvalidAdmin)) s = Inr r \<longleftrightarrow> (\<forall>a\<in>set as. a \<notin> ss_merchant s) \<and> r = ((), s)"
    by (rule for_each_check) (auto simp: act_simps act_ok)
  then show ?thesis
    by (auto simp: reject_merchants_def)
qed

lemma transfer_admin_Inr [act_ok]:
  "transfer_admin env signers as t s = Inr r \<longleftrightarrow>
    quorum env s signers \<and> valid_admins as t \<and> \<not> (st_admin s = Some as \<and> st_threshold s = Some t) \<and>
    set as \<inter> ss_merchant s = {} \<and>
    r = ((), s\<lparr>st_admin := Some as, st_threshold := Some t,
      st_bumps := st_bumps s @ [instance_bump, instance_bump, instance_bump, instance_bump],
      st_events := st_events s @ [([ScSymbol ADMIN_TRANSFERRED_EVENT], sc_admin_transferred
        \<lparr>at_old_admins = the (st_admin s), at_new_admins = as\<rparr>)]\<rparr>)"
  by (auto simp: transfer_admin_def quorum_def admin_quorum_def emit_defs act_simps act_ok
      split: option.splits)

lemma change_threshold_Inr [act_ok]:
  "change_threshold env signers new_t s = Inr r \<longleftrightarrow>
    (\<exists>t. st_threshold s = Some t \<and> new_t \<noteq> 0 \<and> unat new_t \<le> length (the (st_admin s)) \<and>
      new_t \<noteq> t \<and> unat t + 1 < 2 ^ 32 \<and> admin_quorum env s signers (t + 1) \<and> signers \<noteq> [] \<and>
      r = ((), s\<lparr>st_threshold := Some new_t,
        st_bumps := st_bumps s @ [instance_bump, instance_bump, instance_bump],
        st_events := st_events s @ [([ScSymbol THRESHOLD_CHANGED_EVENT],
          ScVec [ScAddress (hd signers), ScU32 t, ScU32 new_t])]\<rparr>))"
  by (auto simp: change_threshold_def admin_quorum_def act_simps act_ok not_less get0_hd
      split: option.splits)

lemma upgrade_Inr [act_ok]:
  "upgrade env signers hash s = Inr r \<longleftrightarrow>
    quorum env s signers \<and> signers \<noteq> [] \<and> h_probe_deploys env hash \<and> wasm_supports env hash 1 \<and>
    r = ((), s\<lparr>st_wasm := hash, st_bumps := st_bumps s @ [instance_bump, instance_bump],
      st_events := st_events s @ [([ScSymbol CONTRACT_UPGRADED_EVENT, ScBytes32 hash],
        ScAddress (hd signers))]\<rparr>)"
  by (auto simp: upgrade_def quorum_def act_simps act_ok get0_hd)

lemma pause_Inr [act_ok]:
  "pause env signers reason s = Inr r \<longleftrightarrow>
    quorum env s signers \<and> signers \<noteq> [] \<and> \<not> paused s \<and> reason \<le> MAX_PAUSE_REASON \<and>
    r = ((), s\<lparr>st_paused := Some True, st_bumps := st_bumps s @ [instance_bump, instance_bump],
      st_events := st_events s @ [([ScSymbol PAUSED_EVENT],
        ScVec [ScAddress (hd signers), ScBool True, ScU32 reason])]\<rparr>)"
  by (auto simp: pause_def quorum_def act_simps act_ok get0_hd not_less)

lemma unpause_Inr [act_ok]:
  "unpause env signers s = Inr r \<longleftrightarrow>
    quorum env s signers \<and> signers \<noteq> [] \<and> paused s \<and>
    r = ((), s\<lparr>st_paused := Some False, st_bumps := st_bumps s @ [instance_bump, instance_bump],
      st_events := st_events s @ [([ScSymbol UNPAUSED_EVENT],
        ScVec [ScAddress (hd signers), ScBool False])]\<rparr>)"
  by (auto simp: unpause_def quorum_def act_simps act_ok get0_hd)

text \<open>The migration loop ends with the marker at the current version, or leaves a newer one alone.\<close>

lemma run_migrations_from_run:
  "run_migrations_from version s =
    Inr ((), if version < CURRENT_SCHEMA_VERSION
             then s\<lparr>st_schema_version := Some CURRENT_SCHEMA_VERSION\<rparr> else s)"
proof (induction version arbitrary: s rule: run_migrations_from.induct)
  case (1 version)
  show ?case
  proof (cases "version < CURRENT_SCHEMA_VERSION")
    case True
    then have "\<not> version + 1 < CURRENT_SCHEMA_VERSION \<longrightarrow> version + 1 = CURRENT_SCHEMA_VERSION"
      by (metis inc_le order_antisym_conv linorder_not_less)
    then show ?thesis
      using True 1 [OF True]
      by (subst run_migrations_from.simps) (auto simp: migrate_step_def andthen_run act_simps)
  next
    case False
    then show ?thesis
      by (subst run_migrations_from.simps) (simp add: act_simps)
  qed
qed

definition migrated_version :: "settlement_state \<Rightarrow> u32 option" where
  "migrated_version s =
    (if \<exists>v. st_schema_version s = Some v \<and> v < CURRENT_SCHEMA_VERSION
     then Some CURRENT_SCHEMA_VERSION else st_schema_version s)"

lemma run_migrations_run [act_ok]:
  "run_migrations s = Inr ((), s\<lparr>st_schema_version := migrated_version s\<rparr>)"
  by (auto simp: run_migrations_def read_schema_version_def migrated_version_def bind_run gets_run
      run_migrations_from_run split: option.splits)

lemma migrate_Inr [act_ok]:
  "migrate env signers s = Inr r \<longleftrightarrow>
    quorum env s signers \<and> signers \<noteq> [] \<and> \<not> paused s \<and>
    r = ((), s\<lparr>st_schema_version := migrated_version s,
      st_bumps := st_bumps s @ [instance_bump, instance_bump],
      st_events := st_events s @ [([ScSymbol MIGRATED_EVENT],
        ScVec [ScAddress (hd signers), ScU32 CURRENT_SCHEMA_VERSION])]\<rparr>)"
  by (auto simp: migrate_def quorum_def migrated_version_def act_simps act_ok get0_hd)

section \<open>The timelocked arms\<close>

lemma update_governance_scheduled_Inr [act_ok]:
  "update_governance_scheduled executor g s = Inr r \<longleftrightarrow>
    \<not> paused s \<and> g \<noteq> zero_address \<and>
    r = ((), s\<lparr>ss_governance := Some g,
      st_events := st_events s @ [([ScSymbol GOVERNANCE_UPDATED_EVENT],
        ScVec [ScAddress executor, ScAddress g])]\<rparr>)"
  by (auto simp: update_governance_scheduled_def act_simps act_ok)

lemma cancel_recovery_scheduled_Inr [act_ok]:
  "cancel_recovery_scheduled executor s = Inr r \<longleftrightarrow>
    st_pending_recovery s \<noteq> None \<and>
    r = ((), s\<lparr>st_pending_recovery := None,
      st_events := st_events s @ [([ScSymbol RECOVERY_CANCELLED_EVENT], ScAddress executor)]\<rparr>)"
  by (auto simp: cancel_recovery_scheduled_def emit_defs act_simps)

lemma transfer_admin_scheduled_Inr [act_ok]:
  "transfer_admin_scheduled as t s = Inr r \<longleftrightarrow>
    (\<exists>old. st_admin s = Some old \<and> valid_admins as t \<and> set as \<inter> ss_merchant s = {} \<and>
      r = ((), s\<lparr>st_admin := Some as, st_threshold := Some t,
        st_bumps := st_bumps s @ [instance_bump],
        st_events := st_events s @ [([ScSymbol ADMIN_TRANSFERRED_EVENT], sc_admin_transferred
          \<lparr>at_old_admins = old, at_new_admins = as\<rparr>)]\<rparr>))"
  by (auto simp: transfer_admin_scheduled_def emit_defs act_simps act_ok)

lemma upgrade_scheduled_Inr [act_ok]:
  "upgrade_scheduled env executor hash s = Inr r \<longleftrightarrow>
    hash \<noteq> 0 \<and> \<not> paused s \<and> h_probe_deploys env hash \<and> wasm_supports env hash 1 \<and>
    r = ((), s\<lparr>st_wasm := hash,
      st_events := st_events s @ [([ScSymbol CONTRACT_UPGRADED_EVENT, ScBytes32 hash],
        ScAddress executor)]\<rparr>)"
  by (auto simp: upgrade_scheduled_def SUPPORTED_INTERFACE_VERSION_def act_simps act_ok)

end
