(* ===== verification/Merchant_Ops.thy ===== *)
theory Merchant_Ops
  imports Settlement_Ops
begin

text \<open>
  When registering and unregistering merchants and setting and clearing rules complete, and what they
  leave, for the direct entry points and the timelocked arms alike. The two forms of each operation leave
  the same state up to the address they report and the lifetime extensions.
\<close>

section \<open>Merchants and rules\<close>

lemma register_merchant_Inr [act_ok]:
  "register_merchant env signers m s = Inr r \<longleftrightarrow>
    \<not> paused s \<and> quorum env s signers \<and> signers \<noteq> [] \<and> m \<noteq> zero_address \<and>
    m \<notin> set (the (st_admin s)) \<and> m \<in> h_auths env \<and> m \<notin> ss_merchant s \<and>
    r = ((), s\<lparr>ss_merchant := insert m (ss_merchant s), ss_archived := ss_archived s - {m},
      st_bumps := st_bumps s @ [instance_bump, instance_bump, instance_bump, merchant_bump m],
      st_events := st_events s @ [([ScSymbol MERCHANT_CONSENT_EVENT, ScAddress m], ScVoid),
        ([ScSymbol MERCHANT_REGISTERED_EVENT, ScAddress m], ScAddress (hd signers))]\<rparr>)"
  by (auto simp: register_merchant_def quorum_def admin_quorum_def act_simps act_ok get0_hd
      split: option.splits)

lemma register_merchant_scheduled_Inr [act_ok]:
  "register_merchant_scheduled executor m s = Inr r \<longleftrightarrow>
    \<not> paused s \<and> m \<noteq> zero_address \<and> (\<exists>admins. st_admin s = Some admins \<and> m \<notin> set admins) \<and>
    m \<notin> ss_merchant s \<and>
    r = ((), s\<lparr>ss_merchant := insert m (ss_merchant s), ss_archived := ss_archived s - {m},
      st_bumps := st_bumps s @ [instance_bump, merchant_bump m],
      st_events := st_events s @
        [([ScSymbol MERCHANT_REGISTERED_EVENT, ScAddress m], ScAddress executor)]\<rparr>)"
  by (auto simp: register_merchant_scheduled_def act_simps act_ok)

text \<open>
  Unregistration, by an admin or a timelocked execution: the marker goes, the tombstone comes, and a
  rule of the merchant is removed and reported with the rule that takes its place.
\<close>

definition unregistered ::
  "'h settlement_host_scheme \<Rightarrow> address \<Rightarrow> address \<Rightarrow> settlement_state \<Rightarrow> settlement_state" where
  "unregistered env who m s =
    s\<lparr>ss_merchant := ss_merchant s - {m}, ss_archived := insert m (ss_archived s),
      ss_rule := (ss_rule s)(m := None),
      ss_cached_gov_rule :=
        (if ss_rule s m = None then ss_cached_gov_rule s else fallback_cache env s),
      st_events := st_events s @
        (case (ss_rule s m, fallback_rule env s) of
           (Some removed, Inr e) \<Rightarrow>
             [([ScSymbol SETTLEMENT_RULE_CLEARED_EVENT, ScAddress m],
               ScVec [ScAddress who, sc_settlement_rule removed, sc_settlement_rule (er_rule e)])]
         | _ \<Rightarrow> []) @
        [([ScSymbol MERCHANT_UNREGISTERED_EVENT, ScAddress m], ScAddress who)]\<rparr>"

definition fallback_resolves :: "'h settlement_host_scheme \<Rightarrow> settlement_state \<Rightarrow> bool" where
  "fallback_resolves env s \<longleftrightarrow> (\<exists>e. fallback_rule env s = Inr e)"

abbreviation archived_bump :: "address \<Rightarrow> DataKey ttl_bump" where
  "archived_bump m \<equiv> BumpPersistent (ArchivedMerchant m) MERCHANT_TTL_THRESHOLD MERCHANT_TTL_BUMP"

lemma fun_upd_None_idem: "m k = None \<Longrightarrow> m(k := None) = m"
  by auto

lemma unregister_merchant_Inr [act_ok]:
  "unregister_merchant env signers m s = Inr r \<longleftrightarrow>
    \<not> paused s \<and> quorum env s signers \<and> signers \<noteq> [] \<and> m \<in> ss_merchant s \<and>
    (ss_rule s m \<noteq> None \<longrightarrow> fallback_resolves env s) \<and>
    r = ((), (unregistered env (hd signers) m s)\<lparr>st_bumps := st_bumps s @
      [instance_bump, instance_bump, archived_bump m]\<rparr>)"
  by (cases "ss_rule s m")
    (auto simp: unregister_merchant_def unregistered_def fallback_resolves_def emit_defs act_simps act_ok
      get0_hd fun_upd_None_idem)

lemma unregister_merchant_scheduled_Inr [act_ok]:
  "unregister_merchant_scheduled env executor m s = Inr r \<longleftrightarrow>
    \<not> paused s \<and> m \<in> ss_merchant s \<and> (ss_rule s m \<noteq> None \<longrightarrow> fallback_resolves env s) \<and>
    r = ((), (unregistered env executor m s)\<lparr>st_bumps := st_bumps s @ [archived_bump m]\<rparr>)"
  by (cases "ss_rule s m")
    (auto simp: unregister_merchant_scheduled_def unregistered_def fallback_resolves_def emit_defs
      act_simps act_ok fun_upd_None_idem)

text \<open>Setting and clearing a merchant's rule, and setting the default.\<close>

definition rule_set ::
  "'h settlement_host_scheme \<Rightarrow> address \<Rightarrow> address \<Rightarrow> SettlementRule \<Rightarrow> EffectiveRule \<Rightarrow>
    settlement_state \<Rightarrow> settlement_state" where
  "rule_set env who m rule prev s =
    s\<lparr>ss_rule := (ss_rule s)(m \<mapsto> rule), ss_cached_gov_rule := effective_cache env s m,
      st_events := st_events s @ [([ScSymbol SETTLEMENT_RULE_UPDATED_EVENT, ScAddress m],
        ScVec [ScAddress who, sc_settlement_rule (er_rule prev), sc_settlement_rule rule])]\<rparr>"

lemma read_prev_rule:
  "(case ss_rule s m of Some r \<Rightarrow> ret r | None \<Rightarrow> read_rule_or_default env m) s' = Inr r \<longleftrightarrow>
    (case ss_rule s m of Some x \<Rightarrow> r = (x, s') | None \<Rightarrow> read_rule_or_default env m s' = Inr r)"
  by (auto simp: act_simps split: option.splits)

lemma set_settlement_rule_Inr [act_ok]:
  "set_settlement_rule env signers m rule s = Inr r \<longleftrightarrow>
    \<not> paused s \<and> quorum env s signers \<and> signers \<noteq> [] \<and> m \<noteq> zero_address \<and> m \<in> ss_merchant s \<and>
    valid_rule rule \<and> fee_allowed env s rule \<and>
    (\<exists>prev. effective_rule env s m = Inr prev \<and>
      r = ((), (rule_set env (hd signers) m rule prev s)\<lparr>st_bumps := st_bumps s @
        [instance_bump, instance_bump, merchant_bump m, instance_bump, rule_bump m]\<rparr>))"
  by (cases "ss_rule s m")
    (auto simp: set_settlement_rule_def rule_set_def effective_rule_def effective_cache_def
      act_simps act_ok get0_hd)

lemma set_settlement_rule_scheduled_Inr [act_ok]:
  "set_settlement_rule_scheduled env executor m rule s = Inr r \<longleftrightarrow>
    \<not> paused s \<and> m \<in> ss_merchant s \<and> valid_rule rule \<and> fee_allowed env s rule \<and>
    (\<exists>prev. effective_rule env s m = Inr prev \<and>
      r = ((), (rule_set env executor m rule prev s)\<lparr>st_bumps := st_bumps s @
        [instance_bump, merchant_bump m, rule_bump m]\<rparr>))"
proof (cases "valid_rule rule")
  case True
  then have "unat (sr_platform_fee_bps rule) \<le> 5000" "unat (sr_network_fee_bps rule) \<le> 5000"
    "\<not> unat (sr_platform_fee_bps rule) < 5" "\<not> unat (sr_network_fee_bps rule) < 5"
    "\<not> 10000 < unat (sr_platform_fee_bps rule)" "\<not> 10000 < unat (sr_network_fee_bps rule)"
    "\<not> 5000 < unat (sr_platform_fee_bps rule)" "\<not> 5000 < unat (sr_network_fee_bps rule)"
    "\<not> 100000 < unat (sr_settlement_delay_ledger rule)"
    by (simp_all add: valid_rule_def)
  then show ?thesis
    using True fee_sum_ok [of "sr_platform_fee_bps rule" "sr_network_fee_bps rule"]
    by (cases "ss_rule s m")
      (auto simp: set_settlement_rule_scheduled_def rule_set_def effective_rule_def effective_cache_def
        word_bounds act_simps act_ok)
next
  case False
  then show ?thesis
    by (auto simp: set_settlement_rule_scheduled_def valid_rule_def word_bounds not_less act_simps)
qed

definition rule_cleared ::
  "'h settlement_host_scheme \<Rightarrow> address \<Rightarrow> address \<Rightarrow> SettlementRule \<Rightarrow> EffectiveRule \<Rightarrow>
    settlement_state \<Rightarrow> settlement_state" where
  "rule_cleared env who m removed fallback s =
    s\<lparr>ss_rule := (ss_rule s)(m := None), ss_cached_gov_rule := fallback_cache env s,
      st_events := st_events s @ [([ScSymbol SETTLEMENT_RULE_CLEARED_EVENT, ScAddress m],
        ScVec [ScAddress who, sc_settlement_rule removed, sc_settlement_rule (er_rule fallback)])]\<rparr>"

lemma clear_settlement_rule_Inr [act_ok]:
  "clear_settlement_rule env signers m s = Inr r \<longleftrightarrow>
    \<not> paused s \<and> quorum env s signers \<and> signers \<noteq> [] \<and>
    (\<exists>removed fallback. ss_rule s m = Some removed \<and> fallback_rule env s = Inr fallback \<and>
      r = ((), (rule_cleared env (hd signers) m removed fallback s)\<lparr>st_bumps := st_bumps s @
        [instance_bump, instance_bump]\<rparr>))"
  by (auto simp: clear_settlement_rule_def rule_cleared_def emit_defs act_simps act_ok get0_hd)

lemma clear_settlement_rule_scheduled_Inr [act_ok]:
  "clear_settlement_rule_scheduled env executor m s = Inr r \<longleftrightarrow>
    \<not> paused s \<and>
    (\<exists>removed fallback. ss_rule s m = Some removed \<and> fallback_rule env s = Inr fallback \<and>
      r = ((), rule_cleared env executor m removed fallback s))"
  by (auto simp: clear_settlement_rule_scheduled_def rule_cleared_def effective_rule_none act_simps act_ok)

definition default_set :: "address \<Rightarrow> SettlementRule \<Rightarrow> settlement_state \<Rightarrow> settlement_state" where
  "default_set who rule s =
    s\<lparr>ss_default_rule := Some rule,
      st_events := st_events s @ [([ScSymbol DEFAULT_RULE_UPDATED_EVENT],
        ScVec [ScAddress who,
          sc_settlement_rule (case ss_default_rule s of Some r \<Rightarrow> r | None \<Rightarrow> BOOTSTRAP_DEFAULT_RULE),
          sc_settlement_rule rule])]\<rparr>"

lemma set_default_rule_Inr [act_ok]:
  "set_default_rule env signers rule s = Inr r \<longleftrightarrow>
    \<not> paused s \<and> quorum env s signers \<and> signers \<noteq> [] \<and> valid_rule rule \<and> fee_allowed env s rule \<and>
    r = ((), (default_set (hd signers) rule s)\<lparr>st_bumps := st_bumps s @
      [instance_bump, instance_bump, instance_bump]\<rparr>)"
  using fee_sum_ok [of "sr_platform_fee_bps rule" "sr_network_fee_bps rule"]
  by (auto simp: set_default_rule_def default_set_def valid_rule_def word_bounds checked_add_u32_def not_less
      act_simps act_ok get0_hd split: option.splits if_splits)

lemma set_default_rule_scheduled_Inr [act_ok]:
  "set_default_rule_scheduled env executor rule s = Inr r \<longleftrightarrow>
    \<not> paused s \<and> valid_rule rule \<and> fee_allowed env s rule \<and>
    r = ((), (default_set executor rule s)\<lparr>st_bumps := st_bumps s @ [instance_bump]\<rparr>)"
  using fee_sum_ok [of "sr_platform_fee_bps rule" "sr_network_fee_bps rule"]
  by (auto simp: set_default_rule_scheduled_def default_set_def valid_rule_def word_bounds not_less
      act_simps act_ok)

end
