(* ===== verification/Scheduler_Ops.thy ===== *)
theory Scheduler_Ops
  imports Admin_Ops Merchant_Ops
begin

text \<open>
  When the operations on the queue of timelocked operations complete, and what they leave. A batch
  cancellation is shown to empty exactly the slots of the listed operations that are queued.
\<close>

section \<open>The queue\<close>

text \<open>The value of the queue counter: an absent entry means zero.\<close>

definition queue_count :: "settlement_state \<Rightarrow> u32" where
  "queue_count s = (case ss_pending_operation_count s of Some n \<Rightarrow> n | None \<Rightarrow> 0)"

definition dequeued :: "bytes32 \<Rightarrow> settlement_state \<Rightarrow> settlement_state" where
  "dequeued key s =
    s\<lparr>ss_scheduled := (ss_scheduled s)(key := None),
      ss_pending_operation_count := Some (saturating_sub_u32 (queue_count s) 1)\<rparr>"

lemma dequeued_fields [simp]:
  "st_admin (dequeued k s) = st_admin s" "st_threshold (dequeued k s) = st_threshold s"
  "st_paused (dequeued k s) = st_paused s" "st_recovery_address (dequeued k s) = st_recovery_address s"
  "st_pending_recovery (dequeued k s) = st_pending_recovery s" "st_deployer (dequeued k s) = st_deployer s"
  "st_schema_version (dequeued k s) = st_schema_version s" "st_wasm (dequeued k s) = st_wasm s"
  "st_events (dequeued k s) = st_events s" "st_bumps (dequeued k s) = st_bumps s"
  "ss_initializing (dequeued k s) = ss_initializing s" "ss_governance (dequeued k s) = ss_governance s"
  "ss_merchant (dequeued k s) = ss_merchant s" "ss_rule (dequeued k s) = ss_rule s"
  "ss_archived (dequeued k s) = ss_archived s" "ss_default_rule (dequeued k s) = ss_default_rule s"
  "ss_payment (dequeued k s) = ss_payment s"
  "ss_scheduled (dequeued k s) = (ss_scheduled s)(k := None)"
  "ss_cached_gov_rule (dequeued k s) = ss_cached_gov_rule s"
  "ss_payment_count (dequeued k s) = ss_payment_count s"
  "ss_pending_operation_count (dequeued k s) = Some (saturating_sub_u32 (queue_count s) 1)"
  "paused (dequeued k s) = paused s"
  by (simp_all add: dequeued_def paused_def)

lemma resolution_dequeued [simp]:
  "fallback_rule env (dequeued k s) = fallback_rule env s"
  "fallback_cache env (dequeued k s) = fallback_cache env s"
  "effective_rule env (dequeued k s) m = effective_rule env s m"
  "effective_cache env (dequeued k s) m = effective_cache env s m"
  by (rule fallback_rule_cong effective_rule_cong; simp)+

lemma consume_scheduled_operation_run [act_ok]:
  "consume_scheduled_operation key s = Inr ((), dequeued key s)"
  by (simp add: consume_scheduled_operation_def decrement_pending_operation_count_def
      read_pending_operation_count_def dequeued_def queue_count_def act_eval)

lemma increment_pending_operation_count_run [act_ok]:
  "increment_pending_operation_count s =
    Inr ((), s\<lparr>ss_pending_operation_count := Some (saturating_add_u32 (queue_count s) 1)\<rparr>)"
  by (simp add: increment_pending_operation_count_def read_pending_operation_count_def queue_count_def
      act_eval)

text \<open>The delays \<open>schedule\<close> accepts, and the operations it accepts at all.\<close>

definition valid_delay :: "u64 \<Rightarrow> bool" where
  "valid_delay d \<longleftrightarrow> 604800 \<le> unat d \<and> unat d \<le> 2592000"

definition schedulable :: "'h settlement_host_scheme \<Rightarrow> Operation \<Rightarrow> bool" where
  "schedulable env operation \<longleftrightarrow> length (h_to_xdr env operation) \<le> 4096 \<and>
    (case operation of
       TransferAdmin as t \<Rightarrow> t \<noteq> 0 \<and> unat t \<le> length as
     | SetSettlementRule _ r \<Rightarrow> unat (sr_settlement_delay_ledger r) \<le> 100000
     | _ \<Rightarrow> True)"

lemma delay_bounds:
  "d < MIN_TIMELOCK_DELAY_SECONDS \<longleftrightarrow> unat d < 604800"
  "MAX_TIMELOCK_DELAY_SECONDS < d \<longleftrightarrow> 2592000 < unat d"
  by (simp_all add: word_less_nat_alt MIN_TIMELOCK_DELAY_SECONDS_unat MAX_TIMELOCK_DELAY_SECONDS_unat)

lemma payload_bound: "unat MAX_SCHEDULED_OPERATION_PAYLOAD_LEN = 4096"
  by (simp add: MAX_SCHEDULED_OPERATION_PAYLOAD_LEN_def)

lemma validate_operation_bounds_Inr:
  "validate_operation_bounds operation s = Inr r \<longleftrightarrow>
    (case operation of
       TransferAdmin as t \<Rightarrow> t \<noteq> 0 \<and> unat t \<le> length as
     | SetSettlementRule _ rule \<Rightarrow> unat (sr_settlement_delay_ledger rule) \<le> 100000
     | _ \<Rightarrow> True) \<and> r = ((), s)"
  by (cases operation) (auto simp: validate_operation_bounds_def word_bounds act_simps not_less)

definition enqueued ::
  "'h settlement_host_scheme \<Rightarrow> address \<Rightarrow> Operation \<Rightarrow> u64 \<Rightarrow> settlement_state \<Rightarrow> settlement_state" where
  "enqueued env caller operation execute_at s =
    s\<lparr>ss_scheduled := (ss_scheduled s)(op_hash env operation \<mapsto>
        \<lparr>so_operation_xdr = h_to_xdr env operation, so_execute_at = execute_at\<rparr>),
      ss_pending_operation_count := Some (saturating_add_u32 (queue_count s) 1),
      st_events := st_events s @ [([ScSymbol OP_SCHEDULED_EVENT, ScBytes32 (op_hash env operation)],
        ScVec [ScAddress caller, ScU64 execute_at])]\<rparr>"

lemma queue_count_upd [simp]:
  "queue_count (s\<lparr>st_bumps := b\<rparr>) = queue_count s"
  "queue_count (s\<lparr>ss_scheduled := q\<rparr>) = queue_count s"
  by (simp_all add: queue_count_def)

lemma schedule_Inr [act_ok]:
  "schedule env signers operation execute_in s = Inr r \<longleftrightarrow>
    \<not> paused s \<and> quorum env s signers \<and> signers \<noteq> [] \<and> valid_delay execute_in \<and>
    schedulable env operation \<and> governance_answers env s \<and>
    ss_scheduled s (op_hash env operation) = None \<and>
    unat (h_timestamp env) + unat execute_in < 2 ^ 64 \<and>
    r = ((), (enqueued env (hd signers) operation (h_timestamp env + execute_in) s)\<lparr>
      st_bumps := st_bumps s @ [instance_bump, instance_bump, instance_bump,
        BumpPersistent (ScheduledOperation (op_hash env operation)) SCHEDULED_OP_TTL_THRESHOLD
          SCHEDULED_OP_TTL_BUMP]\<rparr>)"
proof (cases "ss_scheduled s (op_hash env operation)")
  case None
  have "execute_in \<noteq> 0" if "604800 \<le> unat execute_in"
    using that by auto
  with None show ?thesis
    by (auto simp: schedule_def enqueued_def valid_delay_def schedulable_def validate_operation_bounds_Inr
        delay_bounds payload_bound not_less act_simps act_ok get0_hd)
next
  case (Some e)
  then show ?thesis
    by (auto simp: schedule_def validate_operation_bounds_Inr act_simps act_ok)
qed

text \<open>What \<open>execute\<close> and \<open>dry_run\<close> check.\<close>

definition executable :: "'h settlement_host_scheme \<Rightarrow> settlement_state \<Rightarrow> Operation \<Rightarrow> bool" where
  "executable env s operation \<longleftrightarrow> \<not> paused s \<and>
    (\<exists>e. ss_scheduled s (op_hash env operation) = Some e \<and>
      so_operation_xdr e = h_to_xdr env operation \<and> so_execute_at e \<le> h_timestamp env) \<and>
    (st_pending_recovery s \<noteq> None \<longrightarrow> operation = CancelRecovery)"

lemma validate_scheduled_execution_Inr [act_ok]:
  "validate_scheduled_execution env operation s = Inr r \<longleftrightarrow>
    executable env s operation \<and> r = (op_hash env operation, s)"
  by (auto simp: validate_scheduled_execution_def executable_def act_simps act_ok not_less)

lemma execute_Inr [act_ok]:
  "execute env executor operation s = Inr r \<longleftrightarrow>
    executable env s operation \<and>
    (\<exists>s'. dispatch_operation env executor operation (dequeued (op_hash env operation) s) = Inr ((), s') \<and>
      r = ((), s'\<lparr>st_events := st_events s' @
        [([ScSymbol OP_EXECUTED_EVENT, ScBytes32 (op_hash env operation)], ScVoid)]\<rparr>))"
  by (auto simp: execute_def act_simps act_ok)

lemma dry_run_Inr [act_ok]:
  "dry_run env operation s = Inr r \<longleftrightarrow> executable env s operation \<and> r = ((), s)"
  by (auto simp: dry_run_def act_simps act_ok)

text \<open>The operation is queued, with the same encoding.\<close>

definition queued :: "'h settlement_host_scheme \<Rightarrow> settlement_state \<Rightarrow> Operation \<Rightarrow> bool" where
  "queued env s operation \<longleftrightarrow>
    (\<exists>e. ss_scheduled s (op_hash env operation) = Some e \<and> so_operation_xdr e = h_to_xdr env operation)"

lemma dequeued_upd [simp]:
  "dequeued k (s\<lparr>st_bumps := b\<rparr>) = (dequeued k s)\<lparr>st_bumps := b\<rparr>"
  by (simp add: dequeued_def)

lemma cancel_Inr [act_ok]:
  "cancel env signers operation s = Inr r \<longleftrightarrow>
    quorum env s signers \<and> signers \<noteq> [] \<and> \<not> paused s \<and> queued env s operation \<and>
    r = ((), (dequeued (op_hash env operation) s)\<lparr>
      st_bumps := st_bumps s @ [instance_bump, instance_bump],
      st_events := st_events s @ [([ScSymbol OP_CANCELLED_EVENT, ScBytes32 (op_hash env operation)],
        ScAddress (hd signers))]\<rparr>)"
  by (auto simp: cancel_def quorum_def queued_def act_simps act_ok get0_hd)

text \<open>
  The slots a batch cancellation empties: those of the listed operations that are queued, each once.
\<close>

definition cancelled_slots :: "'h settlement_host_scheme \<Rightarrow> Operation list \<Rightarrow> settlement_state \<Rightarrow> bytes32 set" where
  "cancelled_slots env ops s = op_hash env ` {op \<in> set ops. queued env s op}"

lemma finite_cancelled_slots [simp]: "finite (cancelled_slots env ops s)"
  by (simp add: cancelled_slots_def)

lemma cancelled_slots_dom: "cancelled_slots env ops s \<subseteq> dom (ss_scheduled s)"
  by (auto simp: cancelled_slots_def queued_def)

lemma queued_dequeued:
  "queued env (dequeued k s) op \<longleftrightarrow> queued env s op \<and> op_hash env op \<noteq> k"
  by (auto simp: queued_def)

lemma cancelled_slots_dequeued:
  "cancelled_slots env ops (dequeued k s) = cancelled_slots env ops s - {k}"
  by (auto simp: cancelled_slots_def queued_dequeued)

lemma cancelled_slots_Cons:
  "cancelled_slots env (op # ops) s =
    (if queued env s op then insert (op_hash env op) (cancelled_slots env ops (dequeued (op_hash env op) s))
     else cancelled_slots env ops s)"
  by (auto simp: cancelled_slots_def queued_dequeued)

lemma queued_case:
  "(case ss_scheduled s (op_hash env op) of Some e \<Rightarrow> so_operation_xdr e = h_to_xdr env op | None \<Rightarrow> False) \<longleftrightarrow>
    queued env s op"
  by (auto simp: queued_def split: option.splits)

lemma card_cancelled_slots_le: "card (cancelled_slots env ops s) \<le> length ops"
proof -
  have "card (cancelled_slots env ops s) \<le> card (op_hash env ` set ops)"
    by (rule card_mono) (auto simp: cancelled_slots_def)
  also have "\<dots> \<le> card (set ops)"
    by (rule card_image_le) simp
  also have "\<dots> \<le> length ops"
    by (rule card_length)
  finally show ?thesis .
qed

lemma unat_saturating_sub_u32: "unat (saturating_sub_u32 a b) = unat a - unat b"
  by (auto simp: saturating_sub_u32_def word_le_nat_alt unat_sub not_le)

text \<open>
  The loop empties exactly those slots, counts them, and lowers the queue counter by as many.
\<close>

definition queue_drained :: "bytes32 set \<Rightarrow> settlement_state \<Rightarrow> settlement_state \<Rightarrow> bool" where
  "queue_drained slots s s' \<longleftrightarrow>
    (\<exists>n. s' = s\<lparr>ss_scheduled := ss_scheduled s |` (- slots), ss_pending_operation_count := n\<rparr>) \<and>
    unat (queue_count s') = unat (queue_count s) - card slots"

lemma restrict_map_upd_None: "(m(k := None)) |` (- S) = m |` (- insert k S)"
  by (auto simp: restrict_map_def fun_eq_iff)

lemma queue_drained_step:
  assumes "queue_drained S (dequeued k s) s'" "k \<notin> S" "finite S"
  shows "queue_drained (insert k S) s s'"
proof -
  from assms obtain n where n: "s' = (dequeued k s)\<lparr>ss_scheduled := ss_scheduled (dequeued k s) |` (- S),
      ss_pending_operation_count := n\<rparr>" "unat (queue_count s') = unat (queue_count (dequeued k s)) - card S"
    by (auto simp: queue_drained_def)
  have "queue_count (dequeued k s) = saturating_sub_u32 (queue_count s) 1"
    by (simp add: queue_count_def [of "dequeued k s"])
  then have "unat (queue_count s') = unat (queue_count s) - card (insert k S)"
    using n assms by (simp add: unat_saturating_sub_u32)
  moreover have "s' = s\<lparr>ss_scheduled := ss_scheduled s |` (- insert k S), ss_pending_operation_count := n\<rparr>"
    using n(1) unfolding dequeued_fields restrict_map_upd_None by (simp add: dequeued_def)
  ultimately show ?thesis
    by (auto simp: queue_drained_def)
qed

lemma queue_drained_refl: "queue_drained {} s s"
  by (simp add: queue_drained_def restrict_map_def) (rule exI [of _ "ss_pending_operation_count s"], simp)

lemma cancel_each_run:
  assumes "unat n + length ops < 2 ^ 32"
  shows "\<exists>c s'. cancel_each env ops n s = Inr (c, s') \<and>
    unat c = unat n + card (cancelled_slots env ops s) \<and> queue_drained (cancelled_slots env ops s) s s'"
  using assms
proof (induction ops arbitrary: n s)
  case Nil
  then show ?case
    using queue_drained_refl [of s] by (simp add: cancelled_slots_def act_simps)
next
  case (Cons op ops)
  show ?case
  proof (cases "queued env s op")
    case False
    then have "cancel_each env (op # ops) n s = cancel_each env ops n s"
      by (simp add: bind_run gets_run queued_case)
    then show ?thesis
      using Cons.IH [of n s] Cons.prems False by (simp add: cancelled_slots_Cons)
  next
    case True
    let ?k = "op_hash env op"
    let ?s = "dequeued ?k s"
    have n1: "unat (n + 1) = unat n + 1"
      using Cons.prems unat_add_u32 [of n 1] by simp
    have step: "cancel_each env (op # ops) n s = cancel_each env ops (n + 1) ?s"
      using True Cons.prems
      by (simp add: bind_run gets_run queued_case andthen_run consume_scheduled_operation_run unwrap_def
          checked_add_u32_def ret_run)
    obtain c s' where IH: "cancel_each env ops (n + 1) ?s = Inr (c, s')"
      "unat c = unat (n + 1) + card (cancelled_slots env ops ?s)"
      "queue_drained (cancelled_slots env ops ?s) ?s s'"
      using Cons.IH [of "n + 1" ?s] Cons.prems n1 by auto
    have k: "?k \<notin> cancelled_slots env ops ?s"
      by (simp add: cancelled_slots_dequeued)
    then have "queue_drained (cancelled_slots env (op # ops) s) s s'"
      using queue_drained_step [OF IH(3) k] True by (simp add: cancelled_slots_Cons)
    then show ?thesis
      using IH(1,2) k True by (simp add: step n1 cancelled_slots_Cons del: cancel_each.simps)
  qed
qed

lemma cancel_all_ok [act_ok]:
  "cancel_all env signers ops s = Inr (c, s') \<longleftrightarrow>
    quorum env s signers \<and> signers \<noteq> [] \<and> \<not> paused s \<and> length ops \<le> 50 \<and>
    (\<exists>s1. cancel_each env ops 0
        (s\<lparr>st_bumps := st_bumps s @ [instance_bump, instance_bump]\<rparr>) = Inr (c, s1) \<and>
      s' = s1\<lparr>st_events := st_events s1 @
        [([ScSymbol OP_CANCELLED_EVENT], ScVec [ScAddress (hd signers), ScU32 c])]\<rparr>)"
  by (auto simp: cancel_all_def quorum_def MAX_CANCEL_ALL_BATCH_def act_simps act_ok get0_hd not_less)

end
