(* ===== verification/Payments.thy ===== *)
theory Payments
  imports Settlement_Storage
begin

text \<open>
  \<open>settlement_contract/src/payments.rs\<close>: the fee split of a payment, and storing, reading and
  pruning payment records.
\<close>

section \<open>The fee split\<close>

text \<open>\<open>x.clamp(lo, hi)\<close> for \<open>lo <= hi\<close>\<close>

definition clamp_i128 :: "int \<Rightarrow> int \<Rightarrow> int \<Rightarrow> int" where
  "clamp_i128 x lo hi = (if x < lo then lo else if hi < x then hi else x)"

definition clamp_fee_legs :: "int \<Rightarrow> int \<Rightarrow> int \<Rightarrow> int \<times> int \<times> int" where
  "clamp_fee_legs gross0 platform_fee0 network_fee0 =
    (let gross = max gross0 0;
         platform_fee = clamp_i128 platform_fee0 0 gross;
         network_fee = clamp_i128 network_fee0 0 (saturating_sub gross platform_fee);
         merchant_payout = saturating_sub (saturating_sub gross platform_fee) network_fee
     in (platform_fee, network_fee, merchant_payout))"

definition calculate_split :: "int \<Rightarrow> SettlementRule \<Rightarrow> FeeSplit settlement_action" where
  "calculate_split amount rule =
    (let denom = uint BPS_DENOMINATOR;
         max_bps = max (as_i128 (platform_bps rule)) (as_i128 (network_bps rule));
         sum_bps = (case checked_add (as_i128 (platform_bps rule)) (as_i128 (network_bps rule)) of
                      Some n \<Rightarrow> n | None \<Rightarrow> i128_max)
     in
     andthen (panic_if (Option.bind (checked_mul amount max_bps) (\<lambda>n. checked_add n (denom - 1)) = None)
       AmountOverflow) (
     andthen (panic_if (Option.bind (checked_mul amount sum_bps) (\<lambda>n. checked_add n (denom - 1)) = None)
       AmountOverflow) (
     bind (expect_some (calculate_fee_ceil (platform_bps rule) amount) AmountOverflow) (\<lambda>platform_fee.
     bind (expect_some (calculate_fee_ceil (network_bps rule) amount) AmountOverflow) (\<lambda>network_fee.
     (case clamp_fee_legs amount platform_fee network_fee of
        (platform_fee_amount, network_fee_amount, merchant_payout_amount) \<Rightarrow>
          ret \<lparr>fs_gross_amount = amount, fs_platform_fee_amount = platform_fee_amount,
               fs_network_fee_amount = network_fee_amount,
               fs_merchant_payout_amount = merchant_payout_amount\<rparr>))))))"

definition is_bootstrap_rule :: "SettlementRule \<Rightarrow> bool" where
  "is_bootstrap_rule rule = (rule = BOOTSTRAP_DEFAULT_RULE)"

section \<open>Entry points\<close>

definition assert_read_authorized ::
  "'h host_scheme \<Rightarrow> address \<Rightarrow> address list \<Rightarrow> unit settlement_action" where
  "assert_read_authorized env merchant signers =
    (if signers = [] then require_auth env merchant
     else bind read_threshold (\<lambda>threshold. verify_admin_auth env signers threshold))"

definition sc_payment_record :: "PaymentRecord \<Rightarrow> sc_val" where
  "sc_payment_record r =
    ScMap [(ScSymbol ''amount'', ScI128 (pay_amount r)),
           (ScSymbol ''auto_settle'', ScBool (pay_auto_settle r)),
           (ScSymbol ''ledger'', ScU32 (pay_ledger r)),
           (ScSymbol ''merchant'', ScAddress (pay_merchant r)),
           (ScSymbol ''merchant_payout_amount'', ScI128 (pay_merchant_payout_amount r)),
           (ScSymbol ''network_fee_amount'', ScI128 (pay_network_fee_amount r)),
           (ScSymbol ''network_fee_bps'', ScU32 (pay_network_fee_bps r)),
           (ScSymbol ''platform_fee_amount'', ScI128 (pay_platform_fee_amount r)),
           (ScSymbol ''platform_fee_bps'', ScU32 (pay_platform_fee_bps r)),
           (ScSymbol ''settlement_delay_ledger'', ScU32 (pay_settlement_delay_ledger r)),
           (ScSymbol ''version'', ScU32 (pay_version r))]"

definition set_payment :: "address \<Rightarrow> bytes32 \<Rightarrow> PaymentRecord \<Rightarrow> unit settlement_action" where
  "set_payment merchant reference record =
    modify (\<lambda>s. s\<lparr>ss_payment := (ss_payment s)((merchant, reference) \<mapsto> record)\<rparr>)"

definition store_payment_reference ::
  "'h settlement_host_scheme \<Rightarrow> address \<Rightarrow> bytes32 \<Rightarrow> int \<Rightarrow> FeeSplit settlement_action" where
  "store_payment_reference env merchant reference amount =
    andthen (panic_if (reference = 0) InvalidPaymentReference) (
    andthen assert_not_paused (
    andthen (require_auth env merchant) (
    bind (is_merchant_registered_and_bump_ttl merchant) (\<lambda>registered.
    andthen (panic_if (\<not> registered) MerchantMissing) (
    bind (read_min_payment_amount env) (\<lambda>min_amount.
    andthen (panic_if (amount < min_amount) AmountTooSmall) (
    bind (gets (\<lambda>s. ss_payment s (merchant, reference))) (\<lambda>existing.
    andthen (panic_if (existing \<noteq> None) DuplicatePaymentReference) (
    andthen (set_payment merchant reference
      \<lparr>pay_merchant = merchant, pay_amount = 0, pay_platform_fee_amount = 0,
       pay_network_fee_amount = 0, pay_merchant_payout_amount = 0, pay_platform_fee_bps = 0,
       pay_network_fee_bps = 0, pay_ledger = 0, pay_settlement_delay_ledger = 0,
       pay_auto_settle = False, pay_version = 1\<rparr>) (
    bind (read_rule_or_default env merchant) (\<lambda>rule.
    andthen (when_do (is_bootstrap_rule rule)
      (publish [ScSymbol BOOTSTRAP_FALLBACK_EVENT] (sc_settlement_rule BOOTSTRAP_DEFAULT_RULE))) (
    bind (calculate_split amount rule) (\<lambda>split.
    let record =
      \<lparr>pay_merchant = merchant, pay_amount = amount,
       pay_platform_fee_amount = fs_platform_fee_amount split,
       pay_network_fee_amount = fs_network_fee_amount split,
       pay_merchant_payout_amount = fs_merchant_payout_amount split,
       pay_platform_fee_bps = sr_platform_fee_bps rule, pay_network_fee_bps = sr_network_fee_bps rule,
       pay_ledger = h_sequence env,
       pay_settlement_delay_ledger = sr_settlement_delay_ledger rule,
       pay_auto_settle = sr_auto_settle rule, pay_version = 1\<rparr>
    in
    andthen (set_payment merchant reference record) (
    andthen (extend_persistent_ttl (Payment merchant reference) PAYMENT_TTL_THRESHOLD PAYMENT_TTL_BUMP) (
    andthen (increment_payment_count merchant) (
    andthen (publish [ScSymbol PAYMENT_STORED_EVENT, ScAddress merchant, ScBytes32 reference]
      (sc_payment_record record)) (
    ret split)))))))))))))))))"

definition calculate_fee_split ::
  "'h settlement_host_scheme \<Rightarrow> address \<Rightarrow> int \<Rightarrow> FeeSplit settlement_action" where
  "calculate_fee_split env merchant amount =
    bind (is_merchant_registered_internal merchant) (\<lambda>registered.
    andthen (panic_if (\<not> registered) MerchantMissing) (
    bind (read_min_payment_amount env) (\<lambda>min_amount.
    andthen (panic_if (amount < min_amount) AmountTooSmall) (
    bind (read_rule_or_default_no_bump env merchant) (\<lambda>rule.
    calculate_split amount rule)))))"

definition prune_payment ::
  "'h settlement_host_scheme \<Rightarrow> address list \<Rightarrow> address \<Rightarrow> bytes32 \<Rightarrow> unit settlement_action" where
  "prune_payment env signers merchant reference =
    andthen assert_not_paused (
    bind read_threshold (\<lambda>threshold.
    andthen (verify_admin_auth env signers threshold) (
    bind (gets (\<lambda>s. ss_payment s (merchant, reference) \<noteq> None)) (\<lambda>has.
    when_do has (
      andthen (modify (\<lambda>s. s\<lparr>ss_payment := (ss_payment s)((merchant, reference) := None)\<rparr>)) (
      andthen (decrement_payment_count merchant 1) (
      publish [ScSymbol PAYMENT_PRUNED_EVENT, ScAddress merchant, ScBytes32 reference]
        (ScVec [ScAddress merchant, ScBytes32 reference]))))))))"

text \<open>The loop of \<open>prune_payments\<close>, with the count of the removed records.\<close>

primrec prune_each :: "address \<Rightarrow> bytes32 list \<Rightarrow> u32 \<Rightarrow> u32 settlement_action" where
  "prune_each merchant [] removed = ret removed"
| "prune_each merchant (reference # refs) removed =
    bind (gets (\<lambda>s. ss_payment s (merchant, reference) \<noteq> None)) (\<lambda>has.
    if has
    then andthen (modify (\<lambda>s. s\<lparr>ss_payment := (ss_payment s)((merchant, reference) := None)\<rparr>)) (
         bind (unwrap (checked_add_u32 removed 1)) (\<lambda>n.
         prune_each merchant refs n))
    else prune_each merchant refs removed)"

definition prune_payments ::
  "'h settlement_host_scheme \<Rightarrow> address list \<Rightarrow> address \<Rightarrow> bytes32 list \<Rightarrow> u32 settlement_action" where
  "prune_payments env signers merchant refs =
    bind read_threshold (\<lambda>threshold.
    andthen (verify_admin_auth env signers threshold) (
    andthen (panic_if (unat MAX_PAYMENTS_BATCH < length refs) BatchTooLarge) (
    bind (prune_each merchant refs 0) (\<lambda>removed.
    andthen (decrement_payment_count merchant removed) (
    bind (unwrap (get0 signers)) (\<lambda>admin.
    andthen (publish [ScSymbol PAYMENTS_PRUNED_EVENT, ScAddress merchant]
      (ScVec [ScAddress admin, ScU32 removed])) (
    ret removed)))))))"

definition get_payment_reference ::
  "'h settlement_host_scheme \<Rightarrow> address \<Rightarrow> bytes32 \<Rightarrow> address list \<Rightarrow>
    PaymentRecord option settlement_action" where
  "get_payment_reference env merchant reference signers =
    andthen (assert_read_authorized env merchant signers) (
    andthen (assert_payments_readable merchant) (
    bind (gets (\<lambda>s. ss_payment s (merchant, reference))) (\<lambda>record.
    andthen (when_do (record \<noteq> None)
      (extend_persistent_ttl (Payment merchant reference) PAYMENT_TTL_THRESHOLD PAYMENT_TTL_BUMP)) (
    ret record))))"

text \<open>The loop of \<open>get_payments\<close>, collecting the records that exist.\<close>

primrec collect_payments ::
  "address \<Rightarrow> bytes32 list \<Rightarrow> PaymentRecord list \<Rightarrow> PaymentRecord list settlement_action" where
  "collect_payments merchant [] records = ret records"
| "collect_payments merchant (reference # refs) records =
    bind (gets (\<lambda>s. ss_payment s (merchant, reference))) (\<lambda>record.
    case record of
      Some payment \<Rightarrow>
        andthen (extend_persistent_ttl (Payment merchant reference) PAYMENT_TTL_THRESHOLD
          PAYMENT_TTL_BUMP) (
        collect_payments merchant refs (records @ [payment]))
    | None \<Rightarrow> collect_payments merchant refs records)"

definition get_payments ::
  "'h settlement_host_scheme \<Rightarrow> address \<Rightarrow> bytes32 list \<Rightarrow> u32 \<Rightarrow> address list \<Rightarrow>
    PaymentsPage settlement_action" where
  "get_payments env merchant refs cursor signers =
    andthen (assert_read_authorized env merchant signers) (
    andthen (assert_payments_readable merchant) (
    andthen (panic_if (unat MAX_PAYMENTS_BATCH < length refs) BatchTooLarge) (
    bind (collect_payments merchant refs []) (\<lambda>records.
    bind (if length refs = unat MAX_PAYMENTS_BATCH
          then bind (unwrap (checked_add_u32 cursor (word_of_nat (length refs)))) (\<lambda>n. ret (Some n))
          else ret None) (\<lambda>next_cursor.
    ret \<lparr>pp_records = records, pp_next_cursor = next_cursor\<rparr>)))))"

definition get_payment_count ::
  "'h settlement_host_scheme \<Rightarrow> address \<Rightarrow> address list \<Rightarrow> u32 settlement_action" where
  "get_payment_count env merchant signers =
    andthen (assert_read_authorized env merchant signers) (
    andthen (assert_payments_readable merchant) (
    read_payment_count merchant))"

end
