(* ===== verification/Payment_Ops.thy ===== *)
theory Payment_Ops
  imports Settlement_Ops Payments
begin

text \<open>
  When storing, previewing, pruning and reading payments complete, and what they leave. The loops of
  \<open>prune_payments\<close> and \<open>get_payments\<close> are given in closed form.
\<close>

section \<open>Payments\<close>

text \<open>The split does not depend on the contract state.\<close>

definition splits_to :: "int \<Rightarrow> SettlementRule \<Rightarrow> FeeSplit \<Rightarrow> bool" where
  "splits_to amount rule split \<longleftrightarrow> (\<forall>s. calculate_split amount rule s = Inr (split, s))"

lemma calculate_split_Inr [act_ok]:
  "calculate_split amount rule s = Inr r \<longleftrightarrow> (\<exists>split. splits_to amount rule split \<and> r = (split, s))"
  by (auto simp: splits_to_def calculate_split_def Let_def act_eval split: option.splits prod.splits)

definition pay_count :: "settlement_state \<Rightarrow> address \<Rightarrow> u32" where
  "pay_count s m = (case ss_payment_count s m of Some n \<Rightarrow> n | None \<Rightarrow> 0)"

definition min_payment :: "'h settlement_host_scheme \<Rightarrow> settlement_state \<Rightarrow> int" where
  "min_payment env s =
    (case ss_governance s of
       None \<Rightarrow> MIN_PAYMENT_AMOUNT
     | Some g \<Rightarrow>
         (case option_i128_reply (h_invoke env g ''get_system_param'' [ScSymbol ''min_payment'']) of
            Replied (Some v) \<Rightarrow> v
          | _ \<Rightarrow> MIN_PAYMENT_AMOUNT))"

lemma min_payment_upd [simp]: "min_payment env (s\<lparr>st_bumps := b\<rparr>) = min_payment env s"
  by (simp add: min_payment_def)

lemma pay_count_upd [simp]:
  "pay_count (s\<lparr>st_bumps := b\<rparr>) m = pay_count s m" "pay_count (s\<lparr>st_events := e\<rparr>) m = pay_count s m"
  "pay_count (s\<lparr>ss_payment := p\<rparr>) m = pay_count s m"
  "pay_count (s\<lparr>ss_cached_gov_rule := c\<rparr>) m = pay_count s m"
  by (simp_all add: pay_count_def)

lemma read_min_payment_amount_run [act_ok]: "read_min_payment_amount env s = Inr (min_payment env s, s)"
  by (simp add: read_min_payment_amount_def min_payment_def act_eval split: option.splits)

abbreviation count_bump :: "address \<Rightarrow> DataKey ttl_bump" where
  "count_bump m \<equiv> BumpPersistent (PaymentCount m) MERCHANT_TTL_THRESHOLD MERCHANT_TTL_BUMP"

lemma increment_payment_count_Inr [act_ok]:
  "increment_payment_count m s = Inr r \<longleftrightarrow> unat (pay_count s m) + 1 < 2 ^ 32 \<and>
    r = ((), s\<lparr>ss_payment_count := (ss_payment_count s)(m \<mapsto> pay_count s m + 1),
      st_bumps := st_bumps s @ [count_bump m]\<rparr>)"
  by (auto simp: increment_payment_count_def read_payment_count_def pay_count_def act_simps)

definition pruned_count :: "address \<Rightarrow> u32 \<Rightarrow> settlement_state \<Rightarrow> settlement_state" where
  "pruned_count m n s =
    (if n = 0 then s
     else s\<lparr>ss_payment_count := (ss_payment_count s)(m \<mapsto> saturating_sub_u32 (pay_count s m) n),
            st_bumps := st_bumps s @ [count_bump m]\<rparr>)"

lemma decrement_payment_count_run [act_ok]: "decrement_payment_count m n s = Inr ((), pruned_count m n s)"
  by (simp add: decrement_payment_count_def read_payment_count_def pay_count_def pruned_count_def act_eval
      extend_persistent_ttl_run)

definition new_record ::
  "'h settlement_host_scheme \<Rightarrow> address \<Rightarrow> int \<Rightarrow> SettlementRule \<Rightarrow> FeeSplit \<Rightarrow> PaymentRecord" where
  "new_record env m amount rule split =
    \<lparr>pay_merchant = m, pay_amount = amount, pay_platform_fee_amount = fs_platform_fee_amount split,
     pay_network_fee_amount = fs_network_fee_amount split,
     pay_merchant_payout_amount = fs_merchant_payout_amount split,
     pay_platform_fee_bps = sr_platform_fee_bps rule, pay_network_fee_bps = sr_network_fee_bps rule,
     pay_ledger = h_sequence env, pay_settlement_delay_ledger = sr_settlement_delay_ledger rule,
     pay_auto_settle = sr_auto_settle rule, pay_version = 1\<rparr>"

definition stored_payment ::
  "'h settlement_host_scheme \<Rightarrow> address \<Rightarrow> bytes32 \<Rightarrow> int \<Rightarrow> SettlementRule \<Rightarrow> FeeSplit \<Rightarrow>
    settlement_state \<Rightarrow> settlement_state" where
  "stored_payment env m ref amount rule split s =
    s\<lparr>ss_payment := (ss_payment s)((m, ref) \<mapsto> new_record env m amount rule split),
      ss_payment_count := (ss_payment_count s)(m \<mapsto> pay_count s m + 1),
      ss_cached_gov_rule := effective_cache env s m,
      st_bumps := st_bumps s @ [merchant_bump m] @
        (if ss_rule s m = None then [] else [rule_bump m]) @ [payment_bump m ref, count_bump m],
      st_events := st_events s @
        (if is_bootstrap_rule rule
         then [([ScSymbol BOOTSTRAP_FALLBACK_EVENT], sc_settlement_rule BOOTSTRAP_DEFAULT_RULE)] else []) @
        [([ScSymbol PAYMENT_STORED_EVENT, ScAddress m, ScBytes32 ref],
          sc_payment_record (new_record env m amount rule split))]\<rparr>"

lemma store_payment_reference_Inr [act_ok]:
  "store_payment_reference env m ref amount s = Inr r \<longleftrightarrow>
    ref \<noteq> 0 \<and> \<not> paused s \<and> m \<in> h_auths env \<and> m \<in> ss_merchant s \<and> min_payment env s \<le> amount \<and>
    ss_payment s (m, ref) = None \<and> unat (pay_count s m) + 1 < 2 ^ 32 \<and>
    (\<exists>e split. effective_rule env s m = Inr e \<and> splits_to amount (er_rule e) split \<and>
      r = (split, stored_payment env m ref amount (er_rule e) split s))"
proof (cases "m \<in> ss_merchant s \<and> \<not> amount < min_payment env s \<and> ss_payment s (m, ref) = None")
  case True
  then show ?thesis
    by (cases "effective_rule env s m"; cases "ss_rule s m")
      (auto simp: store_payment_reference_def stored_payment_def new_record_def set_payment_def Let_def
        act_simps act_ok)
next
  case False
  then show ?thesis
    by (auto simp: store_payment_reference_def act_simps act_ok not_less)
qed

lemma calculate_fee_split_Inr [act_ok]:
  "calculate_fee_split env m amount s = Inr r \<longleftrightarrow>
    m \<in> ss_merchant s \<and> min_payment env s \<le> amount \<and>
    (\<exists>e split. effective_rule env s m = Inr e \<and> splits_to amount (er_rule e) split \<and>
      r = (split, s\<lparr>ss_cached_gov_rule := effective_cache env s m\<rparr>))"
  by (auto simp: calculate_fee_split_def act_simps act_ok not_less)

lemma prune_payment_Inr [act_ok]:
  "prune_payment env signers m ref s = Inr r \<longleftrightarrow>
    \<not> paused s \<and> quorum env s signers \<and>
    (if ss_payment s (m, ref) = None
     then r = ((), s\<lparr>st_bumps := st_bumps s @ [instance_bump, instance_bump]\<rparr>)
     else r = ((), s\<lparr>ss_payment := (ss_payment s)((m, ref) := None),
       ss_payment_count := (ss_payment_count s)(m \<mapsto> saturating_sub_u32 (pay_count s m) 1),
       st_bumps := st_bumps s @ [instance_bump, instance_bump, count_bump m],
       st_events := st_events s @ [([ScSymbol PAYMENT_PRUNED_EVENT, ScAddress m, ScBytes32 ref],
         ScVec [ScAddress m, ScBytes32 ref])]\<rparr>))"
  by (cases "ss_payment s (m, ref)")
    (auto simp: prune_payment_def pruned_count_def quorum_def act_simps act_ok)

text \<open>The records a batch of references removes.\<close>

definition pruned_refs :: "address \<Rightarrow> bytes32 list \<Rightarrow> settlement_state \<Rightarrow> bytes32 set" where
  "pruned_refs m refs s = {ref \<in> set refs. ss_payment s (m, ref) \<noteq> None}"

definition without_payments :: "address \<Rightarrow> bytes32 set \<Rightarrow> settlement_state \<Rightarrow> settlement_state" where
  "without_payments m refs s = s\<lparr>ss_payment := ss_payment s |` (- ({m} \<times> refs))\<rparr>"

lemma finite_pruned_refs [simp]: "finite (pruned_refs m refs s)"
  by (simp add: pruned_refs_def)

lemma card_pruned_refs_le: "card (pruned_refs m refs s) \<le> length refs"
proof -
  have "card (pruned_refs m refs s) \<le> card (set refs)"
    by (rule card_mono) (auto simp: pruned_refs_def)
  then show ?thesis
    using card_length [of refs] by linarith
qed

lemma without_payments_Cons:
  "without_payments m (set refs) (s\<lparr>ss_payment := (ss_payment s)((m, ref) := None)\<rparr>) =
    without_payments m (set (ref # refs)) s"
  "ss_payment s (m, ref) = None \<Longrightarrow>
    without_payments m (set (ref # refs)) s = without_payments m (set refs) s"
  by (auto simp: without_payments_def restrict_map_def fun_eq_iff
      intro!: arg_cong [where f = "\<lambda>x. s\<lparr>ss_payment := x\<rparr>"])

lemma pruned_refs_Cons:
  "card (pruned_refs m (ref # refs) s) =
    (if ss_payment s (m, ref) = None then card (pruned_refs m refs s)
     else Suc (card (pruned_refs m refs (s\<lparr>ss_payment := (ss_payment s)((m, ref) := None)\<rparr>))))"
proof -
  let ?s = "s\<lparr>ss_payment := (ss_payment s)((m, ref) := None)\<rparr>"
  have "pruned_refs m (ref # refs) s =
      (if ss_payment s (m, ref) = None then pruned_refs m refs s else insert ref (pruned_refs m refs ?s))"
    "ref \<notin> pruned_refs m refs ?s" "finite (pruned_refs m refs ?s)"
    by (auto simp: pruned_refs_def)
  then show ?thesis
    by simp
qed

lemma prune_each_run:
  assumes "unat n + length refs < 2 ^ 32"
  shows "prune_each m refs n s =
    Inr (n + word_of_nat (card (pruned_refs m refs s)), without_payments m (set refs) s)"
  using assms
proof (induction refs arbitrary: n s)
  case Nil
  then show ?case
    by (simp add: pruned_refs_def without_payments_def act_simps restrict_map_def)
next
  case (Cons ref refs)
  show ?case
  proof (cases "ss_payment s (m, ref)")
    case None
    then show ?thesis
      using Cons by (simp add: bind_run gets_run pruned_refs_Cons without_payments_Cons(2) del: set_simps)
  next
    case (Some rec)
    let ?s = "s\<lparr>ss_payment := (ss_payment s)((m, ref) := None)\<rparr>"
    have "unat (n + 1) + length refs < 2 ^ 32"
      using Cons.prems unat_add_u32 [of n 1] by simp
    then have "prune_each m refs (n + 1) ?s =
      Inr (n + 1 + word_of_nat (card (pruned_refs m refs ?s)), without_payments m (set refs) ?s)"
      by (rule Cons.IH)
    moreover have "prune_each m (ref # refs) n s = prune_each m refs (n + 1) ?s"
      using Some Cons.prems by (simp add: act_eval checked_add_u32_def)
    ultimately show ?thesis
      using Some by (simp only: pruned_refs_Cons without_payments_Cons(1)) (simp add: add.assoc)
  qed
qed

lemma prune_payments_ok [act_ok]:
  "prune_payments env signers m refs s = Inr r \<longleftrightarrow>
    quorum env s signers \<and> signers \<noteq> [] \<and> length refs \<le> 100 \<and>
    (let n = word_of_nat (card (pruned_refs m refs s));
         s' = pruned_count m n (without_payments m (set refs)
                (s\<lparr>st_bumps := st_bumps s @ [instance_bump, instance_bump]\<rparr>))
     in r = (n, s'\<lparr>st_events := st_events s' @ [([ScSymbol PAYMENTS_PRUNED_EVENT, ScAddress m],
          ScVec [ScAddress (hd signers), ScU32 n])]\<rparr>))"
proof (cases "length refs \<le> 100")
  case True
  then have "prune_each m refs 0 s' = Inr (word_of_nat (card (pruned_refs m refs s')),
      without_payments m (set refs) s')" for s'
    using prune_each_run [of 0 refs m s'] by simp
  moreover have "pruned_refs m refs (s\<lparr>st_bumps := b\<rparr>) = pruned_refs m refs s" for b
    by (simp add: pruned_refs_def)
  ultimately show ?thesis
    using True by (auto simp: prune_payments_def quorum_def MAX_PAYMENTS_BATCH_def Let_def act_simps act_ok
        get0_hd)
next
  case False
  then show ?thesis
    by (auto simp: prune_payments_def MAX_PAYMENTS_BATCH_def act_simps)
qed

section \<open>Payment reads\<close>

text \<open>The merchant itself, with an empty signer list, or a quorum of admins.\<close>

definition read_authorized :: "'h host_scheme \<Rightarrow> settlement_state \<Rightarrow> address \<Rightarrow> address list \<Rightarrow> bool" where
  "read_authorized env s m signers \<longleftrightarrow>
    (if signers = [] then m \<in> h_auths env else quorum env s signers)"

definition read_touches :: "address list \<Rightarrow> DataKey ttl_bump list" where
  "read_touches signers = (if signers = [] then [] else [instance_bump, instance_bump])"

lemma assert_read_authorized_Inr [act_ok]:
  "assert_read_authorized env m signers s = Inr r \<longleftrightarrow> read_authorized env s m signers \<and>
    r = ((), s\<lparr>st_bumps := st_bumps s @ read_touches signers\<rparr>)"
  by (auto simp: assert_read_authorized_def read_authorized_def read_touches_def quorum_def act_simps act_ok)

definition readable :: "settlement_state \<Rightarrow> address \<Rightarrow> bool" where
  "readable s m \<longleftrightarrow> m \<in> ss_merchant s \<and> m \<notin> ss_archived s"

lemma assert_payments_readable_Inr [act_ok]:
  "assert_payments_readable m s = Inr r \<longleftrightarrow> readable s m \<and> r = ((), s)"
  by (auto simp: assert_payments_readable_def readable_def act_simps act_ok)

lemma readable_upd [simp]: "readable (s\<lparr>st_bumps := b\<rparr>) m = readable s m"
  by (simp add: readable_def)

lemma get_payment_reference_Inr [act_ok]:
  "get_payment_reference env m ref signers s = Inr r \<longleftrightarrow>
    read_authorized env s m signers \<and> readable s m \<and>
    r = (ss_payment s (m, ref), s\<lparr>st_bumps := st_bumps s @ read_touches signers @
      (if ss_payment s (m, ref) = None then [] else [payment_bump m ref])\<rparr>)"
  by (auto simp: get_payment_reference_def act_simps act_ok)

definition found_payments :: "address \<Rightarrow> bytes32 list \<Rightarrow> settlement_state \<Rightarrow> PaymentRecord list" where
  "found_payments m refs s = List.map_filter (\<lambda>ref. ss_payment s (m, ref)) refs"

lemma collect_payments_run:
  "collect_payments m refs acc s =
    Inr (acc @ found_payments m refs s, s\<lparr>st_bumps := st_bumps s @
      map (payment_bump m) (filter (\<lambda>ref. ss_payment s (m, ref) \<noteq> None) refs)\<rparr>)"
  by (induction refs arbitrary: acc s)
    (auto simp: found_payments_def map_filter_simps act_eval extend_persistent_ttl_run split: option.splits)

lemma get_payments_Inr [act_ok]:
  "get_payments env m refs cursor signers s = Inr r \<longleftrightarrow>
    read_authorized env s m signers \<and> readable s m \<and> length refs \<le> 100 \<and>
    (length refs = 100 \<longrightarrow> unat cursor + 100 < 2 ^ 32) \<and>
    r = (\<lparr>pp_records = found_payments m refs s,
          pp_next_cursor = (if length refs = 100 then Some (cursor + 100) else None)\<rparr>,
         s\<lparr>st_bumps := st_bumps s @ read_touches signers @
           map (payment_bump m) (filter (\<lambda>ref. ss_payment s (m, ref) \<noteq> None) refs)\<rparr>)"
  by (auto simp: get_payments_def collect_payments_run found_payments_def MAX_PAYMENTS_BATCH_def act_simps
      act_ok)

lemma get_payment_count_Inr [act_ok]:
  "get_payment_count env m signers s = Inr r \<longleftrightarrow>
    read_authorized env s m signers \<and> readable s m \<and>
    r = (pay_count s m, s\<lparr>st_bumps := st_bumps s @ read_touches signers\<rparr>)"
  by (auto simp: get_payment_count_def read_payment_count_def pay_count_def act_simps act_ok)

end
