(* ===== verification/Settlement_System.thy ===== *)
theory Settlement_System
  imports Scheduler_Ops Payment_Ops
begin

text \<open>
  The settlement contract as a transition system: one label per invocation, with the host it runs
  against. The interfaces of \<open>Contract_Interfaces\<close> are interpreted on it in the theories
  \<open>Settlement_Invariant\<close>, \<open>Settlement_Promises\<close> and \<open>Settlement_Refinement\<close>.
\<close>

section \<open>Invocations\<close>

text \<open>The invocations by the part of the contract they change; the getters and previews are reads.\<close>

datatype admin_call =
    CallInit address "address list" u32 address address
  | CallUpdateGovernance "address list" address
  | CallInitiateRecovery address
  | CallCancelRecovery "address list"
  | CallUpdateRecoveryAddress "address list" address
  | CallExecuteRecovery
  | CallTransferAdmin "address list" "address list" u32
  | CallChangeThreshold "address list" u32
  | CallUpgrade "address list" bytes32
  | CallPause "address list" u32
  | CallUnpause "address list"
  | CallMigrate "address list"

datatype queue_call =
    CallSchedule "address list" Operation u64
  | CallExecute address Operation
  | CallCancel "address list" Operation
  | CallCancelAll "address list" "Operation list"

datatype merchant_call =
    CallRegisterMerchant "address list" address
  | CallUnregisterMerchant "address list" address
  | CallSetSettlementRule "address list" address SettlementRule
  | CallClearSettlementRule "address list" address
  | CallSetDefaultRule "address list" SettlementRule

datatype payment_call =
    CallStorePaymentReference address bytes32 int
  | CallPrunePayment "address list" address bytes32
  | CallPrunePayments "address list" address "bytes32 list"

datatype read_call =
    CallSupportsInterface u32
  | CallVersion
  | CallGetCapabilities
  | CallIsInitialized
  | CallGetAdmin
  | CallGetThreshold
  | CallGetGovernance
  | CallGetRecoveryAddress
  | CallIsPaused
  | CallGetPendingOperationCount
  | CallDryRun Operation
  | CallIsMerchantRegistered address
  | CallGetDefaultRule
  | CallGetSettlementRule address
  | CallGetSettlementRuleNoBump address
  | CallGetEffectiveRule address
  | CallGetRuleProvenance address
  | CallCalculateFeeSplit address int
  | CallGetPaymentReference address bytes32 "address list"
  | CallGetPayments address "bytes32 list" u32 "address list"
  | CallGetPaymentCount address "address list"

datatype settlement_call =
    AdminCall admin_call
  | QueueCall queue_call
  | MerchantCall merchant_call
  | PaymentCall payment_call
  | ReadCall read_call

text \<open>The reply is not part of a transition.\<close>

definition silently :: "('s, 'e, 'a) action \<Rightarrow> ('s, 'e, unit) action" where
  "silently m = bind m (\<lambda>_. ret ())"

lemma silently_Inr [act_simps]: "silently m s = Inr r \<longleftrightarrow> (\<exists>a s'. m s = Inr (a, s') \<and> r = ((), s'))"
  by (auto simp: silently_def act_simps)

primrec admin_dispatch :: "'h settlement_host_scheme \<Rightarrow> admin_call \<Rightarrow> unit settlement_action" where
  "admin_dispatch env (CallInit d as t g ra) = init env d as t g ra"
| "admin_dispatch env (CallUpdateGovernance sg g) = update_governance env sg g"
| "admin_dispatch env (CallInitiateRecovery a) = initiate_recovery env a"
| "admin_dispatch env (CallCancelRecovery sg) = cancel_recovery env sg"
| "admin_dispatch env (CallUpdateRecoveryAddress sg a) = update_recovery_address env sg a"
| "admin_dispatch env CallExecuteRecovery = execute_recovery env"
| "admin_dispatch env (CallTransferAdmin sg as t) = transfer_admin env sg as t"
| "admin_dispatch env (CallChangeThreshold sg t) = change_threshold env sg t"
| "admin_dispatch env (CallUpgrade sg h) = upgrade env sg h"
| "admin_dispatch env (CallPause sg reason) = pause env sg reason"
| "admin_dispatch env (CallUnpause sg) = unpause env sg"
| "admin_dispatch env (CallMigrate sg) = migrate env sg"

primrec queue_dispatch :: "'h settlement_host_scheme \<Rightarrow> queue_call \<Rightarrow> unit settlement_action" where
  "queue_dispatch env (CallSchedule sg op d) = schedule env sg op d"
| "queue_dispatch env (CallExecute ex op) = execute env ex op"
| "queue_dispatch env (CallCancel sg op) = cancel env sg op"
| "queue_dispatch env (CallCancelAll sg ops) = silently (cancel_all env sg ops)"

primrec merchant_dispatch :: "'h settlement_host_scheme \<Rightarrow> merchant_call \<Rightarrow> unit settlement_action" where
  "merchant_dispatch env (CallRegisterMerchant sg m) = register_merchant env sg m"
| "merchant_dispatch env (CallUnregisterMerchant sg m) = unregister_merchant env sg m"
| "merchant_dispatch env (CallSetSettlementRule sg m r) = set_settlement_rule env sg m r"
| "merchant_dispatch env (CallClearSettlementRule sg m) = clear_settlement_rule env sg m"
| "merchant_dispatch env (CallSetDefaultRule sg r) = set_default_rule env sg r"

primrec payment_dispatch :: "'h settlement_host_scheme \<Rightarrow> payment_call \<Rightarrow> unit settlement_action" where
  "payment_dispatch env (CallStorePaymentReference m ref a) =
    silently (store_payment_reference env m ref a)"
| "payment_dispatch env (CallPrunePayment sg m ref) = prune_payment env sg m ref"
| "payment_dispatch env (CallPrunePayments sg m refs) = silently (prune_payments env sg m refs)"

primrec read_dispatch :: "'h settlement_host_scheme \<Rightarrow> read_call \<Rightarrow> unit settlement_action" where
  "read_dispatch env (CallSupportsInterface v) = silently (supports_interface v)"
| "read_dispatch env CallVersion = silently build_version"
| "read_dispatch env CallGetCapabilities = silently get_capabilities"
| "read_dispatch env CallIsInitialized = silently is_initialized"
| "read_dispatch env CallGetAdmin = silently get_admin"
| "read_dispatch env CallGetThreshold = silently get_threshold"
| "read_dispatch env CallGetGovernance = silently get_governance"
| "read_dispatch env CallGetRecoveryAddress = silently get_recovery_address"
| "read_dispatch env CallIsPaused = silently settlement_is_paused"
| "read_dispatch env CallGetPendingOperationCount = silently get_pending_operation_count"
| "read_dispatch env (CallDryRun op) = dry_run env op"
| "read_dispatch env (CallIsMerchantRegistered m) = silently (is_merchant_registered m)"
| "read_dispatch env CallGetDefaultRule = silently get_default_rule"
| "read_dispatch env (CallGetSettlementRule m) = silently (get_settlement_rule m)"
| "read_dispatch env (CallGetSettlementRuleNoBump m) = silently (get_settlement_rule_no_bump m)"
| "read_dispatch env (CallGetEffectiveRule m) = silently (get_effective_rule env m)"
| "read_dispatch env (CallGetRuleProvenance m) = silently (get_rule_provenance env m)"
| "read_dispatch env (CallCalculateFeeSplit m a) = silently (calculate_fee_split env m a)"
| "read_dispatch env (CallGetPaymentReference m ref sg) = silently (get_payment_reference env m ref sg)"
| "read_dispatch env (CallGetPayments m refs c sg) = silently (get_payments env m refs c sg)"
| "read_dispatch env (CallGetPaymentCount m sg) = silently (get_payment_count env m sg)"

primrec settlement_dispatch :: "'h settlement_host_scheme \<Rightarrow> settlement_call \<Rightarrow> unit settlement_action" where
  "settlement_dispatch env (AdminCall c) = admin_dispatch env c"
| "settlement_dispatch env (QueueCall c) = queue_dispatch env c"
| "settlement_dispatch env (MerchantCall c) = merchant_dispatch env c"
| "settlement_dispatch env (PaymentCall c) = payment_dispatch env c"
| "settlement_dispatch env (ReadCall c) = read_dispatch env c"

type_synonym settlement_label = "settlement_host \<times> settlement_call"

text \<open>The \<open>i128\<close> argument of a payment is in range.\<close>

definition call_typed :: "settlement_call \<Rightarrow> bool" where
  "call_typed c =
    (case c of PaymentCall (CallStorePaymentReference _ _ a) \<Rightarrow> in_i128 a | _ \<Rightarrow> True)"

inductive settlement_step :: "settlement_label \<Rightarrow> settlement_state \<Rightarrow> settlement_state \<Rightarrow> bool" where
  settlement_invoke: "call_typed c \<Longrightarrow> settlement_dispatch env c s = Inr ((), s') \<Longrightarrow>
    settlement_step (env, c) s s'"

inductive_simps settlement_step_iff: "settlement_step (env, c) s s'"

definition settlement_fresh :: "bytes32 \<Rightarrow> settlement_state" where
  "settlement_fresh wasm =
    \<lparr>st_admin = None, st_threshold = None, st_paused = None, st_recovery_address = None,
     st_pending_recovery = None, st_deployer = None, st_schema_version = None, st_wasm = wasm,
     st_events = [], st_bumps = [], ss_initializing = False, ss_governance = None, ss_merchant = {},
     ss_rule = Map.empty, ss_archived = {}, ss_default_rule = None, ss_payment = Map.empty,
     ss_scheduled = Map.empty, ss_cached_gov_rule = None, ss_payment_count = Map.empty,
     ss_pending_operation_count = None\<rparr>"

section \<open>Reads\<close>

lemma get_settlement_rule_run [act_ok]:
  "get_settlement_rule m s = Inr (ss_rule s m,
    s\<lparr>st_bumps := st_bumps s @ (if ss_rule s m = None then [] else [rule_bump m])\<rparr>)"
  by (auto simp: get_settlement_rule_def act_eval extend_persistent_ttl_run split: option.splits)

lemma settlement_read_steps [act_ok]:
  "supports_interface v s = Inr (v = 1, s)"
  "build_version s = Inr (1, s)"
  "is_initialized s = Inr (st_admin s \<noteq> None, s)"
  "settlement_is_paused s = Inr (paused s, s)"
  "get_pending_operation_count s = Inr (queue_count s, s)"
  "get_default_rule s = Inr (ss_default_rule s, s)"
  "get_settlement_rule_no_bump m s = Inr (ss_rule s m, s)"
  by (simp_all add: supports_interface_def SUPPORTED_INTERFACE_VERSION_def build_version_def
      CURRENT_SCHEMA_VERSION_def is_initialized_def settlement_is_paused_def get_pending_operation_count_def
      read_pending_operation_count_def queue_count_def get_default_rule_def
      get_settlement_rule_no_bump_def act_simps)

lemma is_merchant_registered_Inr [act_ok]:
  "is_merchant_registered m s = Inr r \<longleftrightarrow> st_admin s \<noteq> None \<and> r = (m \<in> ss_merchant s, s)"
  by (auto simp: is_merchant_registered_def is_merchant_registered_read_def act_simps)

lemma foldl_flags:
  "foldl (\<lambda>flags name. flags(name \<mapsto> True)) m names = (\<lambda>n. if n \<in> set names then Some True else m n)"
  by (induction names arbitrary: m) auto

lemma get_capabilities_run [act_ok]:
  "get_capabilities s = Inr (\<lambda>n. if n \<in> set CAPABILITY_FLAGS then Some True else None, s)"
  by (simp add: get_capabilities_def foldl_flags act_simps)

lemmas settlement_getter_defs = get_admin_def get_threshold_def get_governance_def
  get_recovery_address_def get_effective_rule_def get_rule_provenance_def

end
