(* ===== verification/Fee_Split.thy ===== *)
theory Fee_Split
  imports Payment_Ops
begin

text \<open>
  The fee split of \<open>payments.rs\<close> against a reference on unbounded integers: which amounts the checked
  arithmetic accepts, that the legs are never negative and add up to the gross, and how far rounding up
  moves them.
\<close>

section \<open>The reference split\<close>

text \<open>
  On unbounded integers: the platform leg is the fee rounded up, at most the gross; the network leg is
  the fee rounded up, at most what the platform leg leaves; the merchant receives the rest.
\<close>

definition reference_split :: "int \<Rightarrow> int \<Rightarrow> int \<Rightarrow> FeeSplit" where
  "reference_split amount platform_rate network_rate =
    (let gross = max amount 0;
         platform = min (fee_ceil platform_rate gross) gross;
         network = min (fee_ceil network_rate gross) (gross - platform)
     in \<lparr>fs_gross_amount = amount, fs_platform_fee_amount = platform,
         fs_network_fee_amount = network, fs_merchant_payout_amount = gross - platform - network\<rparr>)"

text \<open>The amounts whose products with the combined rate fit into an \<open>i128\<close>.\<close>

definition split_fits :: "int \<Rightarrow> int \<Rightarrow> bool" where
  "split_fits amount rate \<longleftrightarrow> in_i128 (amount * rate) \<and> in_i128 (amount * rate + 9999)"

definition platform_rate :: "SettlementRule \<Rightarrow> int" where
  "platform_rate rule = as_i128 (platform_bps rule)"

definition network_rate :: "SettlementRule \<Rightarrow> int" where
  "network_rate rule = as_i128 (network_bps rule)"

lemma rates_nonneg [simp]: "0 \<le> platform_rate rule" "0 \<le> network_rate rule"
  by (simp_all add: platform_rate_def network_rate_def)

lemma rates_less: "platform_rate rule < 2 ^ 32" "network_rate rule < 2 ^ 32"
  unfolding platform_rate_def network_rate_def by (rule as_i128_less)+

lemma split_fits_mono:
  assumes "split_fits amount rate" "0 \<le> r" "r \<le> rate"
  shows "split_fits amount r"
proof (cases "0 \<le> amount")
  case True
  then have "0 \<le> amount * r" "amount * r \<le> amount * rate"
    using assms by (simp_all add: mult_left_mono)
  then show ?thesis
    using assms(1) by (auto simp: split_fits_def in_i128_def i128_min_def)
next
  case False
  then have "amount * rate \<le> amount * r" "amount * r \<le> 0"
    using assms by (simp_all add: mult_left_mono_neg mult_nonpos_nonneg)
  then show ?thesis
    using assms(1) by (auto simp: split_fits_def in_i128_def i128_max_def)
qed

lemma checked_product:
  "Option.bind (checked_mul a r) (\<lambda>n. checked_add n 9999) = None \<longleftrightarrow> \<not> split_fits a r"
  by (auto simp: split_fits_def checked_mul_def checked_add_def)

lemma sdiv_in_i128:
  assumes "in_i128 x"
  shows "in_i128 (x sdiv 10000)"
proof -
  have "\<bar>x\<bar> div 10000 \<le> \<bar>x\<bar>" "0 \<le> \<bar>x\<bar> div 10000"
    using zdiv_mono2 [of "\<bar>x\<bar>" 1 10000] by (simp_all add: pos_imp_zdiv_nonneg_iff)
  then show ?thesis
    using assms by (cases "0 \<le> x") (auto simp: signed_divide_int_def in_i128_def i128_min_def i128_max_def sgn_if)
qed

lemma calculate_fee_ceil_fits:
  assumes "split_fits amount (as_i128 b)"
  shows "calculate_fee_ceil b amount = Some ((amount * as_i128 b + 9999) sdiv 10000)"
  using assms sdiv_in_i128
  by (auto simp: calculate_fee_ceil_def split_fits_def checked_mul_def checked_add_def checked_div_def)

lemma fee_sdiv: "0 \<le> amount \<Longrightarrow> 0 \<le> rate \<Longrightarrow> (amount * rate + 9999) sdiv 10000 = fee_ceil rate amount"
  by (simp add: sdiv_nonneg fee_ceil_div)

lemma saturating_sub_id: "0 \<le> a - b \<Longrightarrow> a - b \<le> i128_max \<Longrightarrow> saturating_sub a b = a - b"
  by (simp add: saturating_sub_def i128_min_def)

lemma clamp_fee_legs_eq:
  assumes "in_i128 gross" "0 \<le> gross \<longrightarrow> p = fee_ceil pr gross \<and> n = fee_ceil nr gross" "0 \<le> pr" "0 \<le> nr"
  shows "clamp_fee_legs gross p n =
    (fs_platform_fee_amount (reference_split gross pr nr), fs_network_fee_amount (reference_split gross pr nr),
     fs_merchant_payout_amount (reference_split gross pr nr))"
proof (cases "0 \<le> gross")
  case True
  then have "0 \<le> p" "0 \<le> n" "p = fee_ceil pr gross" "n = fee_ceil nr gross"
    using assms by (simp_all add: fee_ceil_nonneg)
  then show ?thesis
    using True assms(1)
    by (auto simp: clamp_fee_legs_def reference_split_def clamp_i128_def Let_def saturating_sub_id in_i128_def
        max_def min_def)
next
  case False
  then show ?thesis
    by (auto simp: clamp_fee_legs_def reference_split_def clamp_i128_def Let_def saturating_sub_def max_def
        min_def fee_ceil_div i128_min_def i128_max_def)
qed

text \<open>The \<open>debug_assert!\<close> lines of the source, which a release build drops, never fail.\<close>

lemma clamp_fee_legs_asserts:
  assumes "in_i128 gross" "clamp_fee_legs gross p n = (platform_fee, network_fee, payout)"
  shows "0 \<le> payout" "platform_fee + network_fee \<le> max gross 0"
proof -
  define g where "g = max gross 0"
  define a where "a = clamp_i128 p 0 g"
  have g: "0 \<le> g" "g \<le> i128_max"
    using assms(1) by (auto simp: g_def in_i128_def i128_max_def)
  then have a: "0 \<le> a" "a \<le> g"
    by (auto simp: a_def clamp_i128_def)
  then have rest: "saturating_sub g a = g - a"
    using g by (simp add: saturating_sub_def i128_min_def)
  define b where "b = clamp_i128 n 0 (g - a)"
  have b: "0 \<le> b" "b \<le> g - a"
    using a by (auto simp: b_def clamp_i128_def)
  then have "saturating_sub (g - a) b = g - a - b"
    using g a by (simp add: saturating_sub_def i128_min_def)
  then have "platform_fee = a" "network_fee = b" "payout = g - a - b"
    using assms(2) by (simp_all add: clamp_fee_legs_def Let_def g_def [symmetric] a_def [symmetric] rest
        b_def [symmetric])
  then show "0 \<le> payout" "platform_fee + network_fee \<le> max gross 0"
    using b by (simp_all add: g_def)
qed

section \<open>The split of the contract\<close>

lemma sum_rate:
  "(case checked_add (platform_rate r) (network_rate r) of Some n \<Rightarrow> n | None \<Rightarrow> i128_max) =
    platform_rate r + network_rate r"
proof -
  define x where "x = platform_rate r + network_rate r"
  have "0 \<le> x" "x < 2 ^ 33"
    using rates_less [of r] by (simp_all add: x_def)
  then have "in_i128 x"
    by (simp add: in_i128_def i128_min_def i128_max_def)
  then show ?thesis
    by (simp add: checked_add_def x_def)
qed

lemma calculate_split_run:
  assumes "in_i128 amount"
  shows "calculate_split amount rule s =
    (if split_fits amount (platform_rate rule + network_rate rule)
     then Inr (reference_split amount (platform_rate rule) (network_rate rule), s)
     else Inl (ContractError AmountOverflow))"
proof (cases "split_fits amount (platform_rate rule + network_rate rule)")
  case True
  then have fits: "split_fits amount (max (platform_rate rule) (network_rate rule))"
    "split_fits amount (platform_rate rule)" "split_fits amount (network_rate rule)"
    by (auto intro!: split_fits_mono [OF True] simp: max_def)
  have ceil: "calculate_fee_ceil (platform_bps rule) amount =
      Some ((amount * platform_rate rule + 9999) sdiv 10000)"
    "calculate_fee_ceil (network_bps rule) amount =
      Some ((amount * network_rate rule + 9999) sdiv 10000)"
    using fits calculate_fee_ceil_fits by (simp_all add: platform_rate_def network_rate_def)
  have legs: "clamp_fee_legs amount ((amount * platform_rate rule + 9999) sdiv 10000)
      ((amount * network_rate rule + 9999) sdiv 10000) =
    (fs_platform_fee_amount (reference_split amount (platform_rate rule) (network_rate rule)),
     fs_network_fee_amount (reference_split amount (platform_rate rule) (network_rate rule)),
     fs_merchant_payout_amount (reference_split amount (platform_rate rule) (network_rate rule)))"
    using assms by (intro clamp_fee_legs_eq) (auto simp: fee_sdiv)
  show ?thesis
    using True fits
    by (simp add: calculate_split_def platform_rate_def [symmetric] network_rate_def [symmetric] sum_rate
        checked_product ceil legs act_eval)
      (simp add: reference_split_def Let_def)
next
  case False
  then show ?thesis
    by (simp add: calculate_split_def platform_rate_def [symmetric] network_rate_def [symmetric] sum_rate
        checked_product act_eval)
qed

lemma splits_to_iff:
  assumes "in_i128 amount"
  shows "splits_to amount rule split \<longleftrightarrow>
    split_fits amount (platform_rate rule + network_rate rule) \<and>
    split = reference_split amount (platform_rate rule) (network_rate rule)"
  using assms by (auto simp: splits_to_def calculate_split_run)

text \<open>No leg is negative and the legs add up to the gross.\<close>

lemma reference_split_conserves:
  assumes "0 \<le> p" "0 \<le> n"
  shows "0 \<le> fs_platform_fee_amount (reference_split amount p n)"
    "0 \<le> fs_network_fee_amount (reference_split amount p n)"
    "0 \<le> fs_merchant_payout_amount (reference_split amount p n)"
    "fs_platform_fee_amount (reference_split amount p n) + fs_network_fee_amount (reference_split amount p n) +
      fs_merchant_payout_amount (reference_split amount p n) = max amount 0"
  using fee_ceil_nonneg [of "max amount 0" p] fee_ceil_nonneg [of "max amount 0" n] assms
  by (auto simp: reference_split_def Let_def)

section \<open>Rounding\<close>

lemma valid_rule_rates:
  assumes "valid_rule rule"
  shows "5 \<le> platform_rate rule" "platform_rate rule \<le> 5000" "5 \<le> network_rate rule" "network_rate rule \<le> 5000"
proof -
  have rates: "platform_rate rule = int (unat (sr_platform_fee_bps rule))"
    "network_rate rule = int (unat (sr_network_fee_bps rule))"
    by (simp_all add: platform_rate_def network_rate_def as_i128_def platform_bps_def network_bps_def)
  show "5 \<le> platform_rate rule" "platform_rate rule \<le> 5000" "5 \<le> network_rate rule" "network_rate rule \<le> 5000"
    unfolding rates using assms by (simp_all only: valid_rule_def) linarith+
qed

text \<open>A fee rounded up exceeds the exact fee by less than one unit.\<close>

lemma fee_ceil_bounds: "amount * rate \<le> 10000 * fee_ceil rate amount"
  "10000 * fee_ceil rate amount < amount * rate + 10000"
proof -
  have "amount * rate + 9999 = 10000 * fee_ceil rate amount + (amount * rate + 9999) mod 10000"
    by (simp add: fee_ceil_div)
  moreover have "0 \<le> (amount * rate + 9999) mod 10000" "(amount * rate + 9999) mod 10000 < 10000"
    by simp_all
  ultimately show "amount * rate \<le> 10000 * fee_ceil rate amount"
    "10000 * fee_ceil rate amount < amount * rate + 10000"
    by linarith+
qed

lemma reference_split_rounding:
  assumes "0 \<le> amount" "0 \<le> p" "p \<le> 10000" "0 \<le> n"
  shows "fs_platform_fee_amount (reference_split amount p n) = fee_ceil p amount"
    "fs_network_fee_amount (reference_split amount p n) \<le> fee_ceil n amount"
    "amount * (10000 - p - n) - 20000 < 10000 * fs_merchant_payout_amount (reference_split amount p n)"
proof -
  have platform: "fs_platform_fee_amount (reference_split amount p n) = fee_ceil p amount"
    using assms fee_ceil_le_amount [of amount p] by (simp add: reference_split_def Let_def)
  have network: "fs_network_fee_amount (reference_split amount p n) \<le> fee_ceil n amount"
    using assms(1) by (simp add: reference_split_def Let_def)
  have "fs_merchant_payout_amount (reference_split amount p n) =
      amount - fs_platform_fee_amount (reference_split amount p n) -
      fs_network_fee_amount (reference_split amount p n)"
    using assms by (simp add: reference_split_def Let_def)
  moreover have "amount * (10000 - p - n) = 10000 * amount - amount * p - amount * n"
    by (simp add: algebra_simps)
  ultimately have "amount * (10000 - p - n) - 20000 <
      10000 * fs_merchant_payout_amount (reference_split amount p n)"
    using fee_ceil_bounds(2) [of p amount] fee_ceil_bounds(2) [of n amount] platform network by linarith
  with platform network show
    "fs_platform_fee_amount (reference_split amount p n) = fee_ceil p amount"
    "fs_network_fee_amount (reference_split amount p n) \<le> fee_ceil n amount"
    "amount * (10000 - p - n) - 20000 < 10000 * fs_merchant_payout_amount (reference_split amount p n)"
    by simp_all
qed

text \<open>Both fees and the payout exactly: the network leg is clamped only to what the platform leg leaves.\<close>

lemma reference_split_legs:
  assumes "0 \<le> amount" "0 \<le> p" "p \<le> 10000" "0 \<le> n"
  shows "fs_network_fee_amount (reference_split amount p n) = min (fee_ceil n amount) (amount - fee_ceil p amount)"
    "p + n \<le> 10000 \<Longrightarrow>
      10000 * fs_merchant_payout_amount (reference_split amount p n) \<le> amount * (10000 - p - n)"
proof -
  have legs: "fs_network_fee_amount (reference_split amount p n) = min (fee_ceil n amount) (amount - fee_ceil p amount)"
    "fs_merchant_payout_amount (reference_split amount p n) =
      amount - fee_ceil p amount - min (fee_ceil n amount) (amount - fee_ceil p amount)"
    using assms fee_ceil_le_amount [of amount p] by (simp_all add: reference_split_def Let_def)
  then show "fs_network_fee_amount (reference_split amount p n) = min (fee_ceil n amount) (amount - fee_ceil p amount)"
    by simp
  assume "p + n \<le> 10000"
  then have "0 \<le> amount * (10000 - p - n)"
    using assms by simp
  moreover have "amount * (10000 - p - n) = 10000 * amount - amount * p - amount * n"
    by (simp add: algebra_simps)
  ultimately show "10000 * fs_merchant_payout_amount (reference_split amount p n) \<le> amount * (10000 - p - n)"
    using fee_ceil_bounds(1) [of amount p] fee_ceil_bounds(1) [of amount n] unfolding legs min_def by auto
qed

section \<open>Monotonicity\<close>

text \<open>What a fee of at most the whole leaves of the amount does not shrink either.\<close>

lemma fee_rest_mono:
  assumes "a \<le> b" "0 \<le> rate" "rate \<le> 10000"
  shows "a - fee_ceil rate a \<le> b - fee_ceil rate b"
proof -
  have "(b - a) * rate \<le> (b - a) * 10000"
    using assms by (intro mult_left_mono) simp_all
  then have "b * rate + 9999 \<le> (a * rate + 9999) + (b - a) * 10000"
    by (simp add: algebra_simps)
  then have "(b * rate + 9999) div 10000 \<le> ((a * rate + 9999) + (b - a) * 10000) div 10000"
    by (rule zdiv_mono1) simp
  then show ?thesis
    by (simp add: fee_ceil_div)
qed

lemma fee_rest_nonpos:
  assumes "0 \<le> a" "10000 \<le> rate"
  shows "a \<le> fee_ceil rate a"
proof -
  have "a * 10000 \<le> a * rate"
    using assms by (intro mult_left_mono) simp_all
  then show ?thesis
    using fee_ceil_bounds(1) [of a rate] by linarith
qed

lemma reference_split_mono:
  assumes "0 \<le> a" "a \<le> b" "0 \<le> p" "0 \<le> n"
  shows "fs_platform_fee_amount (reference_split a p n) \<le> fs_platform_fee_amount (reference_split b p n)"
    "fs_network_fee_amount (reference_split a p n) \<le> fs_network_fee_amount (reference_split b p n)"
    "p + n \<le> 10000 \<Longrightarrow>
      fs_merchant_payout_amount (reference_split a p n) \<le> fs_merchant_payout_amount (reference_split b p n) + 1"
proof -
  have mono: "fee_ceil p a \<le> fee_ceil p b" "fee_ceil n a \<le> fee_ceil n b"
    using fee_ceil_mono [of a b] assms by simp_all
  have rest: "max 0 (a - fee_ceil p a) \<le> max 0 (b - fee_ceil p b)"
    using fee_rest_mono [of a b p] fee_rest_nonpos [of a p] assms by (cases "p \<le> 10000") auto
  show "fs_platform_fee_amount (reference_split a p n) \<le> fs_platform_fee_amount (reference_split b p n)"
    using mono assms by (simp add: reference_split_def Let_def min_le_iff_disj)
  show "fs_network_fee_amount (reference_split a p n) \<le> fs_network_fee_amount (reference_split b p n)"
    using mono rest assms by (simp add: reference_split_def Let_def) linarith
  assume le: "p + n \<le> 10000"
  have "fs_merchant_payout_amount (reference_split a p n) \<le> max 0 (a - fee_ceil p a - fee_ceil n a)"
    using assms fee_ceil_nonneg [of a n] by (auto simp: reference_split_def Let_def)
  moreover have "0 \<le> fs_merchant_payout_amount (reference_split b p n)"
    using reference_split_conserves(3) assms by blast
  moreover have "a * (10000 - p - n) \<le> b * (10000 - p - n)"
    using assms le by (intro mult_right_mono) simp_all
  moreover have "a * (10000 - p - n) = 10000 * a - a * p - a * n"
    by (simp add: algebra_simps)
  ultimately show "fs_merchant_payout_amount (reference_split a p n) \<le>
      fs_merchant_payout_amount (reference_split b p n) + 1"
    using reference_split_rounding(3) [of b p n] fee_ceil_bounds(1) [of a p] fee_ceil_bounds(1) [of a n] assms le
    by linarith
qed

lemma split_fits_less:
  assumes "split_fits b rate" "0 \<le> a" "a \<le> b" "0 \<le> rate"
  shows "split_fits a rate"
proof -
  have "0 \<le> a * rate" "a * rate \<le> b * rate"
    using assms by (simp_all add: mult_right_mono)
  then show ?thesis
    using assms(1) by (auto simp: split_fits_def in_i128_def i128_min_def)
qed

section \<open>Storing a payment\<close>

lemma increment_payment_count_eval:
  "increment_payment_count m s =
    (if pay_count s m = 0xFFFFFFFF then Inl Trap
     else Inr ((), s\<lparr>ss_payment_count := (ss_payment_count s)(m \<mapsto> pay_count s m + 1),
       st_bumps := st_bumps s @ [count_bump m]\<rparr>))"
proof -
  define n where "n = pay_count s m"
  have "unat n + 1 < 2 ^ 32 \<longleftrightarrow> n \<noteq> 0xFFFFFFFF"
    using unat_u32_less [of n] by (auto simp: word_unat_eq_iff)
  then have "checked_add_u32 n 1 = (if n = 0xFFFFFFFF then None else Some (n + 1))"
    by (simp add: checked_add_u32_def)
  then show ?thesis
    by (simp add: increment_payment_count_def read_payment_count_def pay_count_def [symmetric]
        n_def host_eval)
qed

text \<open>The outcome of storing a payment, on every input.\<close>

lemma store_payment_reference_run:
  assumes "in_i128 amount"
  shows "store_payment_reference env m ref amount s =
    (if ref = 0 then Inl (ContractError InvalidPaymentReference)
     else if paused s then Inl (ContractError Paused)
     else if m \<notin> h_auths env then Inl AuthError
     else if m \<notin> ss_merchant s then Inl (ContractError MerchantMissing)
     else if amount < min_payment env s then Inl (ContractError AmountTooSmall)
     else if ss_payment s (m, ref) \<noteq> None then Inl (ContractError DuplicatePaymentReference)
     else (case effective_rule env s m of
         Inl e \<Rightarrow> Inl (ContractError e)
       | Inr e \<Rightarrow>
          (let p = platform_rate (er_rule e); n = network_rate (er_rule e) in
           if \<not> split_fits amount (p + n) then Inl (ContractError AmountOverflow)
           else if pay_count s m = 0xFFFFFFFF then Inl Trap
           else Inr (reference_split amount p n,
             stored_payment env m ref amount (er_rule e) (reference_split amount p n) s))))"
proof (cases "ref \<noteq> 0 \<and> \<not> paused s \<and> m \<in> h_auths env \<and> m \<in> ss_merchant s \<and>
    \<not> amount < min_payment env s \<and> ss_payment s (m, ref) = None")
  case False
  then show ?thesis
    by (auto simp: store_payment_reference_def assert_not_paused_def is_paused_run
        is_merchant_registered_and_bump_ttl_run read_min_payment_amount_run host_eval)
next
  case True
  show ?thesis
    using True
    by (cases "effective_rule env s m"; cases "ss_rule s m")
      (auto simp: store_payment_reference_def assert_not_paused_def is_paused_run
        is_merchant_registered_and_bump_ttl_run read_min_payment_amount_run read_rule_or_default_run
        calculate_split_run [OF assms] increment_payment_count_eval set_payment_def stored_payment_def new_record_def Let_def
        host_eval)
qed

end
