(* ===== verification/Settlement_Invariant.thy ===== *)
theory Settlement_Invariant
  imports Settlement_System Fee_Split
begin

text \<open>
  What an invocation of the settlement contract can and cannot change. The first part shows the frame
  of each group of invocations: admin calls leave merchants, payments and the queue alone, and so on.
  The second part states the invariant of the contract's storage and shows that every invocation keeps
  it; \<open>settlement_inv\<close> is the interpretation of \<open>step_invariant\<close>.
\<close>

section \<open>What each part leaves alone\<close>

definition admin_view where
  "admin_view s = (st_admin s, st_threshold s, st_paused s, st_recovery_address s, st_pending_recovery s,
    st_schema_version s, ss_governance s, ss_initializing (s :: settlement_state))"

definition merchant_view where
  "merchant_view s = (ss_merchant s, ss_rule s, ss_archived s, ss_default_rule (s :: settlement_state))"

definition payment_view where
  "payment_view s = (ss_payment s, ss_payment_count (s :: settlement_state))"

definition queue_view where
  "queue_view s = (ss_scheduled s, ss_pending_operation_count (s :: settlement_state))"

lemmas view_defs = admin_view_def merchant_view_def payment_view_def queue_view_def

lemma admin_frame:
  assumes "admin_dispatch env c s = Inr ((), s')"
  shows "merchant_view s' = merchant_view s" "payment_view s' = payment_view s" "queue_view s' = queue_view s"
  using assms by (cases c; auto simp: view_defs act_simps act_ok)+

lemma merchant_frame:
  assumes "merchant_dispatch env c s = Inr ((), s')"
  shows "admin_view s' = admin_view s" "payment_view s' = payment_view s" "queue_view s' = queue_view s"
  using assms by (cases c; auto simp: view_defs unregistered_def rule_set_def rule_cleared_def default_set_def
      act_simps act_ok)+

lemma pruned_views [simp]:
  "admin_view (pruned_count m n s) = admin_view s" "merchant_view (pruned_count m n s) = merchant_view s"
  "queue_view (pruned_count m n s) = queue_view s" "ss_payment (pruned_count m n s) = ss_payment s"
  "admin_view (without_payments m refs s) = admin_view s"
  "merchant_view (without_payments m refs s) = merchant_view s"
  "queue_view (without_payments m refs s) = queue_view s"
  "ss_payment_count (without_payments m refs s) = ss_payment_count s"
  by (simp_all add: pruned_count_def without_payments_def view_defs)

lemma views_upd [simp]:
  "admin_view (s\<lparr>st_events := e\<rparr>) = admin_view s" "merchant_view (s\<lparr>st_events := e\<rparr>) = merchant_view s"
  "payment_view (s\<lparr>st_events := e\<rparr>) = payment_view s" "queue_view (s\<lparr>st_events := e\<rparr>) = queue_view s"
  "admin_view (s\<lparr>st_bumps := b\<rparr>) = admin_view s" "merchant_view (s\<lparr>st_bumps := b\<rparr>) = merchant_view s"
  "payment_view (s\<lparr>st_bumps := b\<rparr>) = payment_view s" "queue_view (s\<lparr>st_bumps := b\<rparr>) = queue_view s"
  by (simp_all add: view_defs)

lemma payment_frame:
  assumes "payment_dispatch env c s = Inr ((), s')"
  shows "admin_view s' = admin_view s" "merchant_view s' = merchant_view s" "queue_view s' = queue_view s"
proof -
  have "admin_view s' = admin_view s \<and> merchant_view s' = merchant_view s \<and> queue_view s' = queue_view s"
  proof (cases c)
    case (CallStorePaymentReference m ref a)
    then show ?thesis
      using assms by (auto simp: view_defs stored_payment_def act_simps act_ok)
  next
    case (CallPrunePayment sg m ref)
    then show ?thesis
      using assms by (cases "ss_payment s (m, ref)") (auto simp: view_defs act_simps act_ok)
  next
    case (CallPrunePayments sg m refs)
    then show ?thesis
      using assms by (simp add: act_simps act_ok Let_def)
  qed
  then show "admin_view s' = admin_view s" "merchant_view s' = merchant_view s" "queue_view s' = queue_view s"
    by simp_all
qed

lemma read_frame:
  assumes "read_dispatch env c s = Inr ((), s')"
  shows "admin_view s' = admin_view s" "merchant_view s' = merchant_view s"
    "payment_view s' = payment_view s" "queue_view s' = queue_view s"
  using assms by (cases c; auto simp: view_defs settlement_getter_defs act_simps act_ok)+

lemma operation_frame:
  assumes "dispatch_operation env ex op s = Inr ((), s')"
  shows "payment_view s' = payment_view s" "queue_view s' = queue_view s" "st_paused s' = st_paused s"
  using assms by (cases op; auto simp: view_defs unregistered_def rule_set_def rule_cleared_def default_set_def
      act_simps act_ok)+

text \<open>Apart from execution, an invocation on the queue changes the queue only.\<close>

lemma cancel_each_frame:
  assumes "cancel_each env ops n s = Inr (c, s')" "unat n + length ops < 2 ^ 32"
  shows "queue_drained (cancelled_slots env ops s) s s' \<and> unat c = unat n + card (cancelled_slots env ops s)"
  using cancel_each_run [OF assms(2), of env s] assms(1) by auto

lemma queue_drained_frame:
  assumes "queue_drained slots s s'"
  shows "admin_view s' = admin_view s" "merchant_view s' = merchant_view s"
    "payment_view s' = payment_view s" "ss_scheduled s' = ss_scheduled s |` (- slots)"
  using assms by (auto simp: queue_drained_def view_defs)

lemma cancelled_slots_upd [simp]:
  "cancelled_slots env ops (s\<lparr>st_bumps := b\<rparr>) = cancelled_slots env ops s"
  by (simp add: cancelled_slots_def queued_def)

text \<open>A batch cancellation, with the slots it empties.\<close>

lemma cancel_all_frame:
  assumes "cancel_all env signers ops s = Inr (c, s')"
  shows "admin_view s' = admin_view s" "merchant_view s' = merchant_view s" "payment_view s' = payment_view s"
    "ss_scheduled s' = ss_scheduled s |` (- cancelled_slots env ops s)"
    "unat (queue_count s') = unat (queue_count s) - card (cancelled_slots env ops s)"
    "unat c = card (cancelled_slots env ops s)"
proof -
  let ?s = "s\<lparr>st_bumps := st_bumps s @ [instance_bump, instance_bump]\<rparr>"
  from assms obtain s1 where s1: "cancel_each env ops 0 ?s = Inr (c, s1)" "length ops \<le> 50"
    "s' = s1\<lparr>st_events := st_events s1 @
      [([ScSymbol OP_CANCELLED_EVENT], ScVec [ScAddress (hd signers), ScU32 c])]\<rparr>"
    by (auto simp: act_ok)
  then have d: "queue_drained (cancelled_slots env ops s) ?s s1" "unat c = card (cancelled_slots env ops s)"
    using cancel_each_frame [OF s1(1)] by auto
  note f = queue_drained_frame [OF d(1)]
  show "admin_view s' = admin_view s" "merchant_view s' = merchant_view s" "payment_view s' = payment_view s"
    "ss_scheduled s' = ss_scheduled s |` (- cancelled_slots env ops s)"
    using f by (simp_all add: s1(3) view_defs)
  show "unat (queue_count s') = unat (queue_count s) - card (cancelled_slots env ops s)"
    using d(1) by (simp add: s1(3) queue_drained_def queue_count_def)
  show "unat c = card (cancelled_slots env ops s)"
    by (rule d(2))
qed

lemma queue_frame:
  assumes "queue_dispatch env c s = Inr ((), s')" "\<forall>ex op. c \<noteq> CallExecute ex op"
  shows "admin_view s' = admin_view s" "merchant_view s' = merchant_view s" "payment_view s' = payment_view s"
proof -
  have "admin_view s' = admin_view s \<and> merchant_view s' = merchant_view s \<and> payment_view s' = payment_view s"
  proof (cases c)
    case (CallSchedule sg op d)
    then show ?thesis
      using assms(1) by (simp add: view_defs enqueued_def schedule_Inr)
  next
    case (CallExecute ex op)
    then show ?thesis
      using assms(2) by simp
  next
    case (CallCancel sg op)
    then show ?thesis
      using assms(1) by (simp add: view_defs cancel_Inr)
  next
    case (CallCancelAll sg ops)
    then obtain n where "cancel_all env sg ops s = Inr (n, s')"
      using assms(1) by (auto simp: silently_Inr)
    then show ?thesis
      using cancel_all_frame(1-3) by blast
  qed
  then show "admin_view s' = admin_view s" "merchant_view s' = merchant_view s" "payment_view s' = payment_view s"
    by simp_all
qed

section \<open>The invariant\<close>

definition admin_wf :: "settlement_state \<Rightarrow> bool" where
  "admin_wf s \<longleftrightarrow> shared_wf s \<and> \<not> ss_initializing s \<and>
    (if st_admin s = None then ss_governance s = None
     else ss_governance s \<noteq> None \<and> ss_governance s \<noteq> Some zero_address)"

definition merchants_wf :: "settlement_state \<Rightarrow> bool" where
  "merchants_wf s \<longleftrightarrow> zero_address \<notin> ss_merchant s \<and> ss_merchant s \<inter> ss_archived s = {} \<and>
    (\<forall>m r. ss_rule s m = Some r \<longrightarrow> valid_rule r \<and> m \<in> ss_merchant s) \<and>
    pred_option valid_rule (ss_default_rule s)"

text \<open>A stored record belongs to its key's merchant, and its legs are not negative and add up to the gross.\<close>

definition record_wf :: "address \<Rightarrow> PaymentRecord \<Rightarrow> bool" where
  "record_wf m p \<longleftrightarrow> pay_merchant p = m \<and> 0 \<le> pay_platform_fee_amount p \<and> 0 \<le> pay_network_fee_amount p \<and>
    0 \<le> pay_merchant_payout_amount p \<and>
    pay_platform_fee_amount p + pay_network_fee_amount p + pay_merchant_payout_amount p = max (pay_amount p) 0 \<and>
    pay_version p = 1"

definition payments_wf :: "settlement_state \<Rightarrow> bool" where
  "payments_wf s \<longleftrightarrow>
    (\<forall>m ref p. ss_payment s (m, ref) = Some p \<longrightarrow> ref \<noteq> 0 \<and> record_wf m p)"

text \<open>Nothing is queued before initialisation.\<close>

definition queue_wf :: "settlement_state \<Rightarrow> bool" where
  "queue_wf s \<longleftrightarrow> (st_admin s = None \<longrightarrow> ss_scheduled s = Map.empty)"

definition settlement_wf :: "settlement_state \<Rightarrow> bool" where
  "settlement_wf s \<longleftrightarrow> admin_wf s \<and> merchants_wf s \<and> payments_wf s \<and> queue_wf s"

lemma admin_wf_cong:
  assumes "admin_view s' = admin_view s"
  shows "admin_wf s' = admin_wf s"
proof -
  have e: "st_admin s' = st_admin s" "st_threshold s' = st_threshold s"
    "st_recovery_address s' = st_recovery_address s" "st_pending_recovery s' = st_pending_recovery s"
    "ss_governance s' = ss_governance s" "ss_initializing s' = ss_initializing s"
    using assms by (simp_all add: admin_view_def)
  show ?thesis
    unfolding admin_wf_def shared_wf_def e by (rule refl)
qed

lemma merchants_wf_cong: "merchant_view s' = merchant_view s \<Longrightarrow> merchants_wf s' = merchants_wf s"
  by (simp add: merchants_wf_def merchant_view_def)

lemma payments_wf_cong: "payment_view s' = payment_view s \<Longrightarrow> payments_wf s' = payments_wf s"
  by (simp add: payments_wf_def payment_view_def)

lemma shared_wf_admins:
  assumes "shared_wf s" "valid_admins as t" "st_admin s \<noteq> None"
  shows "shared_wf (s\<lparr>st_admin := Some as, st_threshold := Some t\<rparr>)"
  using assms by (auto simp: shared_wf_def valid_admins_def split: option.splits)

lemma admin_call_wf:
  assumes "admin_dispatch env c s = Inr ((), s')" "admin_wf s"
  shows "admin_wf s'"
  using assms
  by (cases c)
    (auto simp: admin_wf_def shared_wf_def valid_admins_def quorum_def admin_quorum_def act_simps act_ok
      split: option.splits if_splits)

lemma merchants_wf_register:
  assumes "merchants_wf s" "m \<noteq> zero_address"
  shows "merchants_wf (s\<lparr>ss_merchant := insert m (ss_merchant s), ss_archived := ss_archived s - {m}\<rparr>)"
  using assms by (auto simp: merchants_wf_def)

lemma merchants_wf_unregister:
  assumes "merchants_wf s"
  shows "merchants_wf (unregistered env who m s)"
  using assms by (auto simp: merchants_wf_def unregistered_def)

lemma merchants_wf_rule:
  assumes "merchants_wf s" "valid_rule r" "m \<in> ss_merchant s"
  shows "merchants_wf (rule_set env who m r prev s)"
  using assms by (auto simp: merchants_wf_def rule_set_def)

lemma merchants_wf_clear:
  assumes "merchants_wf s"
  shows "merchants_wf (rule_cleared env who m removed fallback s)"
  using assms by (auto simp: merchants_wf_def rule_cleared_def)

lemma merchants_wf_default:
  assumes "merchants_wf s" "valid_rule r"
  shows "merchants_wf (default_set who r s)"
  using assms by (auto simp: merchants_wf_def default_set_def)

lemma merchants_wf_upd [simp]:
  "merchants_wf (s\<lparr>st_bumps := b\<rparr>) = merchants_wf s" "merchants_wf (s\<lparr>st_events := e\<rparr>) = merchants_wf s"
  by (simp_all add: merchants_wf_def)

lemma merchant_call_wf:
  assumes "merchant_dispatch env c s = Inr ((), s')" "merchants_wf s"
  shows "merchants_wf s'"
proof (cases c)
  case (CallRegisterMerchant sg m)
  then have "merchants_wf (s\<lparr>ss_merchant := insert m (ss_merchant s), ss_archived := ss_archived s - {m}\<rparr>)"
    using assms by (intro merchants_wf_register) (auto simp: act_ok)
  then show ?thesis
    using assms(1) CallRegisterMerchant by (auto simp: act_ok merchants_wf_def)
next
  case (CallSetSettlementRule sg m r)
  then show ?thesis
    using assms by (auto simp: act_ok intro: merchants_wf_rule)
qed (use assms in \<open>auto simp: act_ok intro: merchants_wf_unregister merchants_wf_clear merchants_wf_default\<close>)

lemma operation_admin_wf:
  assumes "dispatch_operation env ex op s = Inr ((), s')" "admin_wf s" "st_admin s \<noteq> None"
  shows "admin_wf s'"
proof (cases "\<exists>g as t. op = UpdateGovernance g \<or> op = TransferAdmin as t \<or> op = CancelRecovery")
  case True
  then show ?thesis
    using assms by (auto simp: admin_wf_def shared_wf_def valid_admins_def act_ok split: option.splits if_splits)
next
  case False
  then have "admin_view s' = admin_view s"
    using assms(1) by (cases op) (auto simp: view_defs unregistered_def rule_set_def rule_cleared_def
        default_set_def act_ok)
  then show ?thesis
    using admin_wf_cong assms(2) by blast
qed

lemma operation_merchants_wf:
  assumes "dispatch_operation env ex op s = Inr ((), s')" "merchants_wf s"
  shows "merchants_wf s'"
proof (cases op)
  case (RegisterMerchant m)
  then have "merchants_wf (s\<lparr>ss_merchant := insert m (ss_merchant s), ss_archived := ss_archived s - {m}\<rparr>)"
    using assms by (intro merchants_wf_register) (auto simp: act_ok)
  then show ?thesis
    using assms(1) RegisterMerchant by (auto simp: act_ok merchants_wf_def)
next
  case (SetSettlementRule m r)
  then show ?thesis
    using assms by (auto simp: act_ok intro: merchants_wf_rule)
next
  case (UnregisterMerchant m)
  then show ?thesis
    using assms by (auto simp: act_ok intro: merchants_wf_unregister)
next
  case (ClearSettlementRule m)
  then show ?thesis
    using assms by (auto simp: act_ok intro: merchants_wf_clear)
next
  case (SetDefaultRule r)
  then show ?thesis
    using assms by (auto simp: act_ok intro: merchants_wf_default)
qed (use assms in \<open>auto simp: act_ok merchants_wf_def\<close>)

lemma operation_admin_kept:
  assumes "dispatch_operation env ex op s = Inr ((), s')" "st_admin s \<noteq> None"
  shows "st_admin s' \<noteq> None"
  using assms by (cases op) (auto simp: unregistered_def rule_set_def rule_cleared_def default_set_def act_ok)

lemma payments_wf_store:
  assumes "payments_wf s" "splits_to amount rule split" "in_i128 amount" "ref \<noteq> 0"
  shows "payments_wf (stored_payment env m ref amount rule split s)"
proof -
  have "record_wf m (new_record env m amount rule split)"
    using assms reference_split_conserves [of "platform_rate rule" "network_rate rule" amount]
    by (simp add: record_wf_def new_record_def splits_to_iff)
  then show ?thesis
    using assms by (auto simp: payments_wf_def stored_payment_def)
qed

lemma payments_wf_subset:
  assumes "payments_wf s" "ss_payment s' \<subseteq>\<^sub>m ss_payment s"
  shows "payments_wf s'"
  using assms by (auto simp: payments_wf_def map_le_def dom_def) metis+

lemma without_payments_le: "ss_payment (without_payments m refs s) \<subseteq>\<^sub>m ss_payment s"
  by (auto simp: without_payments_def map_le_def restrict_map_def)

lemma payment_call_wf:
  assumes "payment_dispatch env c s = Inr ((), s')" "payments_wf s" "call_typed (PaymentCall c)"
  shows "payments_wf s'"
proof (cases c)
  case (CallStorePaymentReference m ref a)
  then show ?thesis
    using assms by (auto simp: silently_Inr act_ok call_typed_def intro: payments_wf_store)
next
  case (CallPrunePayment sg m ref)
  then have "ss_payment s' \<subseteq>\<^sub>m ss_payment s"
    using assms(1) by (cases "ss_payment s (m, ref)") (auto simp: act_ok map_le_def)
  then show ?thesis
    by (rule payments_wf_subset [OF assms(2)])
next
  case (CallPrunePayments sg m refs)
  then have "ss_payment s' \<subseteq>\<^sub>m ss_payment s"
    using assms(1) by (auto simp: silently_Inr act_ok Let_def without_payments_def map_le_def restrict_map_def)
  then show ?thesis
    by (rule payments_wf_subset [OF assms(2)])
qed

text \<open>An executed operation runs on a state that differs from the current one in the queue only.\<close>

lemma execute_step:
  assumes "execute env ex op s = Inr ((), s')"
  obtains s1 where "executable env s op" "dispatch_operation env ex op (dequeued (op_hash env op) s) = Inr ((), s1)"
    "s' = s1\<lparr>st_events := st_events s1 @ [([ScSymbol OP_EXECUTED_EVENT, ScBytes32 (op_hash env op)], ScVoid)]\<rparr>"
  using assms by (auto simp: execute_Inr)

lemma dequeued_views [simp]:
  "admin_view (dequeued k s) = admin_view s" "merchant_view (dequeued k s) = merchant_view s"
  "payment_view (dequeued k s) = payment_view s"
  by (simp_all add: view_defs)

lemma execute_wf:
  assumes "execute env ex op s = Inr ((), s')" "settlement_wf s"
  shows "settlement_wf s'"
proof -
  let ?d = "dequeued (op_hash env op) s"
  obtain s1 where s1: "executable env s op" "dispatch_operation env ex op ?d = Inr ((), s1)"
    "s' = s1\<lparr>st_events := st_events s1 @ [([ScSymbol OP_EXECUTED_EVENT, ScBytes32 (op_hash env op)], ScVoid)]\<rparr>"
    using assms(1) by (rule execute_step)
  have admin: "st_admin s \<noteq> None"
    using s1(1) assms(2) by (auto simp: executable_def settlement_wf_def queue_wf_def)
  have "admin_wf ?d" "merchants_wf ?d" "payments_wf ?d"
    using assms(2) admin_wf_cong [of ?d s] merchants_wf_cong [of ?d s] payments_wf_cong [of ?d s]
    by (simp_all add: settlement_wf_def)
  then have "admin_wf s1" "merchants_wf s1" "payments_wf s1" "st_admin s1 \<noteq> None"
    using operation_admin_wf [OF s1(2)] operation_merchants_wf [OF s1(2)] operation_admin_kept [OF s1(2)]
      payments_wf_cong [OF operation_frame(1) [OF s1(2)]] admin by simp_all
  then show ?thesis
    using admin_wf_cong [of s' s1] merchants_wf_cong [of s' s1] payments_wf_cong [of s' s1]
    by (auto simp: s1(3) settlement_wf_def queue_wf_def)
qed

lemma settlement_wf_cong:
  assumes "admin_view s' = admin_view s" "merchant_view s' = merchant_view s" "payment_view s' = payment_view s"
    "queue_wf s'" "settlement_wf s"
  shows "settlement_wf s'"
  using admin_wf_cong [OF assms(1)] merchants_wf_cong [OF assms(2)] payments_wf_cong [OF assms(3)] assms(4,5)
  by (simp add: settlement_wf_def)

lemma queue_wf_view:
  assumes "queue_wf s" "queue_view s' = queue_view s" "st_admin s' = None \<Longrightarrow> st_admin s = None"
  shows "queue_wf s'"
  using assms by (auto simp: queue_wf_def queue_view_def)

lemma admin_view_admin: "admin_view s' = admin_view s \<Longrightarrow> st_admin s' = st_admin s"
  by (simp add: admin_view_def)

lemma admin_call_admin:
  assumes "admin_dispatch env c s = Inr ((), s')" "st_admin s' = None"
  shows "st_admin s = None"
  using assms by (cases c) (auto simp: act_ok)

lemma queue_call_wf:
  assumes "queue_dispatch env c s = Inr ((), s')" "settlement_wf s"
  shows "settlement_wf s'"
proof (cases "\<exists>ex op. c = CallExecute ex op")
  case True
  then show ?thesis
    using assms execute_wf by auto
next
  case False
  have q: "queue_wf s'"
  proof (cases c)
    case (CallSchedule sg op d)
    then show ?thesis
      using assms by (auto simp: schedule_Inr quorum_def admin_quorum_def queue_wf_def enqueued_def
          split: option.splits)
  next
    case (CallCancelAll sg ops)
    then obtain n where "cancel_all env sg ops s = Inr (n, s')"
      using assms(1) by (auto simp: silently_Inr)
    then show ?thesis
      using assms(2) cancel_all_frame(1,4) [of env sg ops s n s']
      by (auto simp: settlement_wf_def queue_wf_def admin_view_def restrict_map_def)
  qed (use assms False in \<open>auto simp: cancel_Inr settlement_wf_def queue_wf_def\<close>)
  show ?thesis
    using queue_frame [OF assms(1)] False q assms(2) by (intro settlement_wf_cong [of s' s]) auto
qed

lemma admin_settlement_wf:
  assumes "admin_dispatch env a s = Inr ((), s')" "settlement_wf s"
  shows "settlement_wf s'"
  using assms(2) admin_call_wf [OF assms(1)] merchants_wf_cong [OF admin_frame(1) [OF assms(1)]]
    payments_wf_cong [OF admin_frame(2) [OF assms(1)]]
    queue_wf_view [OF _ admin_frame(3) [OF assms(1)] admin_call_admin [OF assms(1)]]
  by (simp add: settlement_wf_def)

lemma merchant_settlement_wf:
  assumes "merchant_dispatch env b s = Inr ((), s')" "settlement_wf s"
  shows "settlement_wf s'"
  using assms(2) merchant_call_wf [OF assms(1)] admin_wf_cong [OF merchant_frame(1) [OF assms(1)]]
    payments_wf_cong [OF merchant_frame(2) [OF assms(1)]] queue_wf_view [OF _ merchant_frame(3) [OF assms(1)]]
    admin_view_admin [OF merchant_frame(1) [OF assms(1)]]
  by (simp add: settlement_wf_def)

lemma payment_settlement_wf:
  assumes "payment_dispatch env b s = Inr ((), s')" "settlement_wf s" "call_typed (PaymentCall b)"
  shows "settlement_wf s'"
  using assms(2,3) payment_call_wf [OF assms(1)] admin_wf_cong [OF payment_frame(1) [OF assms(1)]]
    merchants_wf_cong [OF payment_frame(2) [OF assms(1)]] queue_wf_view [OF _ payment_frame(3) [OF assms(1)]]
    admin_view_admin [OF payment_frame(1) [OF assms(1)]]
  by (simp add: settlement_wf_def)

lemma read_settlement_wf:
  assumes "read_dispatch env b s = Inr ((), s')" "settlement_wf s"
  shows "settlement_wf s'"
proof -
  have "queue_wf s"
    using assms(2) by (simp add: settlement_wf_def)
  then show ?thesis
    using assms(2) read_frame [OF assms(1)] queue_wf_view [OF _ read_frame(4) [OF assms(1)]]
      admin_view_admin [OF read_frame(1) [OF assms(1)]]
    by (intro settlement_wf_cong [of s' s]) auto
qed

lemma settlement_step_wf:
  assumes "settlement_wf s" "settlement_step l s s'"
  shows "settlement_wf s'"
proof -
  obtain env c where l: "l = (env, c)"
    by (cases l)
  then have d: "settlement_dispatch env c s = Inr ((), s')" "call_typed c"
    using assms(2) by (simp_all add: settlement_step_iff)
  show ?thesis
    using d assms(1) admin_settlement_wf queue_call_wf merchant_settlement_wf payment_settlement_wf
      read_settlement_wf by (cases c) auto
qed

lemma settlement_fresh_wf: "settlement_wf (settlement_fresh wasm)"
  by (simp add: settlement_wf_def admin_wf_def shared_wf_def merchants_wf_def payments_wf_def queue_wf_def
      settlement_fresh_def)

interpretation settlement_inv: step_invariant settlement_step "\<lambda>s. \<exists>wasm. s = settlement_fresh wasm"
    settlement_wf
  by unfold_locales (auto intro: settlement_fresh_wf settlement_step_wf)

lemma reachable_settlement_wf:
  assumes "run settlement_step (settlement_fresh wasm) ls s"
  shows "settlement_wf s"
  using settlement_inv.reachable_inv assms by blast

end
