(* ===== verification/Settlement_Promises.thy ===== *)
theory Settlement_Promises
  imports Settlement_Invariant
begin

text \<open>
  What the settlement contract promises over whole histories, as interpretations of the contracts of
  \<open>Contract_Interfaces\<close>: the recovery delay (\<open>recovery\<close>) and the delay of queued operations (\<open>queue\<close>) are
  timelocks, \<open>pausing\<close> is the freeze of a pause, and \<open>payments\<close> and \<open>queue_counter\<close> are the counters the
  contract keeps beside its payments and its queue.
\<close>

section \<open>Recovery\<close>

definition recovery_ready :: "unit \<Rightarrow> settlement_state \<Rightarrow> PendingRecovery option" where
  "recovery_ready k s =
    (case st_pending_recovery s of
       Some (Decodes p) \<Rightarrow> Some p
     | _ \<Rightarrow> None)"

text \<open>The recovery address of the state authorised the initiation for the record's target.\<close>

definition recovery_opens :: "unit \<Rightarrow> PendingRecovery \<Rightarrow> settlement_state \<Rightarrow> settlement_label \<Rightarrow> bool" where
  "recovery_opens k p s l \<longleftrightarrow> snd l = AdminCall (CallInitiateRecovery (pr_new_admin p)) \<and>
    st_recovery_address s = Some (pr_initiated_by p) \<and> pr_initiated_by p \<in> h_auths (fst l)"

definition recovery_fires :: "unit \<Rightarrow> settlement_label \<Rightarrow> bool" where
  "recovery_fires k l \<longleftrightarrow> snd l = AdminCall CallExecuteRecovery"

lemma recovery_ready_Some: "recovery_ready k s = Some p \<longleftrightarrow> st_pending_recovery s = Some (Decodes p)"
  by (auto simp: recovery_ready_def split: option.splits stored.splits)

lemma admin_view_pending: "admin_view s' = admin_view s \<Longrightarrow> st_pending_recovery s' = st_pending_recovery s"
  by (simp add: admin_view_def)

lemma operation_pending:
  assumes "dispatch_operation env ex op s = Inr ((), s')"
  shows "st_pending_recovery s' = (if op = CancelRecovery then None else st_pending_recovery s)"
  using assms by (cases op) (auto simp: unregistered_def rule_set_def rule_cleared_def default_set_def act_ok)

text \<open>The pending record changes by an initiation, and otherwise only by being removed.\<close>

lemma step_pending:
  assumes "settlement_step (env, c) s s'"
  shows "st_pending_recovery s' = st_pending_recovery s \<or> st_pending_recovery s' = None \<or>
    (\<exists>a. c = AdminCall (CallInitiateRecovery a))"
proof (cases c)
  case (AdminCall a)
  then show ?thesis
    using assms by (cases a) (auto simp: settlement_step_iff act_ok)
next
  case (QueueCall q)
  then have q: "queue_dispatch env q s = Inr ((), s')"
    using assms by (simp add: settlement_step_iff)
  show ?thesis
  proof (cases "\<exists>ex op. q = CallExecute ex op")
    case True
    then obtain ex op where "execute env ex op s = Inr ((), s')"
      using q by auto
    then show ?thesis
      by (rule execute_step) (auto dest!: operation_pending split: if_splits)
  next
    case False
    then show ?thesis
      using admin_view_pending [OF queue_frame(1) [OF q]] by auto
  qed
next
  case (MerchantCall m)
  then show ?thesis
    using assms admin_view_pending [OF merchant_frame(1)] by (auto simp: settlement_step_iff)
next
  case (PaymentCall m)
  then show ?thesis
    using assms admin_view_pending [OF payment_frame(1)] by (auto simp: settlement_step_iff)
next
  case (ReadCall m)
  then show ?thesis
    using assms admin_view_pending [OF read_frame(1)] by (auto simp: settlement_step_iff)
qed

lemma recovery_opened:
  assumes "settlement_step l s s'" "recovery_ready k s' = Some p" "recovery_ready k s \<noteq> Some p"
  shows "recovery_opens k p s l \<and> label_time l + unat RECOVERY_DELAY_SECONDS \<le> recovery_due p"
proof -
  obtain env c where l: "l = (env, c)"
    by (cases l)
  have "st_pending_recovery s' \<noteq> st_pending_recovery s" "st_pending_recovery s' \<noteq> None"
    using assms(2,3) by (auto simp: recovery_ready_Some)
  then obtain a where "c = AdminCall (CallInitiateRecovery a)"
    using step_pending [of env c s s'] assms(1) l by auto
  then show ?thesis
    using assms(1,2)
    by (auto simp: l settlement_step_iff recovery_ready_Some recovery_opens_def recovery_due_def
        label_time_def unat_add_u64 act_ok)
qed

lemma recovery_fired:
  assumes "settlement_step l s s'" "recovery_fires k l"
  shows "(\<exists>p. recovery_ready k s = Some p \<and> recovery_due p \<le> label_time l) \<and> recovery_ready k s' = None"
  using assms
  by (cases l) (auto simp: recovery_fires_def settlement_step_iff recovery_ready_def recovery_due_def
      label_time_def word_le_nat_alt act_ok)

interpretation recovery: timelock settlement_step label_time recovery_ready recovery_due recovery_opens
    recovery_fires "unat RECOVERY_DELAY_SECONDS"
  by unfold_locales (rule recovery_opened, assumption+, rule recovery_fired, assumption+)

section \<open>The queue\<close>

text \<open>An entry of the queue: its slot and the encoding of the operation in it.\<close>

type_synonym queue_entry = "bytes32 \<times> bytes"

definition queue_ready :: "queue_entry \<Rightarrow> settlement_state \<Rightarrow> nat option" where
  "queue_ready k s =
    (case ss_scheduled s (fst k) of
       Some e \<Rightarrow> if so_operation_xdr e = snd k then Some (unat (so_execute_at e)) else None
     | None \<Rightarrow> None)"

definition entry_of :: "settlement_host \<Rightarrow> Operation \<Rightarrow> queue_entry" where
  "entry_of env op = (op_hash env op, h_to_xdr env op)"

text \<open>A quorum of the admins of the state scheduled the entry.\<close>

definition queue_opens :: "queue_entry \<Rightarrow> nat \<Rightarrow> settlement_state \<Rightarrow> settlement_label \<Rightarrow> bool" where
  "queue_opens k t s l \<longleftrightarrow> (\<exists>sg op d. snd l = QueueCall (CallSchedule sg op d) \<and>
    entry_of (fst l) op = k \<and> quorum (fst l) s sg)"

definition queue_fires :: "queue_entry \<Rightarrow> settlement_label \<Rightarrow> bool" where
  "queue_fires k l \<longleftrightarrow> (\<exists>ex op. snd l = QueueCall (CallExecute ex op) \<and> entry_of (fst l) op = k)"

lemma execute_queue:
  assumes "execute env ex op s = Inr ((), s')"
  shows "ss_scheduled s' = (ss_scheduled s)(op_hash env op := None)"
    "ss_pending_operation_count s' = Some (saturating_sub_u32 (queue_count s) 1)" "paused s' = paused s"
    "payment_view s' = payment_view s"
proof -
  obtain s1 where s1: "dispatch_operation env ex op (dequeued (op_hash env op) s) = Inr ((), s1)"
    "s' = s1\<lparr>st_events := st_events s1 @ [([ScSymbol OP_EXECUTED_EVENT, ScBytes32 (op_hash env op)], ScVoid)]\<rparr>"
    using assms by (rule execute_step)
  show "ss_scheduled s' = (ss_scheduled s)(op_hash env op := None)"
    "ss_pending_operation_count s' = Some (saturating_sub_u32 (queue_count s) 1)" "paused s' = paused s"
    "payment_view s' = payment_view s"
    using operation_frame [OF s1(1)] by (simp_all add: s1(2) queue_view_def paused_def)
qed

text \<open>Outside the queue's own entry points the queue does not change.\<close>

lemma step_queue:
  assumes "settlement_step (env, c) s s'" "\<forall>q. c \<noteq> QueueCall q"
  shows "queue_view s' = queue_view s"
  using assms admin_frame(3) merchant_frame(3) payment_frame(3) read_frame(4)
  by (cases c) (auto simp: settlement_step_iff)

lemma queue_call_effect:
  assumes "queue_dispatch env q s = Inr ((), s')"
  shows "(\<exists>sg op d. q = CallSchedule sg op d) \<or> ss_scheduled s' \<subseteq>\<^sub>m ss_scheduled s"
proof (cases q)
  case (CallCancelAll sg ops)
  then obtain n where "cancel_all env sg ops s = Inr (n, s')"
    using assms by (auto simp: silently_Inr)
  from cancel_all_frame(4) [OF this] show ?thesis
    by (auto simp: map_le_def restrict_map_def)
next
  case (CallExecute ex op)
  then have "execute env ex op s = Inr ((), s')"
    using assms by simp
  from execute_queue(1) [OF this] show ?thesis
    by (auto simp: map_le_def)
qed (use assms in \<open>auto simp: cancel_Inr map_le_def\<close>)

lemma queue_ready_le:
  assumes "ss_scheduled s' \<subseteq>\<^sub>m ss_scheduled s" "queue_ready k s' = Some t"
  shows "queue_ready k s = Some t"
  using assms by (auto simp: queue_ready_def map_le_def dom_def split: option.splits if_splits)

lemma queue_opened:
  assumes "settlement_step l s s'" "queue_ready k s' = Some t" "queue_ready k s \<noteq> Some t"
  shows "queue_opens k t s l \<and> label_time l + unat MIN_TIMELOCK_DELAY_SECONDS \<le> id t"
proof -
  obtain env c where l: "l = (env, c)"
    by (cases l)
  have not_le: "\<not> ss_scheduled s' \<subseteq>\<^sub>m ss_scheduled s"
    using queue_ready_le assms(2,3) by blast
  then have "queue_view s' \<noteq> queue_view s"
    by (auto simp: queue_view_def)
  then obtain q where c: "c = QueueCall q"
    using step_queue [of env c s s'] assms(1) l by blast
  then have "queue_dispatch env q s = Inr ((), s')"
    using assms(1) l by (simp add: settlement_step_iff)
  then obtain sg op d where q: "q = CallSchedule sg op d" "schedule env sg op d s = Inr ((), s')"
    using queue_call_effect [of env q s s'] not_le by auto
  then have d: "valid_delay d" "unat (h_timestamp env) + unat d < 2 ^ 64" "quorum env s sg"
    "ss_scheduled s' = (ss_scheduled s)(op_hash env op \<mapsto>
      \<lparr>so_operation_xdr = h_to_xdr env op, so_execute_at = h_timestamp env + d\<rparr>)"
    by (auto simp: schedule_Inr enqueued_def)
  have k: "fst k = op_hash env op"
    using assms(2,3) d(4) by (auto simp: queue_ready_def split: if_splits)
  then have "snd k = h_to_xdr env op" "t = unat (h_timestamp env + d)"
    using assms(2) d(4) by (auto simp: queue_ready_def split: if_splits)
  then show ?thesis
    using k d(1-3)
    by (auto simp: l c q(1) queue_opens_def entry_of_def label_time_def valid_delay_def unat_add_u64
        MIN_TIMELOCK_DELAY_SECONDS_unat prod_eq_iff)
qed

lemma queue_fired:
  assumes "settlement_step l s s'" "queue_fires k l"
  shows "(\<exists>t. queue_ready k s = Some t \<and> id t \<le> label_time l) \<and> queue_ready k s' = None"
proof -
  obtain env ex op where l: "l = (env, QueueCall (CallExecute ex op))" "k = entry_of env op"
    using assms(2) by (cases l) (auto simp: queue_fires_def)
  then have e: "execute env ex op s = Inr ((), s')"
    using assms(1) by (simp add: settlement_step_iff)
  then show ?thesis
    using execute_queue(1) [OF e]
    by (auto simp: l entry_of_def execute_Inr executable_def queue_ready_def label_time_def word_le_nat_alt)
qed

interpretation queue: timelock settlement_step label_time queue_ready id queue_opens queue_fires
    "unat MIN_TIMELOCK_DELAY_SECONDS"
  by unfold_locales (rule queue_opened, assumption+, rule queue_fired, assumption+)

section \<open>Pausing\<close>

definition lifts_pause :: "settlement_label \<Rightarrow> bool" where
  "lifts_pause l \<longleftrightarrow> (\<exists>sg. snd l = AdminCall (CallUnpause sg))"

definition settlement_config where
  "settlement_config s = (ss_merchant s, ss_rule s, ss_archived s, ss_default_rule s,
    ss_scheduled (s :: settlement_state))"

lemma step_stays_paused:
  assumes "settlement_step l s s'" "paused s" "\<not> lifts_pause l"
  shows "paused s'"
proof -
  obtain env c where l: "l = (env, c)"
    by (cases l)
  then have d: "settlement_dispatch env c s = Inr ((), s')"
    using assms(1) by (simp add: settlement_step_iff)
  have view: "admin_view s' = admin_view s \<Longrightarrow> paused s'"
    using assms(2) by (simp add: admin_view_def paused_def)
  show ?thesis
  proof (cases c)
    case (AdminCall a)
    then show ?thesis
      using d assms(2,3) by (cases a) (auto simp: l lifts_pause_def paused_def act_ok)
  next
    case (QueueCall q)
    then have q: "queue_dispatch env q s = Inr ((), s')"
      using d by simp
    then show ?thesis
      using view queue_frame(1) [OF q] assms(2) by (cases q) (auto simp: execute_Inr executable_def)
  qed (use d in \<open>auto intro!: view intro: merchant_frame payment_frame read_frame\<close>)
qed

lemma step_paused_config:
  assumes "settlement_step l s s'" "paused s"
  shows "settlement_config s' = settlement_config s"
proof -
  obtain env c where l: "l = (env, c)"
    by (cases l)
  then have d: "settlement_dispatch env c s = Inr ((), s')"
    using assms(1) by (simp add: settlement_step_iff)
  have view: "merchant_view s' = merchant_view s \<Longrightarrow> queue_view s' = queue_view s \<Longrightarrow> ?thesis"
    by (simp add: merchant_view_def queue_view_def settlement_config_def)
  show ?thesis
  proof (cases c)
    case (QueueCall q)
    then show ?thesis
      using d assms(2) by (cases q) (auto simp: silently_Inr executable_def act_ok)
  next
    case (MerchantCall b)
    then show ?thesis
      using d assms(2) by (cases b) (auto simp: act_ok)
  qed (use d in \<open>auto intro!: view intro: admin_frame payment_frame read_frame\<close>)
qed

interpretation pausing: pausable settlement_step paused lifts_pause settlement_config
  by unfold_locales (blast intro: step_stays_paused, rule step_paused_config)

section \<open>Counters\<close>

definition payment_refs :: "address \<Rightarrow> settlement_state \<Rightarrow> bytes32 set" where
  "payment_refs m s = {ref. ss_payment s (m, ref) \<noteq> None}"

lemma payment_refs_view:
  "payment_view s' = payment_view s \<Longrightarrow> payment_refs m s' = payment_refs m s \<and> pay_count s' m = pay_count s m"
  by (simp add: payment_view_def payment_refs_def pay_count_def)

text \<open>Outside the payment entry points the payments and their counters do not change.\<close>

lemma step_payments:
  assumes "settlement_step (env, c) s s'" "\<forall>p. c \<noteq> PaymentCall p"
  shows "payment_view s' = payment_view s"
proof (cases c)
  case (QueueCall q)
  then have q: "queue_dispatch env q s = Inr ((), s')"
    using assms(1) by (simp add: settlement_step_iff)
  then show ?thesis
    using queue_frame(3) [OF q] execute_queue(4) by (cases q) auto
qed (use assms admin_frame(2) merchant_frame(2) read_frame(3) in \<open>auto simp: settlement_step_iff\<close>)

lemma pay_count_pruned:
  "unat (pay_count (pruned_count m n s) m') = unat (pay_count s m') - (if m' = m then unat n else 0)"
  by (auto simp: pruned_count_def pay_count_def unat_saturating_sub_u32 split: option.splits)

lemma payment_refs_without:
  "payment_refs m' (without_payments m refs s) = payment_refs m' s - (if m' = m then refs else {})"
  by (auto simp: payment_refs_def without_payments_def restrict_map_def)

lemma pay_count_without [simp]: "pay_count (without_payments m refs s) m' = pay_count s m'"
  by (simp add: pay_count_def without_payments_def)

lemma payment_refs_upd [simp]:
  "payment_refs m (s\<lparr>st_events := e\<rparr>) = payment_refs m s" "payment_refs m (s\<lparr>st_bumps := b\<rparr>) = payment_refs m s"
  "payment_refs m (pruned_count m' n s) = payment_refs m s"
  by (simp_all add: payment_refs_def)

text \<open>The change of a payment invocation to the references and to the counter of a merchant.\<close>

text \<open>What one invocation does to the number of a merchant's references and to its counter.\<close>

definition counts_refs :: "address \<Rightarrow> settlement_state \<Rightarrow> settlement_state \<Rightarrow> bool" where
  "counts_refs m s s' \<longleftrightarrow> finite (payment_refs m s') \<and>
    card (payment_refs m s') \<le> Suc (card (payment_refs m s)) \<and>
    (unat (pay_count s m) = card (payment_refs m s) \<longrightarrow> unat (pay_count s' m) = card (payment_refs m s'))"

lemma store_counts:
  assumes "store_payment_reference env m' ref a s = Inr (split, s')" "finite (payment_refs m s)"
  shows "counts_refs m s s'"
proof -
  from assms(1) obtain rule where new: "ss_payment s (m', ref) = None" "unat (pay_count s m') + 1 < 2 ^ 32"
    "s' = stored_payment env m' ref a rule split s"
    by (auto simp: act_ok)
  then have "payment_refs m s' = (if m = m' then insert ref (payment_refs m s) else payment_refs m s)"
    "ref \<notin> payment_refs m' s"
    "ss_payment_count s' = (ss_payment_count s)(m' \<mapsto> pay_count s m' + 1)"
    by (auto simp: payment_refs_def stored_payment_def)
  moreover from this(3)
  have "pay_count s' m = (if m = m' then pay_count s m + 1 else pay_count s m)"
    by (simp add: pay_count_def)
  then have "unat (pay_count s' m) = unat (pay_count s m) + (if m = m' then 1 else 0)"
    using new(2) unat_add_u32 [of "pay_count s m'" 1] by simp
  ultimately show ?thesis
    using assms(2) by (auto simp: counts_refs_def)
qed

lemma prune_counts:
  assumes "prune_payment env sg m' ref s = Inr ((), s')" "finite (payment_refs m s)"
  shows "counts_refs m s s'"
proof (cases "ss_payment s (m', ref)")
  case None
  then show ?thesis
    using assms by (auto simp: act_ok counts_refs_def)
next
  case (Some rec)
  then have s': "ss_payment s' = (ss_payment s)((m', ref) := None)"
    "ss_payment_count s' = (ss_payment_count s)(m' \<mapsto> saturating_sub_u32 (pay_count s m') 1)"
    using assms by (auto simp: act_ok)
  then have "payment_refs m s' = payment_refs m s - (if m = m' then {ref} else {})"
    "ref \<in> payment_refs m' s"
    using Some by (auto simp: payment_refs_def)
  moreover have "pay_count s' m = (if m = m' then saturating_sub_u32 (pay_count s m) 1 else pay_count s m)"
    using s'(2) by (simp add: pay_count_def)
  ultimately show ?thesis
    using assms(2) by (auto simp: counts_refs_def card_Diff_singleton unat_saturating_sub_u32)
qed

lemma batch_prune_counts:
  assumes "prune_payments env sg m' refs s = Inr (c, s')" "finite (payment_refs m s)"
  shows "counts_refs m s s'"
proof -
  let ?n = "word_of_nat (card (pruned_refs m' refs s)) :: u32"
  have "card (pruned_refs m' refs s) < 2 ^ 32"
    using card_pruned_refs_le [of m' refs s] assms(1) by (auto simp: act_ok)
  then have n: "unat ?n = card (pruned_refs m' refs s)"
    by (simp add: unat_of_nat take_bit_nat_eq_self)
  have s': "payment_refs m s' = payment_refs m s - (if m = m' then set refs else {})"
    "unat (pay_count s' m) = unat (pay_count s m) - (if m = m' then unat ?n else 0)"
    using assms(1) by (auto simp: act_ok Let_def payment_refs_without pay_count_pruned)
  have "payment_refs m' s - set refs = payment_refs m' s - pruned_refs m' refs s"
    "pruned_refs m' refs s \<subseteq> payment_refs m' s"
    by (auto simp: payment_refs_def pruned_refs_def)
  then show ?thesis
    using assms(2) s' n by (auto simp: counts_refs_def card_Diff_subset card_mono le_SucI)
qed

lemma step_payment_counts:
  assumes "settlement_step l s s'" "finite (payment_refs m s)"
  shows "counts_refs m s s'"
proof -
  obtain env c where l: "l = (env, c)"
    by (cases l)
  show ?thesis
  proof (cases "\<exists>p. c = PaymentCall p")
    case True
    then obtain p where "payment_dispatch env p s = Inr ((), s')"
      using assms(1) l by (auto simp: settlement_step_iff)
    then show ?thesis
      using assms(2) store_counts prune_counts batch_prune_counts by (cases p) (auto simp: silently_Inr)
  next
    case False
    then have "payment_view s' = payment_view s"
      using step_payments assms(1) l by blast
    then show ?thesis
      using payment_refs_view [of s' s m] assms(2) by (simp add: counts_refs_def)
  qed
qed

interpretation payments: counted_store settlement_step "payment_refs m" "\<lambda>s. unat (pay_count s m)" cap for m cap
  by unfold_locales (use step_payment_counts [unfolded counts_refs_def] in blast)+

text \<open>The queue counter saturates, so its capacity is that of a \<open>u32\<close>.\<close>

lemma queue_call_counts:
  assumes "queue_dispatch env q s = Inr ((), s')" "finite (dom (ss_scheduled s))"
  shows "finite (dom (ss_scheduled s')) \<and>
    card (dom (ss_scheduled s')) \<le> Suc (card (dom (ss_scheduled s))) \<and>
    (unat (queue_count s) = card (dom (ss_scheduled s)) \<longrightarrow> card (dom (ss_scheduled s)) < 2 ^ 32 - 1 \<longrightarrow>
      unat (queue_count s') = card (dom (ss_scheduled s')))"
proof (cases q)
  case (CallSchedule sg op d)
  then have "ss_scheduled s (op_hash env op) = None"
    "dom (ss_scheduled s') = insert (op_hash env op) (dom (ss_scheduled s))"
    "ss_pending_operation_count s' = Some (saturating_add_u32 (queue_count s) 1)"
    using assms(1) by (auto simp: act_ok enqueued_def)
  then show ?thesis
    using assms(2) unat_add_u32 [of "queue_count s" 1]
    by (auto simp: queue_count_def [of s'] saturating_add_u32_def domIff card_insert_if)
next
  case (CallExecute ex op)
  then have e: "execute env ex op s = Inr ((), s')"
    using assms(1) by simp
  then have "op_hash env op \<in> dom (ss_scheduled s)"
    by (auto simp: execute_Inr executable_def)
  then show ?thesis
    using execute_queue(1,2) [OF e] assms(2)
    by (auto simp: queue_count_def [of s'] unat_saturating_sub_u32 card_Diff_singleton)
next
  case (CallCancel sg op)
  then have "op_hash env op \<in> dom (ss_scheduled s)" "ss_scheduled s' = (ss_scheduled s)(op_hash env op := None)"
    "ss_pending_operation_count s' = Some (saturating_sub_u32 (queue_count s) 1)"
    using assms(1) by (auto simp: act_ok queued_def)
  then show ?thesis
    using assms(2) by (auto simp: queue_count_def [of s'] unat_saturating_sub_u32 card_Diff_singleton)
next
  case (CallCancelAll sg ops)
  then obtain n where "cancel_all env sg ops s = Inr (n, s')"
    using assms(1) by (auto simp: silently_Inr)
  note f = cancel_all_frame(4,5) [OF this]
  have "dom (ss_scheduled s') = dom (ss_scheduled s) - cancelled_slots env ops s"
    using f(1) by (auto simp: restrict_map_def split: if_splits)
  then show ?thesis
    using f(2) cancelled_slots_dom [of env ops s] assms(2) by (auto simp: card_Diff_subset)
qed

lemma step_queue_counts:
  assumes "settlement_step l s s'" "finite (dom (ss_scheduled s))"
  shows "finite (dom (ss_scheduled s')) \<and>
    card (dom (ss_scheduled s')) \<le> Suc (card (dom (ss_scheduled s))) \<and>
    (unat (queue_count s) = card (dom (ss_scheduled s)) \<longrightarrow> card (dom (ss_scheduled s)) < 2 ^ 32 - 1 \<longrightarrow>
      unat (queue_count s') = card (dom (ss_scheduled s')))"
proof -
  obtain env c where l: "l = (env, c)"
    by (cases l)
  show ?thesis
  proof (cases "\<exists>q. c = QueueCall q")
    case True
    then obtain q where "queue_dispatch env q s = Inr ((), s')"
      using assms(1) l by (auto simp: settlement_step_iff)
    then show ?thesis
      using queue_call_counts assms(2) by blast
  next
    case False
    then have "queue_view s' = queue_view s"
      using step_queue assms(1) l by blast
    then show ?thesis
      using assms(2) by (simp add: queue_view_def queue_count_def)
  qed
qed

interpretation queue_counter: counted_store settlement_step "\<lambda>s. dom (ss_scheduled s)"
    "\<lambda>s. unat (queue_count s)" "2 ^ 32 - 1"
  by unfold_locales (use step_queue_counts in blast)+

end
