(* ===== verification/Sample_Parties.thy ===== *)
theory Sample_Parties
  imports Contract_Interfaces
begin

text \<open>The parties of the sample histories: admins, a merchant, a recovery address, a governance contract.\<close>

definition alice :: address where
  "alice = Address ''alice''"

definition bob :: address where
  "bob = Address ''bob''"

definition carol :: address where
  "carol = Address ''carol''"

definition shop :: address where
  "shop = Address ''shop''"

definition rescue :: address where
  "rescue = Address ''rescue''"

definition gov_addr :: address where
  "gov_addr = Address ''governance''"

lemmas sample_addresses = alice_def bob_def carol_def shop_def rescue_def gov_addr_def zero_address_def
  ZERO_ADDRESS_STRKEY_def

end
