(* ===== verification/Samples.thy ===== *)
theory Samples
  imports Settlement_Promises Sample_Parties
begin

text \<open>
  Concrete hosts and histories the witnesses of the properties evaluate: two admins who both have to sign,
  a merchant, a recovery address, and a governance contract that answers \<open>get_fee_config\<close> with no
  configuration. The sample encoding and hash stand for the host's; nothing is assumed of them here.
\<close>

definition sample_op :: Operation where
  "sample_op = RegisterMerchant shop"

text \<open>Everybody authorises; the two bytes tell \<open>sample_op\<close> from the other operations.\<close>

definition sample_host :: "u64 \<Rightarrow> settlement_host" where
  "sample_host now =
    \<lparr>h_auths = {alice, bob, carol, shop, rescue}, h_timestamp = now, h_sequence = 7,
     h_probe_deploys = \<lambda>_. True, h_probe_reply = \<lambda>_ v. Replied (v = 1),
     h_invoke = \<lambda>_ f _. if f = ''get_fee_config'' then Replied ScVoid else CallFailed,
     h_to_xdr = \<lambda>op. if op = sample_op then [1] else [2],
     h_sha256 = \<lambda>bytes. if bytes = [1] then 1 else 2\<rparr>"

definition sample_rule :: SettlementRule where
  "sample_rule = \<lparr>sr_platform_fee_bps = 50, sr_network_fee_bps = 20, sr_settlement_delay_ledger = 10,
    sr_auto_settle = True\<rparr>"

text \<open>Invocations of the sample histories.\<close>

definition do_init :: settlement_label where
  "do_init = (sample_host 0, AdminCall (CallInit alice [alice, bob] 2 gov_addr rescue))"

definition do_register :: settlement_label where
  "do_register = (sample_host 5, MerchantCall (CallRegisterMerchant [alice, bob] shop))"

definition do_pay :: settlement_label where
  "do_pay = (sample_host 6, PaymentCall (CallStorePaymentReference shop 5 1000))"

definition do_pause :: settlement_label where
  "do_pause = (sample_host 7, AdminCall (CallPause [alice, bob] 1))"

definition do_schedule :: settlement_label where
  "do_schedule = (sample_host 10, QueueCall (CallSchedule [alice, bob] sample_op 604800))"

definition do_execute :: settlement_label where
  "do_execute = (sample_host 604810, QueueCall (CallExecute bob sample_op))"

definition do_initiate :: settlement_label where
  "do_initiate = (sample_host 20, AdminCall (CallInitiateRecovery carol))"

definition do_recover :: settlement_label where
  "do_recover = (sample_host 10000000, AdminCall CallExecuteRecovery)"

lemmas sample_calls = do_init_def do_register_def do_pay_def do_pause_def do_schedule_def do_execute_def
  do_initiate_def do_recover_def sample_op_def sample_host_def sample_rule_def

text \<open>The facts that evaluate an invocation on a concrete state.\<close>

lemmas sample_eval = run_cons_iff settlement_step_iff sample_addresses sample_calls
  settlement_fresh_def valid_admins_def call_typed_def paused_def quorum_def
  admin_quorum_def valid_delay_def schedulable_def governance_answers_def op_hash_def
  enqueued_def act_ok

lemmas sample_resolution = effective_rule_def effective_cache_def fallback_rule_def fallback_cache_def
  governance_offer_def governance_cache_def governance_bypass_enabled_def option_i128_reply_def
  classify_governance_fee_config_def min_payment_def MIN_PAYMENT_AMOUNT_def

section \<open>A history with a payment\<close>

lemma bootstrap_rates:
  "platform_rate BOOTSTRAP_DEFAULT_RULE = 100" "network_rate BOOTSTRAP_DEFAULT_RULE = 5"
  by (simp_all add: platform_rate_def network_rate_def as_i128_def platform_bps_def network_bps_def
      BOOTSTRAP_DEFAULT_RULE_def MIN_FEE_BPS_def)

definition sample_split :: FeeSplit where
  "sample_split = \<lparr>fs_gross_amount = 1000, fs_platform_fee_amount = 10, fs_network_fee_amount = 1,
    fs_merchant_payout_amount = 989\<rparr>"

lemma in_i128_1000: "in_i128 1000"
  by (simp add: in_i128_def i128_min_def i128_max_def)

lemma sample_split_iff: "splits_to 1000 BOOTSTRAP_DEFAULT_RULE split \<longleftrightarrow> split = sample_split"
proof -
  have "split_fits 1000 105"
    by (simp add: in_i128_def split_fits_def i128_min_def i128_max_def)
  then show ?thesis
    by (simp add: splits_to_iff in_i128_1000 bootstrap_rates reference_split_def fee_ceil_div Let_def
        sample_split_def)
qed

definition sample_record :: PaymentRecord where
  "sample_record = new_record (sample_host 6) shop 1000 BOOTSTRAP_DEFAULT_RULE sample_split"

text \<open>The state after initialisation, a registration and a payment.\<close>

definition is_paid_state :: "settlement_state \<Rightarrow> bool" where
  "is_paid_state s \<longleftrightarrow> st_admin s = Some [alice, bob] \<and> st_threshold s = Some 2 \<and> st_paused s = None \<and>
    st_recovery_address s = Some rescue \<and> st_pending_recovery s = None \<and>
    ss_governance s = Some gov_addr \<and> ss_merchant s = {shop} \<and> ss_archived s = {} \<and>
    ss_rule s = Map.empty \<and> ss_default_rule s = None \<and> ss_cached_gov_rule s = None \<and>
    ss_payment s = [(shop, 5) \<mapsto> sample_record] \<and> pay_count s shop = 1 \<and> ss_scheduled s = Map.empty"

lemma sample_paid:
  obtains s where "run settlement_step (settlement_fresh 0) [do_init, do_register, do_pay] s" "is_paid_state s"
proof -
  have "\<exists>s. run settlement_step (settlement_fresh 0) [do_init, do_register, do_pay] s \<and> is_paid_state s"
    by (simp add: sample_eval sample_resolution sample_split_iff in_i128_1000 silently_Inr
        stored_payment_def sample_record_def new_record_def pay_count_def is_paid_state_def)
  then show thesis
    using that by blast
qed

end
