(* ===== verification/Fee_Properties.thy ===== *)
theory Fee_Properties
  imports Samples
begin

text \<open>The fee arithmetic of the settlement contract: the properties of \<open>calculate_fee_ceil\<close> and
  \<open>calculate_split\<close>.\<close>

text \<open>
  \<open>calculate_fee_ceil\<close> of an amount that is not negative is the exact fee rounded up, and
  \<open>None\<close> exactly when the intermediate product plus 9999 does not fit into an \<open>i128\<close>.
\<close>

lemma fee_ceil_exact:
  assumes "0 \<le> amount"
  shows "calculate_fee_ceil b amount =
    (if amount * as_i128 b + 9999 \<le> i128_max
     then Some \<lceil>real_of_int (amount * as_i128 b) / 10000\<rceil> else None)"
  using calculate_fee_ceil_eq [OF assms, of b] by (simp add: fee_ceil_def)

text \<open>
  C1. On every \<open>i128\<close> amount \<open>calculate_split\<close> leaves the state alone; it yields the split of the
  reference on unbounded integers (fees rounded up and clamped to what is left) when the products with the
  combined rate fit into an \<open>i128\<close>, and fails with \<open>AmountOverflow\<close> otherwise.
\<close>

theorem split_exact:
  assumes "in_i128 amount"
  shows "calculate_split amount rule s =
    (if split_fits amount (platform_rate rule + network_rate rule)
     then Inr (reference_split amount (platform_rate rule) (network_rate rule), s)
     else Inl (ContractError AmountOverflow))"
  by (rule calculate_split_run [OF assms])

lemma sample_rates: "platform_rate sample_rule = 50" "network_rate sample_rule = 20"
  by (simp_all add: platform_rate_def network_rate_def as_i128_def platform_bps_def network_bps_def
      sample_rule_def)

lemma sample_amounts:
  "in_i128 1001" "in_i128 i128_max" "split_fits 1001 70" "\<not> split_fits i128_max 70"
  "reference_split 1001 50 20 = \<lparr>fs_gross_amount = 1001, fs_platform_fee_amount = 6,
    fs_network_fee_amount = 3, fs_merchant_payout_amount = 992\<rparr>"
  by (simp_all add: in_i128_def i128_min_def i128_max_def split_fits_def reference_split_def fee_ceil_div
      Let_def)

theorem split_exact_witness:
  "calculate_split 1001 sample_rule (settlement_fresh 0) =
    Inr (\<lparr>fs_gross_amount = 1001, fs_platform_fee_amount = 6, fs_network_fee_amount = 3,
      fs_merchant_payout_amount = 992\<rparr>, settlement_fresh 0) \<and>
   calculate_split i128_max sample_rule (settlement_fresh 0) = Inl (ContractError AmountOverflow)"
  using split_exact [of 1001 sample_rule "settlement_fresh 0"]
    split_exact [of i128_max sample_rule "settlement_fresh 0"]
  by (simp add: sample_rates sample_amounts)

text \<open>
  Conservation: whatever the rule, the legs of a split that \<open>calculate_split\<close> returns for an \<open>i128\<close>
  amount are not negative and add up to the amount (to zero for a negative amount), so no unit is created
  or lost by rounding or clamping.
\<close>

lemma split_conserves:
  assumes "in_i128 amount" "calculate_split amount rule s = Inr (split, s')"
  shows "fs_gross_amount split = amount \<and> 0 \<le> fs_platform_fee_amount split \<and>
    0 \<le> fs_network_fee_amount split \<and> 0 \<le> fs_merchant_payout_amount split \<and>
    fs_platform_fee_amount split + fs_network_fee_amount split + fs_merchant_payout_amount split = max amount 0"
proof -
  have "split = reference_split amount (platform_rate rule) (network_rate rule)"
    using assms calculate_split_run [OF assms(1), of rule s] by (simp split: if_splits)
  then show ?thesis
    using reference_split_conserves [of "platform_rate rule" "network_rate rule" amount]
    by (simp add: reference_split_def Let_def)
qed

text \<open>
  C33. Rounding and conservation under a rule the contract accepts: the platform fee is the exact fee rounded up
  and is never clamped; the network fee is the exact fee rounded up, capped at what the platform fee leaves; the
  merchant receives at most the exact remainder and falls short of it by fewer than two units; and no unit is created
  or lost: the legs are not negative and add up to the amount.
\<close>

theorem split_rounding:
  assumes "in_i128 amount" "0 \<le> amount" "validate_rule_bounds rule s0 = Inr r"
    "calculate_split amount rule s = Inr (split, s')"
  shows "fs_platform_fee_amount split = \<lceil>real_of_int (amount * platform_rate rule) / 10000\<rceil> \<and>
    fs_network_fee_amount split = min \<lceil>real_of_int (amount * network_rate rule) / 10000\<rceil>
      (amount - fs_platform_fee_amount split) \<and>
    amount * (10000 - platform_rate rule - network_rate rule) - 20000 <
      10000 * fs_merchant_payout_amount split \<and>
    10000 * fs_merchant_payout_amount split \<le> amount * (10000 - platform_rate rule - network_rate rule) \<and>
    0 \<le> fs_platform_fee_amount split \<and> 0 \<le> fs_network_fee_amount split \<and>
    0 \<le> fs_merchant_payout_amount split \<and>
    fs_platform_fee_amount split + fs_network_fee_amount split + fs_merchant_payout_amount split = amount"
proof -
  have "valid_rule rule"
    using assms(3) by (simp add: validate_rule_bounds_Inr)
  note rates = valid_rule_rates [OF this]
  have "split = reference_split amount (platform_rate rule) (network_rate rule)"
    using assms(4) calculate_split_run [OF assms(1), of rule s] by (simp split: if_splits)
  then show ?thesis
    using reference_split_rounding(1,3) [of amount "platform_rate rule" "network_rate rule"]
      reference_split_legs [of amount "platform_rate rule" "network_rate rule"] assms(2)
      split_conserves [OF assms(1,4)] rates by (simp add: fee_ceil_def)
qed

theorem split_rounding_witness:
  "\<exists>split. calculate_split 1001 sample_rule (settlement_fresh 0) = Inr (split, settlement_fresh 0) \<and>
    1001 * (10000 - 50 - 20) - 20000 < 10000 * fs_merchant_payout_amount split \<and>
    fs_network_fee_amount split = min \<lceil>real_of_int (1001 * 20) / 10000\<rceil> (1001 - fs_platform_fee_amount split) \<and>
    fs_platform_fee_amount split + fs_network_fee_amount split + fs_merchant_payout_amount split = 1001"
proof -
  let ?split = "reference_split 1001 50 20"
  have run: "calculate_split 1001 sample_rule (settlement_fresh 0) = Inr (?split, settlement_fresh 0)"
    by (simp add: calculate_split_run sample_rates sample_amounts)
  have "validate_rule_bounds sample_rule (settlement_fresh 0) = Inr ((), settlement_fresh 0)"
    by (simp add: validate_rule_bounds_Inr valid_rule_def sample_rule_def)
  then show ?thesis
    using split_rounding [OF sample_amounts(1) _ _ run, of "settlement_fresh 0"] run
    by (intro exI [of _ ?split]) (simp add: sample_rates sample_amounts)
qed

text \<open>
  C34. Monotonicity: when an amount can be split, so can every smaller one that is not negative, under the same
  rule, and its two fees are not larger. Under a rule the contract accepts the merchant's payout is not larger
  either, up to the one unit that rounding both fees up at the same amount can cost.
\<close>

theorem split_monotone:
  assumes "in_i128 b" "0 \<le> a" "a \<le> b" "calculate_split b rule s = Inr (larger, s')"
  shows "\<exists>smaller. calculate_split a rule s = Inr (smaller, s) \<and>
    fs_platform_fee_amount smaller \<le> fs_platform_fee_amount larger \<and>
    fs_network_fee_amount smaller \<le> fs_network_fee_amount larger \<and>
    (validate_rule_bounds rule s = Inr ((), s) \<longrightarrow>
      fs_merchant_payout_amount smaller \<le> fs_merchant_payout_amount larger + 1)"
proof -
  let ?p = "platform_rate rule" and ?n = "network_rate rule"
  have "in_i128 a"
    using in_i128_between [of 0 b a] assms(1-3) by simp
  moreover have b: "split_fits b (?p + ?n)" "larger = reference_split b ?p ?n"
    using assms(4) calculate_split_run [OF assms(1), of rule s] by (simp_all split: if_splits)
  ultimately have run: "calculate_split a rule s = Inr (reference_split a ?p ?n, s)"
    using split_fits_less [OF b(1) assms(2,3)] by (simp add: calculate_split_run)
  have "?p + ?n \<le> 10000" if "validate_rule_bounds rule s = Inr ((), s)"
    using valid_rule_rates [of rule] that by (simp add: validate_rule_bounds_Inr)
  then show ?thesis
    using run reference_split_mono [of a b ?p ?n] assms(2,3) b(2) by simp
qed

text \<open>The one unit is needed: under 30 per cent each, three units pay out one and four units none.\<close>

definition steep_rule :: SettlementRule where
  "steep_rule = \<lparr>sr_platform_fee_bps = 3000, sr_network_fee_bps = 3000, sr_settlement_delay_ledger = 0,
    sr_auto_settle = False\<rparr>"

theorem split_monotone_witness:
  "\<exists>smaller larger. calculate_split 3 steep_rule (settlement_fresh 0) = Inr (smaller, settlement_fresh 0) \<and>
    calculate_split 4 steep_rule (settlement_fresh 0) = Inr (larger, settlement_fresh 0) \<and>
    fs_platform_fee_amount smaller \<le> fs_platform_fee_amount larger \<and>
    fs_merchant_payout_amount smaller = 1 \<and> fs_merchant_payout_amount larger = 0"
proof -
  have i128: "in_i128 3" "in_i128 4" "split_fits 3 6000" "split_fits 4 6000"
    by (simp_all add: in_i128_def i128_min_def i128_max_def split_fits_def)
  have rates: "platform_rate steep_rule = 3000" "network_rate steep_rule = 3000"
    by (simp_all add: platform_rate_def network_rate_def as_i128_def platform_bps_def network_bps_def
        steep_rule_def)
  have run: "calculate_split 4 steep_rule (settlement_fresh 0) = Inr (reference_split 4 3000 3000, settlement_fresh 0)"
    "calculate_split 3 steep_rule (settlement_fresh 0) = Inr (reference_split 3 3000 3000, settlement_fresh 0)"
    by (simp_all add: calculate_split_run i128 rates)
  then show ?thesis
    using split_monotone [OF i128(2) _ _ run(1), of 3] run
    by (simp add: reference_split_def fee_ceil_div Let_def)
qed

end
