(* ===== verification/Payment_Properties.thy ===== *)
theory Payment_Properties
  imports Samples
begin

text \<open>
  The payments of the settlement contract: which payments are stored, what a stored record says, that it
  stays as it is until an admin prunes it, and how payments are read back.
\<close>

section \<open>Stored records\<close>

text \<open>
  C2. Bookkeeping over every history: the counter of a merchant is the number of its stored records,
  whatever sequence of invocations stored and pruned them.
\<close>

theorem payment_counter_exact:
  assumes "run settlement_step (settlement_fresh wasm) ls s"
  shows "unat (pay_count s m) = card {ref. ss_payment s (m, ref) \<noteq> None}"
proof -
  have "unat (pay_count s m) = card (payment_refs m s)"
    using payments.run_counts [OF assms, of m "length ls"]
    by (simp add: payment_refs_def settlement_fresh_def pay_count_def)
  then show ?thesis
    by (simp add: payment_refs_def)
qed

theorem payment_counter_exact_witness:
  "\<exists>s. run settlement_step (settlement_fresh 0) [do_init, do_register, do_pay] s \<and>
    card {ref. ss_payment s (shop, ref) \<noteq> None} = 1"
proof -
  obtain s where s: "run settlement_step (settlement_fresh 0) [do_init, do_register, do_pay] s" "is_paid_state s"
    by (rule sample_paid)
  then have "unat (pay_count s shop) = 1"
    by (simp add: is_paid_state_def)
  then show ?thesis
    using payment_counter_exact [OF s(1), of shop] s(1) by (intro exI [of _ s]) simp
qed

definition prunes :: "address \<Rightarrow> bytes32 \<Rightarrow> settlement_label \<Rightarrow> bool" where
  "prunes m ref l \<longleftrightarrow>
    (\<exists>sg. snd l = PaymentCall (CallPrunePayment sg m ref)) \<or>
    (\<exists>sg refs. snd l = PaymentCall (CallPrunePayments sg m refs) \<and> ref \<in> set refs)"

lemma payment_call_keeps:
  assumes "payment_dispatch env b s = Inr ((), s')" "ss_payment s (m, ref) = Some p"
    "\<forall>sg. b \<noteq> CallPrunePayment sg m ref" "\<forall>sg refs. b = CallPrunePayments sg m refs \<longrightarrow> ref \<notin> set refs"
  shows "ss_payment s' (m, ref) = Some p"
proof (cases b)
  case (CallStorePaymentReference m' ref' a)
  then obtain rule split where "ss_payment s (m', ref') = None"
    "s' = stored_payment env m' ref' a rule split s"
    using assms(1) by (auto simp: silently_Inr act_ok)
  then show ?thesis
    using assms(2) by (auto simp: stored_payment_def)
next
  case (CallPrunePayment sg m' ref')
  then show ?thesis
    using assms by (cases "ss_payment s (m', ref')") (auto simp: act_ok)
next
  case (CallPrunePayments sg m' refs)
  then have "ss_payment s' = ss_payment (without_payments m' (set refs) s)"
    using assms(1) by (auto simp: silently_Inr act_ok Let_def without_payments_def)
  then show ?thesis
    using assms CallPrunePayments by (auto simp: without_payments_def restrict_map_def)
qed

lemma payment_kept:
  assumes "settlement_step l s s'" "ss_payment s (m, ref) = Some p" "\<not> prunes m ref l"
  shows "ss_payment s' (m, ref) = Some p"
proof -
  obtain env c where l: "l = (env, c)"
    by (cases l)
  show ?thesis
  proof (cases "\<exists>b. c = PaymentCall b")
    case True
    then obtain b where b: "c = PaymentCall b" "payment_dispatch env b s = Inr ((), s')"
      using assms(1) l by (auto simp: settlement_step_iff)
    then show ?thesis
      using payment_call_keeps [OF b(2) assms(2)] assms(3) by (auto simp: l prunes_def)
  next
    case False
    then have "payment_view s' = payment_view s"
      using step_payments assms(1) l by blast
    then show ?thesis
      using assms(2) by (simp add: payment_view_def)
  qed
qed

text \<open>
  C14. A stored record is immutable: as long as no invocation prunes its reference, the record under a
  merchant and reference stays exactly as it was stored, across rule changes, unregistration, recovery,
  upgrades and every other invocation.
\<close>

theorem payment_immutable:
  assumes "run settlement_step s ls s'" "ss_payment s (m, ref) = Some p" "\<forall>l \<in> set ls. \<not> prunes m ref l"
  shows "ss_payment s' (m, ref) = Some p"
  using assms by (induction rule: run.induct) (auto intro: payment_kept)

theorem payment_immutable_witness:
  "\<exists>s s'. run settlement_step s [do_pause] s' \<and> ss_payment s' (shop, 5) = Some sample_record"
proof -
  obtain s where s: "run settlement_step (settlement_fresh 0) [do_init, do_register, do_pay] s" "is_paid_state s"
    by (rule sample_paid)
  then have run: "\<exists>s'. run settlement_step s [do_pause] s'"
    by (simp add: is_paid_state_def sample_eval MAX_PAUSE_REASON_def)
  then obtain s' where "run settlement_step s [do_pause] s'" ..
  moreover have "ss_payment s (shop, 5) = Some sample_record"
    using s(2) by (simp add: is_paid_state_def)
  moreover have "\<forall>l \<in> set [do_pause]. \<not> prunes shop 5 l"
    by (simp add: prunes_def do_pause_def)
  ultimately show ?thesis
    using payment_immutable by blast
qed

section \<open>Storing and reading\<close>

text \<open>
  C8. The outcome of storing a payment, on every input: the checks in the order in which they are made, each
  with its error, then the resolution of the effective rule, whose error is passed on, the overflow of the
  split, and the overflow of the counter, which traps. Only when all pass is the payment stored, with
  the split of the reference under the effective rule.
\<close>

theorem store_payment_outcome:
  assumes "in_i128 amount"
  shows "store_payment_reference env m ref amount s =
    (if ref = 0 then Inl (ContractError InvalidPaymentReference)
     else if paused s then Inl (ContractError Paused)
     else if m \<notin> h_auths env then Inl AuthError
     else if m \<notin> ss_merchant s then Inl (ContractError MerchantMissing)
     else if amount < min_payment env s then Inl (ContractError AmountTooSmall)
     else if ss_payment s (m, ref) \<noteq> None then Inl (ContractError DuplicatePaymentReference)
     else (case effective_rule env s m of
         Inl e \<Rightarrow> Inl (ContractError e)
       | Inr e \<Rightarrow>
          (let p = platform_rate (er_rule e); n = network_rate (er_rule e) in
           if \<not> split_fits amount (p + n) then Inl (ContractError AmountOverflow)
           else if pay_count s m = 0xFFFFFFFF then Inl Trap
           else Inr (reference_split amount p n,
             stored_payment env m ref amount (er_rule e) (reference_split amount p n) s))))"
  by (rule store_payment_reference_run [OF assms])

theorem store_payment_outcome_witness:
  "\<exists>s s'. is_paid_state s \<and> store_payment_reference (sample_host 8) shop 9 1000 s = Inr (sample_split, s') \<and>
    ss_payment s' (shop, 9) = Some (new_record (sample_host 8) shop 1000 BOOTSTRAP_DEFAULT_RULE sample_split)"
proof -
  obtain s where s: "is_paid_state s"
    using sample_paid by blast
  let ?s = "stored_payment (sample_host 8) shop 9 1000 BOOTSTRAP_DEFAULT_RULE sample_split s"
  have "splits_to 1000 BOOTSTRAP_DEFAULT_RULE sample_split"
    by (simp add: sample_split_iff)
  then have "store_payment_reference (sample_host 8) shop 9 1000 s = Inr (sample_split, ?s)"
    using s by (simp add: store_payment_outcome [OF in_i128_1000] splits_to_iff in_i128_1000
        is_paid_state_def paused_def sample_resolution sample_host_def)
  then show ?thesis
    using s by (intro exI [of _ s] exI [of _ ?s]) (simp add: stored_payment_def)
qed

text \<open>
  C20. Round trip: after a payment was stored every reader finds it, the merchant itself and a quorum of the admins.
  \<open>get_payment_reference\<close> returns a record with the amounts of the split that \<open>store_payment_reference\<close>
  returned; every page of at most 100 references holds exactly the stored records of the page in the order asked
  for, and so this record when its reference is listed; \<open>get_payment_count\<close> is one more than before. No
  read changes payments or counters.
\<close>

theorem store_then_get:
  assumes "settlement_wf s" "store_payment_reference env m ref amount s = Inr (split, s1)"
    "read_authorized env' s1 m signers"
  shows "\<exists>p s2. get_payment_reference env' m ref signers s1 = Inr (Some p, s2) \<and>
    pay_merchant p = m \<and> pay_amount p = amount \<and>
    pay_platform_fee_amount p = fs_platform_fee_amount split \<and>
    pay_network_fee_amount p = fs_network_fee_amount split \<and>
    pay_merchant_payout_amount p = fs_merchant_payout_amount split \<and>
    pay_ledger p = h_sequence env \<and> payment_view s2 = payment_view s1 \<and>
    (\<forall>refs cursor. length refs \<le> 100 \<and> unat cursor + 100 < 2 ^ 32 \<longrightarrow>
      (\<exists>page s3. get_payments env' m refs cursor signers s1 = Inr (page, s3) \<and>
        pp_records page = List.map_filter (\<lambda>r. ss_payment s1 (m, r)) refs \<and>
        (ref \<in> set refs \<longrightarrow> p \<in> set (pp_records page)) \<and> payment_view s3 = payment_view s1)) \<and>
    (\<exists>s4. get_payment_count env' m signers s1 = Inr (pay_count s m + 1, s4) \<and>
      payment_view s4 = payment_view s1)"
proof -
  obtain e :: EffectiveRule where s1: "s1 = stored_payment env m ref amount (er_rule e) split s" "m \<in> ss_merchant s"
    using assms(2) by (auto simp: store_payment_reference_Inr)
  let ?p = "new_record env m amount (er_rule e) split"
  have read: "readable s1 m" "ss_payment s1 (m, ref) = Some ?p" "pay_count s1 m = pay_count s m + 1"
    using assms(1) s1 by (auto simp: readable_def stored_payment_def pay_count_def settlement_wf_def merchants_wf_def)
  then have "?p \<in> set (found_payments m refs s1)" if "ref \<in> set refs" for refs
    using that by (force simp: found_payments_def map_filter_def)
  with read show ?thesis
    using assms(3) by (simp add: get_payment_reference_Inr get_payments_Inr get_payment_count_Inr
        payment_view_def found_payments_def) (simp add: new_record_def)
qed

theorem store_then_get_witness:
  "\<exists>s s1 p s2 page s3. store_payment_reference (sample_host 8) shop 9 1000 s = Inr (sample_split, s1) \<and>
    get_payment_reference (sample_host 9) shop 9 [] s1 = Inr (Some p, s2) \<and> pay_merchant_payout_amount p = 989 \<and>
    get_payments (sample_host 9) shop [5, 9] 0 [] s1 = Inr (page, s3) \<and> p \<in> set (pp_records page)"
proof -
  obtain s where s: "run settlement_step (settlement_fresh 0) [do_init, do_register, do_pay] s" "is_paid_state s"
    by (rule sample_paid)
  let ?s = "stored_payment (sample_host 8) shop 9 1000 BOOTSTRAP_DEFAULT_RULE sample_split s"
  have store: "store_payment_reference (sample_host 8) shop 9 1000 s = Inr (sample_split, ?s)"
    using s(2) by (simp add: store_payment_reference_Inr is_paid_state_def paused_def sample_resolution
        sample_host_def sample_split_iff)
  have "read_authorized (sample_host 9) ?s shop []"
    by (simp add: read_authorized_def sample_host_def)
  from store_then_get [OF reachable_settlement_wf [OF s(1)] store this]
  obtain p s2 where p: "get_payment_reference (sample_host 9) shop 9 [] ?s = Inr (Some p, s2)"
    "pay_merchant_payout_amount p = fs_merchant_payout_amount sample_split"
    "\<forall>refs (cursor :: u32). length refs \<le> 100 \<and> unat cursor + 100 < 2 ^ 32 \<longrightarrow>
      (\<exists>page s3. get_payments (sample_host 9) shop refs cursor [] ?s = Inr (page, s3) \<and>
        (9 \<in> set refs \<longrightarrow> p \<in> set (pp_records page)))"
    by blast
  obtain page s3 where "get_payments (sample_host 9) shop [5, 9] 0 [] ?s = Inr (page, s3)" "p \<in> set (pp_records page)"
    using p(3) [rule_format, of "[5, 9]" 0] by auto
  moreover have "pay_merchant_payout_amount p = 989"
    using p(2) by (simp add: sample_split_def)
  ultimately show ?thesis
    using store p(1) by blast
qed

text \<open>
  A page of payments holds the existing records of the requested references in the order of the
  request, the cursor continues exactly after a full page of 100 references, and reading changes no
  payment and no counter. A request of more than 100 references, or by somebody who is neither the merchant
  nor a quorum of admins, is refused.
\<close>

lemma get_payments_page:
  "get_payments env m refs cursor signers s = Inr (page, s') \<Longrightarrow>
    pp_records page = List.map_filter (\<lambda>ref. ss_payment s (m, ref)) refs \<and>
    pp_next_cursor page = (if length refs = 100 then Some (cursor + 100) else None) \<and>
    length refs \<le> 100 \<and> payment_view s' = payment_view s \<and>
    (if signers = [] then m \<in> h_auths env else quorum env s signers) \<and> m \<in> ss_merchant s"
  by (auto simp: get_payments_Inr found_payments_def payment_view_def read_authorized_def readable_def)

section \<open>Pruning and pausing\<close>

text \<open>
  The outcome of a batch prune by a quorum; a batch of more than 100 references is refused.
\<close>

lemma prune_payments_outcome:
  assumes "prune_payments env signers m refs s = Inr (n, s')"
  shows "unat n = card {ref \<in> set refs. ss_payment s (m, ref) \<noteq> None}"
    "ss_payment s' = ss_payment s |` (- ({m} \<times> set refs))"
    "unat (pay_count s' m) = unat (pay_count s m) - unat n"
    "m' \<noteq> m \<Longrightarrow> pay_count s' m' = pay_count s m'"
proof -
  let ?n = "word_of_nat (card (pruned_refs m refs s)) :: u32"
  let ?s = "s\<lparr>st_bumps := st_bumps s @ [instance_bump, instance_bump]\<rparr>"
  have p: "length refs \<le> 100" "n = ?n"
    "payment_view s' = payment_view (pruned_count m ?n (without_payments m (set refs) ?s))"
    using assms by (simp_all add: prune_payments_ok Let_def)
  have "card (pruned_refs m refs s) < 2 ^ 32"
    using card_pruned_refs_le [of m refs s] p(1) by simp
  then show "unat n = card {ref \<in> set refs. ss_payment s (m, ref) \<noteq> None}"
    by (simp add: p(2) unat_of_nat take_bit_nat_eq_self pruned_refs_def)
  show "ss_payment s' = ss_payment s |` (- ({m} \<times> set refs))"
    using p(3) by (simp add: payment_view_def without_payments_def)
  have count: "pay_count s' k = pay_count (pruned_count m ?n (without_payments m (set refs) ?s)) k" for k
    using p(3) by (simp add: payment_view_def pay_count_def)
  show "unat (pay_count s' m) = unat (pay_count s m) - unat n" "m' \<noteq> m \<Longrightarrow> pay_count s' m' = pay_count s m'"
    using pay_count_pruned [of m ?n "without_payments m (set refs) ?s"] by (simp_all add: count p(2) word_unat_eq_iff)
qed

lemma prune_payments_too_large:
  assumes "quorum env s signers" "100 < length refs"
  shows "prune_payments env signers m refs s = Inl (ContractError BatchTooLarge)"
  using assms by (auto simp: prune_payments_def MAX_PAYMENTS_BATCH_def quorum_def act_simps act_ok)

text \<open>
  C21. Pruning, for a quorum of the admins and any list of references. Up to 100 references the batch prune always
  goes through: it removes exactly the listed records of the merchant that exist, returns their number even when
  references are listed twice, lowers the merchant's counter by as many and leaves the other counters alone. A
  longer list fails with \<open>BatchTooLarge\<close>. None of this depends on the pause, which does stop the
  single prune: \<open>prune_payment\<close> then fails with \<open>Paused\<close>.
\<close>

theorem prune_payments_exact:
  assumes "quorum env s signers" "signers \<noteq> []"
  shows "(if 100 < length refs
      then prune_payments env signers m refs s = Inl (ContractError BatchTooLarge)
      else \<exists>n s'. prune_payments env signers m refs s = Inr (n, s') \<and>
        unat n = card {ref \<in> set refs. ss_payment s (m, ref) \<noteq> None} \<and>
        ss_payment s' = ss_payment s |` (- ({m} \<times> set refs)) \<and>
        unat (pay_count s' m) = unat (pay_count s m) - unat n \<and>
        (\<forall>m'. m' \<noteq> m \<longrightarrow> pay_count s' m' = pay_count s m')) \<and>
    (paused s \<longrightarrow> prune_payment env signers m ref s = Inl (ContractError Paused))"
proof (rule conjI, goal_cases)
  case 1
  show ?case
  proof (cases "100 < length refs")
    case False
    then obtain n s' where r: "prune_payments env signers m refs s = Inr (n, s')"
      using assms by (simp add: prune_payments_ok Let_def)
    show ?thesis
      using False r prune_payments_outcome [OF r] by auto
  qed (simp add: prune_payments_too_large [OF assms(1)])
next
  case 2
  show ?case
    by (simp add: prune_payment_def assert_not_paused_def is_paused_run host_eval)
qed

text \<open>Pruning the one record of the sample history, listed twice, while the contract is paused.\<close>

theorem prune_payments_exact_witness:
  "\<exists>s n s'. paused s \<and> prune_payments (sample_host 9) [alice, bob] shop [5, 5, 6] s = Inr (n, s') \<and> unat n = 1 \<and>
    ss_payment s' (shop, 5) = None \<and>
    prune_payment (sample_host 9) [alice, bob] shop 5 s = Inl (ContractError Paused)"
proof -
  obtain s0 where s0: "is_paid_state s0"
    using sample_paid by blast
  let ?s = "s0\<lparr>st_paused := Some True\<rparr>"
  have s: "paused ?s" "quorum (sample_host 9) ?s [alice, bob]"
    using s0 by (simp_all add: is_paid_state_def paused_def quorum_def admin_quorum_def sample_host_def
        sample_addresses)
  have "{ref \<in> set [5, 5, 6]. ss_payment ?s (shop, ref) \<noteq> None} = {5}"
    using s0 by (auto simp: is_paid_state_def)
  then show ?thesis
    using prune_payments_exact [OF s(2), of "[5, 5, 6]" shop 5] s(1)
    by (intro exI [of _ ?s]) (auto simp: restrict_map_def)
qed

end
