(* ===== verification/Queue_Properties.thy ===== *)
theory Queue_Properties
  imports Samples
begin

text \<open>
  The queue of timelocked operations: an executed operation was scheduled by a quorum at least seven days
  before, runs once, is held back by a pending recovery, and is counted; what batch cancellation and the dry
  run do.
\<close>

section \<open>The timelock\<close>

text \<open>
  C3. Timelock over every history: whenever an operation is executed, a quorum of the admins of that time
  scheduled this operation at least seven days before, and between that scheduling and the execution the
  entry was not executed already. The hypothesis on the encoding is that no other operation encodes to the
  same bytes.
\<close>

theorem execution_was_scheduled:
  assumes "run settlement_step (settlement_fresh wasm) ls s"
    "settlement_step (env, QueueCall (CallExecute executor op)) s s'"
    "\<forall>l \<in> set ls. \<forall>op'. h_to_xdr (fst l) op' = h_to_xdr env op \<longrightarrow> op' = op"
  shows "\<exists>ls1 env1 signers delay ls2 s1.
    ls = ls1 @ (env1, QueueCall (CallSchedule signers op delay)) # ls2 \<and>
    run settlement_step (settlement_fresh wasm) ls1 s1 \<and> quorum env1 s1 signers \<and>
    unat (h_timestamp env1) + 604800 \<le> unat (h_timestamp env) \<and>
    (\<forall>l \<in> set ls2. \<not> queue_fires (entry_of env op) l)"
proof -
  let ?k = "entry_of env op"
  have "queue_ready ?k (settlement_fresh wasm) = None"
    by (simp add: queue_ready_def settlement_fresh_def)
  moreover have "queue_fires ?k (env, QueueCall (CallExecute executor op))"
    by (simp add: queue_fires_def)
  ultimately obtain t ls1 m ls2 s1 where h: "ls = ls1 @ m # ls2"
    "run settlement_step (settlement_fresh wasm) ls1 s1" "queue_opens ?k t s1 m"
    "label_time m + unat MIN_TIMELOCK_DELAY_SECONDS \<le> label_time (env, QueueCall (CallExecute executor op))"
    "\<forall>l \<in> set ls2. \<not> queue_fires ?k l"
    using queue.fire_after_delay [OF assms(1) _ assms(2), of ?k] by blast
  then obtain signers op' delay where m: "snd m = QueueCall (CallSchedule signers op' delay)"
    "entry_of (fst m) op' = ?k" "quorum (fst m) s1 signers"
    by (auto simp: queue_opens_def)
  have "op' = op"
    using assms(3) m(2) h(1) by (auto simp: entry_of_def)
  then have "m = (fst m, QueueCall (CallSchedule signers op delay))"
    using m(1) by (simp add: prod_eq_iff)
  then show ?thesis
    using h m(3) by (intro exI [of _ ls1] exI [of _ "fst m"] exI [of _ signers] exI [of _ delay]
        exI [of _ ls2] exI [of _ s1]) (auto simp: label_time_def MIN_TIMELOCK_DELAY_SECONDS_unat)
qed

lemma sample_queued:
  "\<exists>s. run settlement_step (settlement_fresh 0) [do_init, do_schedule] s \<and>
    (\<exists>s'. settlement_step do_execute s s')"
  by (simp add: sample_eval executable_def)

theorem execution_was_scheduled_witness:
  "\<exists>ls1 env1 signers delay ls2. [do_init, do_schedule] =
      ls1 @ (env1, QueueCall (CallSchedule signers sample_op delay)) # ls2 \<and>
    unat (h_timestamp env1) + 604800 \<le> 604810"
proof -
  obtain s s' where s: "run settlement_step (settlement_fresh 0) [do_init, do_schedule] s"
    "settlement_step (sample_host 604810, QueueCall (CallExecute bob sample_op)) s s'"
    using sample_queued by (auto simp: do_execute_def)
  have "\<forall>l \<in> set [do_init, do_schedule]. \<forall>op'.
      h_to_xdr (fst l) op' = h_to_xdr (sample_host 604810) sample_op \<longrightarrow> op' = sample_op"
    by (simp add: do_init_def do_schedule_def sample_host_def)
  then show ?thesis
    using execution_was_scheduled [OF s] by (fastforce simp: sample_host_def)
qed

text \<open>
  Exactly when an operation is scheduled: by a quorum, while the contract is not paused, with a delay
  between seven and thirty days that does not overflow the clock, with a payload within bounds, while
  governance answers, and when its slot is free. It is then due the delay from now, and only the queue
  changes.
\<close>

lemma schedule_accepts:
  "(\<exists>s'. schedule env signers op d s = Inr ((), s')) \<longleftrightarrow>
    \<not> paused s \<and> quorum env s signers \<and> signers \<noteq> [] \<and> 604800 \<le> unat d \<and> unat d \<le> 2592000 \<and>
    unat (h_timestamp env) + unat d < 2 ^ 64 \<and> schedulable env op \<and> governance_answers env s \<and>
    ss_scheduled s (op_hash env op) = None"
  by (auto simp: schedule_Inr valid_delay_def)

text \<open>
  An operation is executed once: right after an execution the same operation is not scheduled any more,
  so a second execution fails with \<open>OperationNotScheduled\<close> whoever tries.
\<close>

lemma execution_is_final:
  assumes "execute env executor op s = Inr ((), s')" "op_hash env' op = op_hash env op"
  shows "execute env' executor' op s' = Inl (ContractError OperationNotScheduled)"
proof -
  have "\<not> paused s'" "ss_scheduled s' (op_hash env' op) = None"
    using assms execute_queue(1,3) [OF assms(1)] by (auto simp: execute_Inr executable_def)
  then show ?thesis
    by (simp add: execute_def validate_scheduled_execution_def assert_not_paused_def is_paused_run act_eval)
qed

section \<open>Recovery and the queue\<close>

text \<open>
  While a recovery is pending, a due operation other than \<open>CancelRecovery\<close> is held back: executing it
  fails with \<open>RecoveryDelayActive\<close> and leaves it queued.
\<close>

lemma recovery_blocks_queue:
  assumes "\<not> paused s" "queued env s op" "st_pending_recovery s \<noteq> None" "op \<noteq> CancelRecovery"
    "so_execute_at (the (ss_scheduled s (op_hash env op))) \<le> h_timestamp env"
  shows "execute env executor op s = Inl (ContractError RecoveryDelayActive)"
  using assms
  by (auto simp: execute_def validate_scheduled_execution_def assert_not_paused_def is_paused_run queued_def
      act_eval)

section \<open>Bookkeeping, dry runs and batch cancellation\<close>

text \<open>
  C17. The counter of pending operations is the number of queued entries after every history of fewer than
  \<open>2 ^ 32\<close> invocations (the counter saturates, so the bound is its capacity).
\<close>

theorem queue_counter_exact:
  assumes "run settlement_step (settlement_fresh wasm) ls s" "length ls < 2 ^ 32"
  shows "unat (queue_count s) = card {k. ss_scheduled s k \<noteq> None}"
proof -
  have "unat (queue_count s) = card (dom (ss_scheduled s))"
    using queue_counter.run_counts [OF assms(1)] assms(2)
    by (simp add: settlement_fresh_def queue_count_def)
  then show ?thesis
    by (simp add: dom_def)
qed

theorem queue_counter_exact_witness:
  "\<exists>s. run settlement_step (settlement_fresh 0) [do_init, do_schedule] s \<and>
    unat (queue_count s) = card {k. ss_scheduled s k \<noteq> None} \<and> ss_scheduled s 1 \<noteq> None"
proof -
  have "\<exists>s. run settlement_step (settlement_fresh 0) [do_init, do_schedule] s \<and> ss_scheduled s 1 \<noteq> None"
    by (simp add: sample_eval)
  then obtain s where s: "run settlement_step (settlement_fresh 0) [do_init, do_schedule] s"
    "ss_scheduled s 1 \<noteq> None"
    by blast
  then show ?thesis
    using queue_counter_exact [OF s(1)] by (intro exI [of _ s]) simp
qed

text \<open>
  A dry run predicts an execution: it never changes the state, it fails with the error the execution
  would fail with before dispatching, and when it passes the execution takes the operation out of the queue
  and does what the operation says.
\<close>

lemma dry_run_predicts_execute:
  "execute env executor op s =
    (case dry_run env op s of
       Inl e \<Rightarrow> Inl e
     | Inr (_, s1) \<Rightarrow>
        (case dispatch_operation env executor op (dequeued (op_hash env op) s1) of
           Inl e \<Rightarrow> Inl e
         | Inr (_, s2) \<Rightarrow> publish [ScSymbol OP_EXECUTED_EVENT, ScBytes32 (op_hash env op)] ScVoid s2)) \<and>
   dry_run env op s \<in> insert (Inr ((), s)) (range Inl)"
proof (cases "validate_scheduled_execution env op s")
  case (Inl e)
  then show ?thesis
    by (simp add: execute_def dry_run_def bind_run)
next
  case (Inr r)
  then have "r = (op_hash env op, s)"
    by (simp add: validate_scheduled_execution_Inr)
  then show ?thesis
    using Inr by (simp add: execute_def dry_run_def bind_run andthen_run ret_run
        consume_scheduled_operation_run)
qed

text \<open>
  Only an execution or a cancellation of an operation with this hash empties a slot of the queue.
\<close>

definition empties_slot :: "bytes32 \<Rightarrow> settlement_label \<Rightarrow> bool" where
  "empties_slot k l \<longleftrightarrow>
    (\<exists>ex op. snd l = QueueCall (CallExecute ex op) \<and> op_hash (fst l) op = k) \<or>
    (\<exists>sg op. snd l = QueueCall (CallCancel sg op) \<and> op_hash (fst l) op = k) \<or>
    (\<exists>sg ops. snd l = QueueCall (CallCancelAll sg ops) \<and> k \<in> op_hash (fst l) ` set ops)"

lemma queue_call_keeps_entry:
  assumes "queue_dispatch env q s = Inr ((), s')" "\<not> empties_slot k (env, QueueCall q)" "ss_scheduled s k = Some e"
  shows "ss_scheduled s' k = Some e"
proof (cases q)
  case (CallSchedule sg op d)
  then show ?thesis
    using assms(1,3) by (auto simp: schedule_Inr enqueued_def)
next
  case (CallExecute ex op)
  then have "execute env ex op s = Inr ((), s')" "op_hash env op \<noteq> k"
    using assms(1,2) by (auto simp: empties_slot_def)
  then show ?thesis
    using execute_queue(1) assms(3) by force
next
  case (CallCancel sg op)
  then show ?thesis
    using assms by (auto simp: cancel_Inr empties_slot_def)
next
  case (CallCancelAll sg ops)
  then obtain n where "cancel_all env sg ops s = Inr (n, s')" "k \<notin> cancelled_slots env ops s"
    using assms(1,2) by (auto simp: silently_Inr empties_slot_def cancelled_slots_def)
  then show ?thesis
    using cancel_all_frame(4) assms(3) by (fastforce simp: restrict_map_def)
qed

lemma run_keeps_entry:
  assumes "run settlement_step s ls s'" "\<forall>l \<in> set ls. \<not> empties_slot k l" "ss_scheduled s k = Some e"
  shows "ss_scheduled s' k = Some e"
  using assms
proof (induction rule: run.induct)
  case (run_snoc s ls s1 l s2)
  then have s1: "ss_scheduled s1 k = Some e" "settlement_step l s1 s2" "\<not> empties_slot k l"
    by simp_all
  obtain env c where l: "l = (env, c)"
    by (cases l)
  show ?case
  proof (cases "\<exists>q. c = QueueCall q")
    case True
    then show ?thesis
      using queue_call_keeps_entry s1 l by (auto simp: settlement_step_iff)
  next
    case False
    then show ?thesis
      using step_queue [of env c s1 s2] s1 l by (simp add: queue_view_def)
  qed
qed simp

lemma dry_run_entry:
  assumes "ss_scheduled s (op_hash env op) = Some e" "so_operation_xdr e = h_to_xdr env op" "\<not> paused s"
  shows "dry_run env op s =
    (if h_timestamp env < so_execute_at e then Inl (ContractError ExecutionNotReady)
     else if st_pending_recovery s \<noteq> None \<and> op \<noteq> CancelRecovery then Inl (ContractError RecoveryDelayActive)
     else Inr ((), s))"
  using assms by (simp add: dry_run_def validate_scheduled_execution_def assert_not_paused_def is_paused_run act_eval)

text \<open>
  C19. The life of a scheduled operation, over every history that follows its scheduling without executing or
  cancelling it, within the lifetime of 30 days of ledgers that the scheduling requests for its entry, as long as
  encoding and hash of the operation do not change. While the contract is not paused the operation cannot be executed
  before its delay has passed, nor while a recovery is pending (unless it is \<open>CancelRecovery\<close>), each with its error; in
  all other cases it is ready. A dry run tells exactly which of these holds and changes nothing, and the execution of a
  ready operation is what the operation does to the state without the entry. All this time it cannot be scheduled
  again, and a quorum can cancel it. Beyond the requested lifetime the host may archive the entry, and nothing is
  claimed.
\<close>

theorem scheduled_operation_lifecycle:
  assumes "schedule env signers op delay s0 = Inr ((), s1)" "run settlement_step s1 ls s"
    "\<forall>l \<in> set ls. \<not> empties_slot (op_hash env op) l" "\<not> paused s"
    "h_to_xdr env' op = h_to_xdr env op" "op_hash env' op = op_hash env op"
    "unat (h_sequence env') \<le> unat (h_sequence env) + unat SCHEDULED_OP_TTL_BUMP"
  shows "BumpPersistent (ScheduledOperation (op_hash env op)) SCHEDULED_OP_TTL_THRESHOLD SCHEDULED_OP_TTL_BUMP
      \<in> set (st_bumps s1) \<and>
    dry_run env' op s =
      (if unat (h_timestamp env') < unat (h_timestamp env) + unat delay then Inl (ContractError ExecutionNotReady)
       else if st_pending_recovery s \<noteq> None \<and> op \<noteq> CancelRecovery then Inl (ContractError RecoveryDelayActive)
       else Inr ((), s)) \<and>
    execute env' executor op s =
      (case dry_run env' op s of
         Inl e \<Rightarrow> Inl e
       | Inr _ \<Rightarrow>
          (case dispatch_operation env' executor op (dequeued (op_hash env op) s) of
             Inl e \<Rightarrow> Inl e
           | Inr (_, s2) \<Rightarrow> publish [ScSymbol OP_EXECUTED_EVENT, ScBytes32 (op_hash env op)] ScVoid s2)) \<and>
    schedule env' signers' op delay' s \<noteq> Inr r \<and>
    (quorum env' s signers' \<and> signers' \<noteq> [] \<longrightarrow>
      (\<exists>s2. cancel env' signers' op s = Inr ((), s2) \<and> ss_scheduled s2 (op_hash env op) = None))"
proof -
  let ?e = "\<lparr>so_operation_xdr = h_to_xdr env op, so_execute_at = h_timestamp env + delay\<rparr>"
  have "ss_scheduled s1 (op_hash env op) = Some ?e" and due: "unat (h_timestamp env) + unat delay < 2 ^ 64"
    using assms(1) by (auto simp: schedule_Inr enqueued_def)
  then have entry: "ss_scheduled s (op_hash env' op) = Some ?e"
    using run_keeps_entry [OF assms(2,3)] assms(6) by simp
  have dry: "dry_run env' op s =
      (if h_timestamp env' < h_timestamp env + delay then Inl (ContractError ExecutionNotReady)
       else if st_pending_recovery s \<noteq> None \<and> op \<noteq> CancelRecovery then Inl (ContractError RecoveryDelayActive)
       else Inr ((), s))"
    using dry_run_entry [OF entry _ assms(4)] assms(5) by simp
  have run: "execute env' executor op s =
      (case dry_run env' op s of
         Inl e \<Rightarrow> Inl e
       | Inr _ \<Rightarrow>
          (case dispatch_operation env' executor op (dequeued (op_hash env op) s) of
             Inl e \<Rightarrow> Inl e
           | Inr (_, s2) \<Rightarrow> publish [ScSymbol OP_EXECUTED_EVENT, ScBytes32 (op_hash env op)] ScVoid s2))"
    using dry_run_predicts_execute [of env' executor op s]
    by (cases "dry_run env' op s") (auto simp only: assms(6) sum.case prod.case sum.inject image_iff)
  have "schedule env' signers' op delay' s \<noteq> Inr r"
    using entry by (simp add: schedule_Inr)
  moreover have "\<exists>s2. cancel env' signers' op s = Inr ((), s2) \<and> ss_scheduled s2 (op_hash env op) = None"
    if "quorum env' s signers'" "signers' \<noteq> []"
    using that entry assms(4-6) by (simp add: cancel_Inr queued_def)
  moreover have "BumpPersistent (ScheduledOperation (op_hash env op)) SCHEDULED_OP_TTL_THRESHOLD SCHEDULED_OP_TTL_BUMP
      \<in> set (st_bumps s1)"
    using assms(1) by (simp add: schedule_Inr)
  moreover have "h_timestamp env' < h_timestamp env + delay \<longleftrightarrow>
      unat (h_timestamp env') < unat (h_timestamp env) + unat delay"
    using due by (simp add: word_less_nat_alt unat_add_u64)
  ultimately show ?thesis
    using run dry by (simp only:) blast
qed

theorem scheduled_operation_lifecycle_witness:
  "\<exists>s1 s2. run settlement_step (settlement_fresh 0) [do_init, do_schedule] s1 \<and>
    dry_run (sample_host 20) sample_op s1 = Inl (ContractError ExecutionNotReady) \<and>
    dry_run (sample_host 604810) sample_op s1 = Inr ((), s1) \<and>
    cancel (sample_host 20) [alice, bob] sample_op s1 = Inr ((), s2)"
proof -
  have "\<exists>s0. run settlement_step (settlement_fresh 0) [do_init] s0 \<and>
      (\<exists>s1. schedule (sample_host 10) [alice, bob] sample_op 604800 s0 = Inr ((), s1) \<and> \<not> paused s1 \<and>
        st_pending_recovery s1 = None \<and> quorum (sample_host 20) s1 [alice, bob])"
    by (simp add: sample_eval)
  then obtain s0 s1 where s: "run settlement_step (settlement_fresh 0) [do_init] s0"
    "schedule (sample_host 10) [alice, bob] sample_op 604800 s0 = Inr ((), s1)" "\<not> paused s1"
    "st_pending_recovery s1 = None" "quorum (sample_host 20) s1 [alice, bob]"
    by blast
  have "settlement_step do_schedule s0 s1"
    using s(2) by (simp add: do_schedule_def settlement_step_iff call_typed_def)
  then have "run settlement_step (settlement_fresh 0) [do_init, do_schedule] s1"
    using run_snoc [OF s(1)] by fastforce
  moreover have host: "h_to_xdr (sample_host t) sample_op = h_to_xdr (sample_host 10) sample_op"
    "op_hash (sample_host t) sample_op = op_hash (sample_host 10) sample_op"
    "h_timestamp (sample_host t) = t" "h_sequence (sample_host t) = 7" for t
    by (simp_all add: sample_host_def op_hash_def)
  moreover have "dry_run (sample_host 20) sample_op s1 = Inl (ContractError ExecutionNotReady)"
    "\<exists>s2. cancel (sample_host 20) [alice, bob] sample_op s1 = Inr ((), s2)"
    using scheduled_operation_lifecycle [OF s(2) run_nil _ s(3) host(1,2), of 20 _ "[alice, bob]"] s(5)
    by (simp_all add: host(3,4)) blast
  moreover have "dry_run (sample_host 604810) sample_op s1 = Inr ((), s1)"
    using scheduled_operation_lifecycle [OF s(2) run_nil _ s(3) host(1,2), of 604810] s(4) by (simp add: host(3,4))
  ultimately show ?thesis
    by blast
qed

text \<open>
  The outcome of a batch cancellation; one of more than 50 operations is refused.
\<close>

lemma cancel_all_outcome:
  assumes "cancel_all env signers ops s = Inr (n, s')"
  shows "ss_scheduled s' = ss_scheduled s |` (- (op_hash env ` {op \<in> set ops. queued env s op})) \<and>
    unat n = card (op_hash env ` {op \<in> set ops. queued env s op}) \<and>
    unat (queue_count s') = unat (queue_count s) - unat n \<and>
    admin_view s' = admin_view s \<and> merchant_view s' = merchant_view s \<and> payment_view s' = payment_view s"
  using cancel_all_frame [OF assms] by (simp add: cancelled_slots_def)

lemma cancel_all_too_large:
  assumes "quorum env s signers" "signers \<noteq> []" "\<not> paused s" "50 < length ops"
  shows "cancel_all env signers ops s = Inl (ContractError BatchTooLarge)"
  using assms by (auto simp: cancel_all_def MAX_CANCEL_ALL_BATCH_def quorum_def act_simps act_ok get0_hd)

text \<open>
  C18. Batch cancellation by a quorum, when the contract is not paused: a list of up to 50 operations always goes
  through, empties exactly the slots of the listed operations that are queued, returns their number even
  when operations are listed twice, lowers the counter by as many, and changes nothing outside the queue. A longer
  list fails with \<open>BatchTooLarge\<close>.
\<close>

theorem cancel_all_exact:
  assumes "quorum env s signers" "signers \<noteq> []" "\<not> paused s"
  shows "if 50 < length ops
    then cancel_all env signers ops s = Inl (ContractError BatchTooLarge)
    else \<exists>n s'. cancel_all env signers ops s = Inr (n, s') \<and>
      ss_scheduled s' = ss_scheduled s |` (- (op_hash env ` {op \<in> set ops. queued env s op})) \<and>
      unat n = card (op_hash env ` {op \<in> set ops. queued env s op}) \<and>
      unat (queue_count s') = unat (queue_count s) - unat n \<and>
      admin_view s' = admin_view s \<and> merchant_view s' = merchant_view s \<and> payment_view s' = payment_view s"
proof (cases "50 < length ops")
  case False
  obtain n s1 where "cancel_each env ops 0 (s\<lparr>st_bumps := st_bumps s @ [instance_bump, instance_bump]\<rparr>) =
      Inr (n, s1)"
    using cancel_each_run [of 0 ops env "s\<lparr>st_bumps := st_bumps s @ [instance_bump, instance_bump]\<rparr>"] False
    by auto
  then obtain s' where r: "cancel_all env signers ops s = Inr (n, s')"
    using assms False by (simp add: cancel_all_ok)
  show ?thesis
    using False r cancel_all_outcome [OF r] by auto
qed (simp add: cancel_all_too_large [OF assms])

theorem cancel_all_exact_witness:
  "\<exists>s n s'. run settlement_step (settlement_fresh 0) [do_init, do_schedule] s \<and>
    cancel_all (sample_host 20) [alice, bob] [sample_op, sample_op] s = Inr (n, s') \<and> unat n = 1"
proof -
  have "\<exists>s. run settlement_step (settlement_fresh 0) [do_init, do_schedule] s \<and> \<not> paused s \<and>
      quorum (sample_host 20) s [alice, bob] \<and> queued (sample_host 20) s sample_op"
    by (simp add: sample_eval queued_def)
  then obtain s where s: "run settlement_step (settlement_fresh 0) [do_init, do_schedule] s"
    "quorum (sample_host 20) s [alice, bob]" "\<not> paused s" "queued (sample_host 20) s sample_op"
    by blast
  have "{op \<in> set [sample_op, sample_op]. queued (sample_host 20) s op} = {sample_op}"
    using s(4) by auto
  then show ?thesis
    using cancel_all_exact [OF s(2) _ s(3), of "[sample_op, sample_op]"] s(1) by auto
qed

end
