(* ===== verification/Admin_Properties.thy ===== *)
theory Admin_Properties
  imports Samples
begin

text \<open>
  The administration of the settlement contract: what holds in every reachable state, who can change what,
  what the executable can change to, and the recovery delay and its veto.
\<close>

section \<open>Reachable states\<close>

text \<open>
  C6. In every reachable state: before initialisation nothing is configured, nothing is queued; afterwards the
  admins are distinct and none is the zero address, the threshold is between 1 and their number, recovery and
  governance addresses are set; registered merchants are not archived, every merchant rule belongs to a
  registered merchant and it and the default rule are within bounds; every stored record belongs to its key's
  merchant, under a reference that is not zero, with legs that are not negative and add up to its amount.
\<close>

theorem settlement_reachable_consistent:
  assumes "run settlement_step (settlement_fresh wasm) ls s"
  shows "(case st_admin s of
       None \<Rightarrow> st_threshold s = None \<and> st_recovery_address s = None \<and> ss_governance s = None \<and>
         ss_scheduled s = Map.empty
     | Some admins \<Rightarrow> distinct admins \<and> zero_address \<notin> set admins \<and>
         (\<exists>t. st_threshold s = Some t \<and> 0 < unat t \<and> unat t \<le> length admins) \<and>
         (\<exists>a. st_recovery_address s = Some a \<and> a \<noteq> zero_address) \<and>
         (\<exists>g. ss_governance s = Some g \<and> g \<noteq> zero_address)) \<and>
    ss_merchant s \<inter> ss_archived s = {} \<and>
    (\<forall>m r. ss_rule s m = Some r \<longrightarrow> valid_rule r \<and> m \<in> ss_merchant s) \<and>
    (\<forall>r. ss_default_rule s = Some r \<longrightarrow> valid_rule r) \<and>
    (\<forall>m ref p. ss_payment s (m, ref) = Some p \<longrightarrow> ref \<noteq> 0 \<and> pay_merchant p = m \<and>
      0 \<le> pay_platform_fee_amount p \<and> 0 \<le> pay_network_fee_amount p \<and> 0 \<le> pay_merchant_payout_amount p \<and>
      pay_platform_fee_amount p + pay_network_fee_amount p + pay_merchant_payout_amount p =
        max (pay_amount p) 0)"
proof -
  have wf: "admin_wf s" "merchants_wf s" "payments_wf s" "queue_wf s"
    using reachable_settlement_wf [OF assms] by (simp_all add: settlement_wf_def)
  have "case st_admin s of
       None \<Rightarrow> st_threshold s = None \<and> st_recovery_address s = None \<and> ss_governance s = None \<and>
         ss_scheduled s = Map.empty
     | Some admins \<Rightarrow> distinct admins \<and> zero_address \<notin> set admins \<and>
         (\<exists>t. st_threshold s = Some t \<and> 0 < unat t \<and> unat t \<le> length admins) \<and>
         (\<exists>a. st_recovery_address s = Some a \<and> a \<noteq> zero_address) \<and>
         (\<exists>g. ss_governance s = Some g \<and> g \<noteq> zero_address)"
    using wf(1,4) by (auto simp: admin_wf_def shared_wf_def queue_wf_def unat_gt_0 split: option.splits)
  then show ?thesis
    using wf(2,3) by (auto simp: merchants_wf_def payments_wf_def record_wf_def)
qed

theorem settlement_reachable_consistent_witness:
  "\<exists>s. run settlement_step (settlement_fresh 0) [do_init, do_register, do_pay] s \<and>
    pay_platform_fee_amount sample_record + pay_network_fee_amount sample_record +
      pay_merchant_payout_amount sample_record = 1000"
proof -
  obtain s where s: "run settlement_step (settlement_fresh 0) [do_init, do_register, do_pay] s" "is_paid_state s"
    by (rule sample_paid)
  have "ss_payment s (shop, 5) = Some sample_record" "pay_amount sample_record = 1000"
    using s(2) by (simp_all add: is_paid_state_def sample_record_def new_record_def)
  then show ?thesis
    using settlement_reachable_consistent [OF s(1)] s(1) by (metis max.absorb1 zero_le_numeral)
qed

section \<open>Who can change what\<close>

lemma too_few_admins:
  assumes "st_admin s = Some admins" "st_threshold s = Some t" "card (set admins \<inter> h_auths env) < unat t"
  shows "\<not> quorum env s sg" "unat t + 1 < 2 ^ 32 \<Longrightarrow> \<not> admin_quorum env s sg (t + 1)"
proof -
  show no: "\<not> quorum env s sg" for sg
  proof
    assume "quorum env s sg"
    then have "verify_admin_auth env sg t s = Inr ((), touch s)"
      using assms(2) by (simp add: settlement_auth.verify_ok quorum_def)
    then show False
      using settlement_auth.verify_count [OF _ assms(1)] assms(3) by fastforce
  qed
  show "\<not> admin_quorum env s sg (t + 1)" if "unat t + 1 < 2 ^ 32"
    using no [of sg] that assms(1,2) unat_add_u32 [of t 1] by (auto simp: quorum_def admin_quorum_def)
qed

lemma read_keeps_wasm:
  assumes "read_dispatch env b s = Inr ((), s')"
  shows "st_wasm s' = st_wasm s"
  using assms by (cases b) (auto simp: settlement_getter_defs act_simps act_ok)

text \<open>
  C7. Without a quorum nothing is administered: when fewer admins than the threshold authorised an
  invocation, and it is neither an execution from the queue nor one of the recovery entry points, then
  the admin set, governance, the pause flag, the merchants, the rules, the queue and the executable stay as
  they are, and no stored payment is lost or changed.
\<close>

theorem no_change_without_quorum:
  assumes "settlement_step (env, c) s s'" "st_admin s = Some admins" "st_threshold s = Some t"
    "card (set admins \<inter> h_auths env) < unat t"
    "\<forall>executor op. c \<noteq> QueueCall (CallExecute executor op)"
    "\<forall>a. c \<noteq> AdminCall (CallInitiateRecovery a)" "\<forall>sg. c \<noteq> AdminCall (CallCancelRecovery sg)"
    "c \<noteq> AdminCall CallExecuteRecovery"
  shows "admin_view s' = admin_view s \<and> merchant_view s' = merchant_view s \<and> queue_view s' = queue_view s \<and>
    st_wasm s' = st_wasm s \<and> ss_payment s \<subseteq>\<^sub>m ss_payment s'"
proof -
  note no = too_few_admins [OF assms(2-4)]
  have d: "settlement_dispatch env c s = Inr ((), s')"
    using assms(1) by (simp add: settlement_step_iff)
  show ?thesis
  proof (cases c)
    case (AdminCall a)
    then show ?thesis
      using d no assms by (cases a) (auto simp: act_ok)
  next
    case (QueueCall q)
    then show ?thesis
      using d no assms(5) by (cases q) (auto simp: silently_Inr act_ok)
  next
    case (MerchantCall b)
    then show ?thesis
      using d no by (cases b) (auto simp: act_ok)
  next
    case (PaymentCall b)
    then show ?thesis
      using d no by (cases b) (auto simp: silently_Inr act_ok stored_payment_def view_defs map_le_def)
  next
    case (ReadCall b)
    then have b: "read_dispatch env b s = Inr ((), s')"
      using d by simp
    show ?thesis
      using read_frame [OF b] read_keeps_wasm [OF b] by (simp add: payment_view_def)
  qed
qed

theorem no_change_without_quorum_witness:
  "\<exists>s s'. is_paid_state s \<and> settlement_step (sample_host 9\<lparr>h_auths := {shop}\<rparr>,
      PaymentCall (CallStorePaymentReference shop 9 1000)) s s' \<and>
    admin_view s' = admin_view s \<and> ss_payment s' (shop, 5) = Some sample_record"
proof -
  let ?env = "sample_host 9\<lparr>h_auths := {shop}\<rparr>"
  let ?c = "PaymentCall (CallStorePaymentReference shop 9 1000)"
  obtain s where s: "is_paid_state s"
    using sample_paid by blast
  then obtain s' where step: "settlement_step (?env, ?c) s s'"
    by (simp add: settlement_step_iff call_typed_def in_i128_1000 silently_Inr store_payment_reference_Inr
        is_paid_state_def paused_def sample_resolution sample_host_def sample_split_iff)
  have admins: "st_admin s = Some [alice, bob]" "st_threshold s = Some 2"
    using s by (simp_all add: is_paid_state_def)
  have "set [alice, bob] \<inter> h_auths ?env = {}"
    by (simp add: sample_addresses)
  then have "admin_view s' = admin_view s" "ss_payment s \<subseteq>\<^sub>m ss_payment s'"
    using no_change_without_quorum [OF step admins] by simp_all
  then show ?thesis
    using s step by (auto simp: is_paid_state_def map_le_def)
qed

lemma operation_wasm:
  assumes "dispatch_operation env ex op s = Inr ((), s')" "st_wasm s' \<noteq> st_wasm s"
  shows "\<exists>h. op = Upgrade h"
  using assms by (cases op) (auto simp: unregistered_def rule_set_def rule_cleared_def default_set_def act_ok)

lemma cancel_all_wasm:
  assumes "cancel_all env signers ops s = Inr (c, s')"
  shows "st_wasm s' = st_wasm s"
proof -
  obtain s1 where s1: "cancel_each env ops 0 (s\<lparr>st_bumps := st_bumps s @ [instance_bump, instance_bump]\<rparr>) = Inr (c, s1)"
    "length ops \<le> 50" "st_wasm s' = st_wasm s1"
    using assms by (auto simp: cancel_all_ok)
  then show ?thesis
    using cancel_each_frame [OF s1(1)] by (auto simp: queue_drained_def)
qed

lemma queue_wasm:
  assumes "queue_dispatch env q s = Inr ((), s')" "st_wasm s' \<noteq> st_wasm s"
  shows "\<exists>ex h. q = CallExecute ex (Upgrade h)"
proof (cases q)
  case (CallExecute ex op)
  then have "execute env ex op s = Inr ((), s')"
    using assms(1) by simp
  then obtain s1 where "dispatch_operation env ex op (dequeued (op_hash env op) s) = Inr ((), s1)"
    "st_wasm s' = st_wasm s1"
    by (rule execute_step) simp
  then show ?thesis
    using operation_wasm [of env ex op "dequeued (op_hash env op) s" s1] assms(2) CallExecute by auto
next
  case (CallCancelAll sg ops)
  then obtain n where "cancel_all env sg ops s = Inr (n, s')"
    using assms(1) by (auto simp: silently_Inr)
  then show ?thesis
    using assms(2) cancel_all_wasm by blast
qed (use assms in \<open>auto simp: act_ok enqueued_def\<close>)

lemma wasm_changes:
  assumes "settlement_dispatch env c s = Inr ((), s')" "st_wasm s' \<noteq> st_wasm s"
  shows "(\<exists>sg h. c = AdminCall (CallUpgrade sg h)) \<or> (\<exists>ex h. c = QueueCall (CallExecute ex (Upgrade h)))"
proof (cases c)
  case (AdminCall a)
  then show ?thesis
    using assms by (cases a) (auto simp: act_ok)
next
  case (QueueCall q)
  then show ?thesis
    using assms queue_wasm by auto
next
  case (MerchantCall b)
  then show ?thesis
    using assms by (cases b) (auto simp: unregistered_def rule_set_def rule_cleared_def default_set_def act_ok)
next
  case (PaymentCall b)
  then show ?thesis
    using assms by (cases b) (auto simp: silently_Inr act_ok stored_payment_def without_payments_def
        pruned_count_def Let_def split: if_splits)
next
  case (ReadCall b)
  then show ?thesis
    using assms by (cases b) (auto simp: settlement_getter_defs act_simps act_ok)
qed

text \<open>
  C31. The executable changes only to one that was probed: after any invocation that replaced the installed
  Wasm, a probe instance of the new hash deployed and answered that it supports interface version 1.
\<close>

theorem upgrade_was_probed:
  assumes "settlement_step (env, c) s s'" "st_wasm s' \<noteq> st_wasm s"
  shows "h_probe_deploys env (st_wasm s') \<and> h_probe_reply env (st_wasm s') 1 = Replied True"
proof -
  have d: "settlement_dispatch env c s = Inr ((), s')"
    using assms(1) by (simp add: settlement_step_iff)
  consider sg h where "c = AdminCall (CallUpgrade sg h)" | ex h where "c = QueueCall (CallExecute ex (Upgrade h))"
    using wasm_changes [OF d assms(2)] by blast
  then show ?thesis
    using d by cases (auto simp: act_ok wasm_supports_def)
qed

theorem upgrade_was_probed_witness:
  "\<exists>s s'. is_paid_state s \<and> settlement_step (sample_host 9, AdminCall (CallUpgrade [alice, bob] 77)) s s' \<and>
    h_probe_reply (sample_host 9) (st_wasm s') 1 = Replied True"
proof -
  let ?l = "(sample_host 9, AdminCall (CallUpgrade [alice, bob] 77))"
  obtain s where s: "run settlement_step (settlement_fresh 0) [do_init, do_register, do_pay] s" "is_paid_state s"
    by (rule sample_paid)
  have "st_wasm s = 0"
    using s(1) by (auto simp: sample_eval silently_Inr stored_payment_def)
  moreover obtain s' where step: "settlement_step ?l s s'" "st_wasm s' = 77"
    using s(2) by (simp add: is_paid_state_def sample_eval wasm_supports_def)
  ultimately have "h_probe_reply (sample_host 9) (st_wasm s') 1 = Replied True"
    using upgrade_was_probed [OF step(1)] by simp
  then show ?thesis
    using s(2) step(1) by blast
qed

section \<open>Recovery\<close>

text \<open>
  C4. Recovery delay over every history: when a recovery replaces the admin set by one address, the recovery
  address of that time asked for exactly this address, in an invocation it authorised, at least the full
  recovery delay before; and no recovery was executed in between.
\<close>

theorem recovery_after_delay:
  assumes "run settlement_step (settlement_fresh wasm) ls s"
    "settlement_step (env, AdminCall CallExecuteRecovery) s s'"
  shows "\<exists>new_admin ls1 env1 ls2 s1 ra.
    ls = ls1 @ (env1, AdminCall (CallInitiateRecovery new_admin)) # ls2 \<and>
    run settlement_step (settlement_fresh wasm) ls1 s1 \<and>
    st_recovery_address s1 = Some ra \<and> ra \<in> h_auths env1 \<and>
    unat (h_timestamp env1) + unat RECOVERY_DELAY_SECONDS \<le> unat (h_timestamp env) \<and>
    (\<forall>l \<in> set ls2. snd l \<noteq> AdminCall CallExecuteRecovery) \<and>
    st_admin s' = Some [new_admin] \<and> st_threshold s' = Some 1"
proof -
  have "recovery_ready () (settlement_fresh wasm) = None"
    by (simp add: recovery_ready_def settlement_fresh_def)
  moreover have "recovery_fires () (env, AdminCall CallExecuteRecovery)"
    by (simp add: recovery_fires_def)
  ultimately obtain p ls1 m ls2 s1 where h: "recovery_ready () s = Some p" "ls = ls1 @ m # ls2"
    "run settlement_step (settlement_fresh wasm) ls1 s1" "recovery_opens () p s1 m"
    "label_time m + unat RECOVERY_DELAY_SECONDS \<le> label_time (env, AdminCall CallExecuteRecovery)"
    "\<forall>l \<in> set ls2. \<not> recovery_fires () l"
    using recovery.fire_after_delay [OF assms(1) _ assms(2), of "()"] by blast
  have "m = (fst m, AdminCall (CallInitiateRecovery (pr_new_admin p)))"
    using h(4) by (simp add: recovery_opens_def prod_eq_iff)
  moreover have "st_admin s' = Some [pr_new_admin p]" "st_threshold s' = Some 1"
    using assms(2) h(1) by (auto simp: settlement_step_iff execute_recovery_Inr recovery_ready_Some)
  ultimately show ?thesis
    using h by (intro exI [of _ "pr_new_admin p"] exI [of _ ls1] exI [of _ "fst m"] exI [of _ ls2]
        exI [of _ s1] exI [of _ "pr_initiated_by p"])
      (auto simp: recovery_opens_def recovery_fires_def label_time_def)
qed

lemma sample_recovery:
  "\<exists>s. run settlement_step (settlement_fresh 0) [do_init, do_initiate] s \<and> (\<exists>s'. settlement_step do_recover s s')"
  by (simp add: sample_eval RECOVERY_DELAY_SECONDS_def)

theorem recovery_after_delay_witness:
  "\<exists>new_admin ls1 env1 ls2. [do_init, do_initiate] =
      ls1 @ (env1, AdminCall (CallInitiateRecovery new_admin)) # ls2 \<and>
    unat (h_timestamp env1) + unat RECOVERY_DELAY_SECONDS \<le> 10000000"
proof -
  obtain s s' where s: "run settlement_step (settlement_fresh 0) [do_init, do_initiate] s"
    "settlement_step (sample_host 10000000, AdminCall CallExecuteRecovery) s s'"
    using sample_recovery by (auto simp: do_recover_def)
  show ?thesis
    using recovery_after_delay [OF s] by (fastforce simp: sample_host_def)
qed

text \<open>
  C29. A pending recovery can always be resolved, in every reachable state, paused or not. Whoever initiated it can
  withdraw it alone, and the admins together can cancel it; either way nothing is pending afterwards and the
  admins and threshold are as before. And once its delay has passed anybody can complete it, without any
  authorisation, which makes its address the only admin.
\<close>

theorem pending_recovery_resolves:
  assumes "run settlement_step (settlement_fresh wasm) ls s" "st_admin s = Some admins"
    "st_pending_recovery s \<noteq> None" "set admins \<subseteq> h_auths env"
  shows "(\<exists>s'. cancel_recovery env admins s = Inr ((), s') \<and> st_pending_recovery s' = None \<and>
      st_admin s' = st_admin s \<and> st_threshold s' = st_threshold s) \<and>
    (\<exists>p. st_pending_recovery s = Some (Decodes p) \<and>
      (\<forall>env'. pr_initiated_by p \<in> h_auths env' \<longrightarrow>
        (\<exists>s'. cancel_recovery env' [pr_initiated_by p] s = Inr ((), s') \<and> st_pending_recovery s' = None \<and>
          st_admin s' = st_admin s \<and> st_threshold s' = st_threshold s)) \<and>
      (\<forall>env'. pr_execute_after p \<le> h_timestamp env' \<longrightarrow>
        (\<exists>s'. execute_recovery env' s = Inr ((), s') \<and> st_pending_recovery s' = None \<and>
          st_admin s' = Some [pr_new_admin p] \<and> st_threshold s' = Some 1)))"
proof -
  have "shared_wf s"
    using reachable_settlement_wf [OF assms(1)] by (simp add: settlement_wf_def admin_wf_def)
  then obtain p t where w: "st_pending_recovery s = Some (Decodes p)" "distinct admins"
    "st_threshold s = Some t" "t \<noteq> 0" "unat t \<le> length admins" "pr_new_admin p \<noteq> zero_address"
    using assms(2,3) by (auto simp: shared_wf_def)
  then have "admins \<noteq> []" "quorum env s admins"
    using assms(2,4) by (auto simp: quorum_def admin_quorum_def unat_eq_zero)
  then show ?thesis
    using w(1,6) assms(4)
    by (cases "admins = [pr_initiated_by p]") (auto simp: cancel_recovery_Inr execute_recovery_Inr)
qed

theorem pending_recovery_resolves_witness:
  "\<exists>s s'. run settlement_step (settlement_fresh 0) [do_init, do_initiate] s \<and>
    cancel_recovery (sample_host 30) [alice, bob] s = Inr ((), s') \<and> st_pending_recovery s' = None"
proof -
  have "\<exists>s. run settlement_step (settlement_fresh 0) [do_init, do_initiate] s \<and>
      st_admin s = Some [alice, bob] \<and> st_pending_recovery s \<noteq> None"
    by (simp add: sample_eval RECOVERY_DELAY_SECONDS_def)
  then obtain s where s: "run settlement_step (settlement_fresh 0) [do_init, do_initiate] s"
    "st_admin s = Some [alice, bob]" "st_pending_recovery s \<noteq> None"
    by blast
  have "set [alice, bob] \<subseteq> h_auths (sample_host 30)"
    by (simp add: sample_host_def)
  then show ?thesis
    using pending_recovery_resolves [OF s] s(1) by blast
qed

end
