(* ===== verification/Lifecycle_Properties.thy ===== *)
theory Lifecycle_Properties
  imports Samples
begin

text \<open>
  The life of a settlement contract: initialisation, the freeze of a pause, the control its admins keep, the
  separation of admins and merchants, the veto of a pending recovery over the queue, and the events that reach the
  ledger.
\<close>

section \<open>Initialisation\<close>

text \<open>Once set, the admin list is never unset.\<close>

lemma step_keeps_admin:
  assumes "settlement_step l s s'" "st_admin s \<noteq> None"
  shows "st_admin s' \<noteq> None"
proof -
  obtain env c where l: "l = (env, c)"
    by (cases l)
  then have d: "settlement_dispatch env c s = Inr ((), s')"
    using assms(1) by (simp add: settlement_step_iff)
  show ?thesis
  proof (cases c)
    case (AdminCall a)
    then have "admin_dispatch env a s = Inr ((), s')"
      using d by simp
    then show ?thesis
      using admin_call_admin [of env a s s'] assms(2) by auto
  next
    case (QueueCall q)
    then have q: "queue_dispatch env q s = Inr ((), s')"
      using d by simp
    show ?thesis
    proof (cases "\<exists>ex op. q = CallExecute ex op")
      case True
      then obtain ex op where "execute env ex op s = Inr ((), s')"
        using q by auto
      then show ?thesis
        by (rule execute_step) (use assms(2) operation_admin_kept in force)
    next
      case False
      then show ?thesis
        using admin_view_admin [OF queue_frame(1) [OF q]] assms(2) by auto
    qed
  qed (use d assms(2) in \<open>auto dest!: merchant_frame(1) payment_frame(1) read_frame(1) admin_view_admin\<close>)
qed

text \<open>
  Initialisation happens once: whatever happened since the contract was initialised, a second \<open>init\<close>
  fails with \<open>AlreadyInitialized\<close>, and the first one needed the deployer and every admin to authorise it.
\<close>

lemma init_once:
  assumes "init env deployer admins t g ra s = Inr ((), s1)" "run settlement_step s1 ls s2"
  shows "insert deployer (set admins) \<subseteq> h_auths env \<and>
    init env' deployer' admins' t' g' ra' s2 = Inl (ContractError AlreadyInitialized)"
proof -
  have "st_admin s2 \<noteq> None"
    using assms(2,1) by (induction rule: run.induct) (auto simp: init_Inr dest: step_keeps_admin)
  then have "init env' deployer' admins' t' g' ra' s2 = Inl (ContractError AlreadyInitialized)"
    by (auto simp: init_def act_eval)
  then show ?thesis
    using assms(1) by (auto simp: init_Inr)
qed

section \<open>Pausing\<close>

lemma step_paused_payments:
  assumes "settlement_step l s s'" "paused s"
  shows "ss_payment s' \<subseteq>\<^sub>m ss_payment s"
proof -
  obtain env c where l: "l = (env, c)"
    by (cases l)
  show ?thesis
  proof (cases "\<exists>b. c = PaymentCall b")
    case True
    then obtain b where b: "payment_dispatch env b s = Inr ((), s')"
      using assms(1) l by (auto simp: settlement_step_iff)
    show ?thesis
    proof (cases b)
      case (CallPrunePayments sg m refs)
      then have "ss_payment s' = ss_payment (without_payments m (set refs) s)"
        using b by (auto simp: silently_Inr act_ok Let_def without_payments_def)
      then show ?thesis
        using without_payments_le [of m "set refs" s] by simp
    qed (use b assms(2) in \<open>auto simp: silently_Inr act_ok\<close>)
  next
    case False
    then have "payment_view s' = payment_view s"
      using step_payments assms(1) l by blast
    then show ?thesis
      by (simp add: payment_view_def)
  qed
qed

lemma run_paused_payments:
  assumes "run settlement_step s ls s'" "paused s" "\<forall>l \<in> set ls. \<not> lifts_pause l"
  shows "paused s' \<and> ss_payment s' \<subseteq>\<^sub>m ss_payment s"
  using assms
proof (induction rule: run.induct)
  case (run_snoc s ls s' l s'')
  then have s': "paused s'" "ss_payment s' \<subseteq>\<^sub>m ss_payment s"
    by simp_all
  have "ss_payment s'' \<subseteq>\<^sub>m ss_payment s'"
    using step_paused_payments [OF run_snoc.hyps(2) s'(1)] .
  then show ?case
    using step_stays_paused [OF run_snoc.hyps(2) s'(1)] run_snoc.prems s'(2) by (auto intro: map_le_trans)
qed simp

text \<open>
  C26. A pause stops payments and merchant management: along every history without an \<open>unpause\<close> the contract stays
  paused and no payment is stored or altered (a batch prune may still remove some); and if nothing of the timelocked
  queue is invoked either, the merchants, their rules, the archive and the default rule stay exactly as they were,
  whatever the admins, merchants and the recovery address call.
\<close>

theorem pause_freezes_settlement:
  assumes "run settlement_step s ls s'" "paused s" "\<forall>l \<in> set ls. \<forall>sg. snd l \<noteq> AdminCall (CallUnpause sg)"
  shows "paused s' \<and> ss_payment s' \<subseteq>\<^sub>m ss_payment s \<and>
    ((\<forall>l \<in> set ls. \<forall>q. snd l \<noteq> QueueCall q) \<longrightarrow>
      ss_merchant s' = ss_merchant s \<and> ss_rule s' = ss_rule s \<and> ss_archived s' = ss_archived s \<and>
      ss_default_rule s' = ss_default_rule s)"
  using pausing.pause_freezes [OF assms(1,2)] run_paused_payments [OF assms(1,2)] assms(3)
  by (auto simp: lifts_pause_def settlement_config_def)

theorem pause_freezes_settlement_witness:
  "\<exists>s s1 s2. is_paid_state s \<and> run settlement_step s [do_pause] s1 \<and> run settlement_step s1 [do_initiate] s2 \<and>
    paused s2 \<and> ss_merchant s2 = ss_merchant s1 \<and> ss_payment s2 \<subseteq>\<^sub>m ss_payment s1"
proof -
  obtain s where s: "is_paid_state s"
    using sample_paid by blast
  then have "\<exists>s1. run settlement_step s [do_pause] s1 \<and> paused s1 \<and> (\<exists>s2. run settlement_step s1 [do_initiate] s2)"
    by (simp add: is_paid_state_def sample_eval MAX_PAUSE_REASON_def RECOVERY_DELAY_SECONDS_def)
  then obtain s1 s2 where s12: "run settlement_step s [do_pause] s1" "paused s1"
    "run settlement_step s1 [do_initiate] s2"
    by blast
  moreover have "\<forall>l \<in> set [do_initiate]. \<forall>sg. snd l \<noteq> AdminCall (CallUnpause sg)"
    "\<forall>l \<in> set [do_initiate]. \<forall>q. snd l \<noteq> QueueCall q"
    by (simp_all add: do_initiate_def)
  ultimately show ?thesis
    using pause_freezes_settlement [OF s12(3,2)] s by blast
qed

section \<open>Control over the admin set\<close>

text \<open>
  C28. The admins keep control: in every reachable initialised state, paused or not, recovery pending or not,
  the admins together can lift a pause and can hand over to any valid admin set that differs from theirs and
  holds no merchant.
\<close>

theorem admins_keep_control:
  assumes "run settlement_step (settlement_fresh wasm) ls s" "st_admin s = Some admins" "set admins \<subseteq> h_auths env"
  shows "(paused s \<longrightarrow> (\<exists>s'. unpause env admins s = Inr ((), s') \<and> \<not> paused s')) \<and>
    (\<forall>as t. valid_admins as t \<and> set as \<inter> ss_merchant s = {} \<and> as \<noteq> admins \<longrightarrow>
      (\<exists>s'. transfer_admin env admins as t s = Inr ((), s') \<and> st_admin s' = Some as \<and> st_threshold s' = Some t))"
proof -
  have "shared_wf s"
    using reachable_settlement_wf [OF assms(1)] by (simp add: settlement_wf_def admin_wf_def)
  then have "admins \<noteq> []" "quorum env s admins"
    using assms(2,3) by (auto simp: shared_wf_def quorum_def admin_quorum_def unat_eq_zero)
  then show ?thesis
    using assms(2) by (auto simp: unpause_Inr transfer_admin_Inr paused_def)
qed

theorem admins_keep_control_witness:
  "\<exists>s s'. is_paid_state s \<and> transfer_admin (sample_host 9) [alice, bob] [carol] 1 s = Inr ((), s') \<and>
    st_admin s' = Some [carol]"
proof -
  obtain s where s: "run settlement_step (settlement_fresh 0) [do_init, do_register, do_pay] s" "is_paid_state s"
    by (rule sample_paid)
  have "st_admin s = Some [alice, bob]" "set [alice, bob] \<subseteq> h_auths (sample_host 9)"
    "valid_admins [carol] 1 \<and> set [carol] \<inter> ss_merchant s = {} \<and> [carol] \<noteq> [alice, bob]"
    using s(2) by (auto simp: is_paid_state_def sample_host_def valid_admins_def sample_addresses)
  then show ?thesis
    using admins_keep_control [OF s(1)] s(2) by blast
qed

text \<open>
  \<open>change_threshold\<close> asks for one signer more than the current threshold; with a threshold equal to the number of
  admins there is none.
\<close>

lemma full_threshold_is_stuck:
  assumes "st_admin s = Some admins" "st_threshold s = Some t" "unat t = length admins"
  shows "change_threshold env signers new_t s \<noteq> Inr r"
proof
  assume "change_threshold env signers new_t s = Inr r"
  then have "unat t + 1 \<le> length signers" "distinct signers" "set signers \<subseteq> set admins"
    using assms(1,2) unat_add_u32 [of t 1] by (auto simp: change_threshold_Inr admin_quorum_def)
  then have "unat t + 1 \<le> length admins"
    using distinct_card [of signers] card_mono [of "set admins" "set signers"] card_length [of admins] by simp
  then show False
    using assms(3) by simp
qed

text \<open>No admin is a merchant, and there is no merchant before there are admins.\<close>

definition separated :: "settlement_state \<Rightarrow> bool" where
  "separated s \<longleftrightarrow> (case st_admin s of Some admins \<Rightarrow> set admins | None \<Rightarrow> UNIV) \<inter> ss_merchant s = {}"

lemma separated_cong:
  assumes "st_admin s' = st_admin s" "ss_merchant s' = ss_merchant s"
  shows "separated s' = separated s"
  unfolding separated_def assms by (rule refl)

lemma operation_separated:
  assumes "dispatch_operation env ex op s = Inr ((), s')" "separated s"
  shows "separated s'"
  using assms by (cases op) (auto simp: separated_def unregistered_def rule_set_def rule_cleared_def
      default_set_def act_ok split: option.splits)

lemma separated_upd [simp]:
  "separated (dequeued k s) = separated s" "separated (s\<lparr>st_events := e\<rparr>) = separated s"
  by (rule separated_cong; simp)+

lemma execute_separated:
  assumes "execute env ex op s = Inr ((), s')" "separated s"
  shows "separated s'"
  using assms(1)
proof (rule execute_step)
  fix s1
  assume "dispatch_operation env ex op (dequeued (op_hash env op) s) = Inr ((), s1)"
    "s' = s1\<lparr>st_events := st_events s1 @ [([ScSymbol OP_EXECUTED_EVENT, ScBytes32 (op_hash env op)], ScVoid)]\<rparr>"
  then show ?thesis
    using operation_separated assms(2) by force
qed

lemma step_separated:
  assumes "settlement_step l s s'" "separated s" "snd l \<noteq> AdminCall CallExecuteRecovery"
  shows "separated s'"
proof -
  obtain env c where l: "l = (env, c)"
    by (cases l)
  then have d: "settlement_dispatch env c s = Inr ((), s')"
    using assms(1) by (simp add: settlement_step_iff)
  have same: "admin_view s' = admin_view s \<Longrightarrow> merchant_view s' = merchant_view s \<Longrightarrow> separated s'"
    using assms(2) separated_cong [of s' s] by (simp add: admin_view_def merchant_view_def)
  show ?thesis
  proof (cases c)
    case (AdminCall a)
    then show ?thesis
      using d assms(2,3) by (cases a) (auto simp: l separated_def act_ok split: option.splits)
  next
    case (QueueCall q)
    then have q: "queue_dispatch env q s = Inr ((), s')"
      using d by simp
    then show ?thesis
      using queue_frame(1,2) [OF q] execute_separated [of env _ _ s s'] assms(2) same by (cases q) auto
  next
    case (MerchantCall b)
    then show ?thesis
      using d assms(2) by (cases b) (auto simp: separated_def unregistered_def rule_set_def rule_cleared_def
          default_set_def quorum_def admin_quorum_def act_ok split: option.splits)
  qed (use d in \<open>auto intro!: same intro: payment_frame read_frame\<close>)
qed

text \<open>
  C30. Admins and merchants stay apart: along every history without an executed recovery, no admin is a
  registered merchant, by direct calls and by queued operations alike.
\<close>

theorem roles_stay_separate:
  assumes "run settlement_step (settlement_fresh wasm) ls s"
    "\<forall>l \<in> set ls. snd l \<noteq> AdminCall CallExecuteRecovery" "st_admin s = Some admins"
  shows "set admins \<inter> ss_merchant s = {}"
proof -
  have "separated s'" if "run settlement_step s0 ls s'" "separated s0"
    "\<forall>l \<in> set ls. snd l \<noteq> AdminCall CallExecuteRecovery" for s0 ls s'
    using that by (induction rule: run.induct) (auto intro: step_separated)
  moreover have "separated (settlement_fresh wasm)"
    by (simp add: separated_def settlement_fresh_def)
  ultimately have "separated s"
    using assms(1,2) by blast
  then show ?thesis
    using assms(3) by (simp add: separated_def)
qed

theorem roles_stay_separate_witness:
  "\<exists>s. run settlement_step (settlement_fresh 0) [do_init, do_register, do_pay] s \<and>
    set [alice, bob] \<inter> ss_merchant s = {} \<and> ss_merchant s = {shop}"
proof -
  obtain s where s: "run settlement_step (settlement_fresh 0) [do_init, do_register, do_pay] s" "is_paid_state s"
    by (rule sample_paid)
  moreover have "\<forall>l \<in> set [do_init, do_register, do_pay]. snd l \<noteq> AdminCall CallExecuteRecovery"
    by (simp add: do_init_def do_register_def do_pay_def)
  moreover have "st_admin s = Some [alice, bob]" "ss_merchant s = {shop}"
    using s(2) by (simp_all add: is_paid_state_def)
  ultimately show ?thesis
    using roles_stay_separate [OF s(1)] by blast
qed

section \<open>The veto of a recovery\<close>

text \<open>The invocations that end a pending recovery.\<close>

definition ends_recovery :: "settlement_label \<Rightarrow> bool" where
  "ends_recovery l \<longleftrightarrow> (case snd l of
      AdminCall (CallCancelRecovery _) \<Rightarrow> True
    | AdminCall CallExecuteRecovery \<Rightarrow> True
    | QueueCall (CallExecute _ CancelRecovery) \<Rightarrow> True
    | _ \<Rightarrow> False)"

definition executes_operation :: "settlement_label \<Rightarrow> bool" where
  "executes_operation l \<longleftrightarrow> (case snd l of QueueCall (CallExecute _ _) \<Rightarrow> True | _ \<Rightarrow> False)"

lemma pending_execute:
  assumes "execute env ex op s = Inr r" "st_pending_recovery s \<noteq> None"
  shows "op = CancelRecovery"
  using assms by (auto simp: execute_Inr executable_def)

lemma step_veto:
  assumes "settlement_step l s s'" "st_pending_recovery s = Some p" "\<not> ends_recovery l"
  shows "st_pending_recovery s' = Some p \<and> \<not> executes_operation l"
proof -
  obtain env c where l: "l = (env, c)"
    by (cases l)
  then have d: "settlement_dispatch env c s = Inr ((), s')"
    using assms(1) by (simp add: settlement_step_iff)
  show ?thesis
  proof (cases c)
    case (AdminCall a)
    then show ?thesis
      using d assms(2,3) by (cases a) (auto simp: l ends_recovery_def executes_operation_def act_ok)
  next
    case (QueueCall q)
    then have q: "queue_dispatch env q s = Inr ((), s')"
      using d by simp
    have "\<nexists>ex op. q = CallExecute ex op"
      using q assms(2,3) by (auto simp: l QueueCall ends_recovery_def dest!: pending_execute)
    then show ?thesis
      using admin_view_pending [OF queue_frame(1) [OF q]] assms(2)
      by (auto simp: l QueueCall executes_operation_def split: queue_call.splits)
  qed (use d assms(2) in \<open>auto simp: l executes_operation_def
      dest!: merchant_frame(1) payment_frame(1) read_frame(1) admin_view_pending\<close>)
qed

lemma run_veto:
  assumes "run settlement_step s ls s'" "st_pending_recovery s = Some p" "\<forall>l \<in> set ls. \<not> ends_recovery l"
  shows "st_pending_recovery s' = Some p \<and> (\<forall>l \<in> set ls. \<not> executes_operation l)"
  using assms by (induction rule: run.induct) (auto dest: step_veto)

text \<open>
  C38. A recovery in progress vetoes the queue: from its initiation, along every history in which it is neither executed
  nor cancelled (by a call or by an executed \<open>CancelRecovery\<close>), no queued operation is executed at all, whoever
  scheduled it and however long ago, none but \<open>CancelRecovery\<close> can be, and the pending record keeps the admin, the
  time and the initiator it was given, because no second initiation succeeds.
\<close>

theorem pending_recovery_vetoes_queue:
  assumes "initiate_recovery env new_admin s0 = Inr ((), s1)" "run settlement_step s1 ls s"
    "\<forall>l \<in> set ls. \<not> ends_recovery l"
  shows "(\<forall>l \<in> set ls. \<forall>ex op. snd l \<noteq> QueueCall (CallExecute ex op)) \<and>
    (op \<noteq> CancelRecovery \<longrightarrow> execute env' ex op s \<noteq> Inr r) \<and>
    initiate_recovery env' other s \<noteq> Inr r' \<and>
    (\<exists>ra. st_recovery_address s0 = Some ra \<and> ra \<in> h_auths env \<and>
      st_pending_recovery s = Some (Decodes \<lparr>pr_new_admin = new_admin,
        pr_execute_after = h_timestamp env + RECOVERY_DELAY_SECONDS, pr_initiated_by = ra\<rparr>))"
proof -
  obtain ra where ra: "st_recovery_address s0 = Some ra" "ra \<in> h_auths env"
    "st_pending_recovery s1 = Some (Decodes \<lparr>pr_new_admin = new_admin,
      pr_execute_after = h_timestamp env + RECOVERY_DELAY_SECONDS, pr_initiated_by = ra\<rparr>)"
    using assms(1) by (auto simp: initiate_recovery_Inr)
  note veto = run_veto [OF assms(2) ra(3) assms(3)]
  then have "\<forall>l \<in> set ls. \<forall>ex op. snd l \<noteq> QueueCall (CallExecute ex op)"
    by (auto simp: executes_operation_def)
  then show ?thesis
    using veto ra(1,2) by (auto simp: initiate_recovery_Inr dest: pending_execute)
qed

theorem pending_recovery_vetoes_queue_witness:
  "\<exists>s0 s1. run settlement_step (settlement_fresh 0) [do_init, do_schedule] s0 \<and>
    ss_scheduled s0 (op_hash (sample_host 10) sample_op) \<noteq> None \<and>
    initiate_recovery (sample_host 20) carol s0 = Inr ((), s1) \<and>
    (\<forall>r. execute (sample_host 10000001) bob sample_op s1 \<noteq> Inr r)"
proof -
  have "\<exists>s0. run settlement_step (settlement_fresh 0) [do_init, do_schedule] s0 \<and>
      ss_scheduled s0 (op_hash (sample_host 10) sample_op) \<noteq> None \<and>
      (\<exists>s1. initiate_recovery (sample_host 20) carol s0 = Inr ((), s1))"
    by (simp add: sample_eval RECOVERY_DELAY_SECONDS_def)
  then obtain s0 s1 where s: "run settlement_step (settlement_fresh 0) [do_init, do_schedule] s0"
    "ss_scheduled s0 (op_hash (sample_host 10) sample_op) \<noteq> None"
    "initiate_recovery (sample_host 20) carol s0 = Inr ((), s1)"
    by blast
  have "execute (sample_host 10000001) bob sample_op s1 \<noteq> Inr r" for r
    using pending_recovery_vetoes_queue [OF s(3) run_nil, of sample_op "sample_host 10000001" bob r]
    by (simp add: sample_op_def)
  then show ?thesis
    using s by blast
qed

section \<open>Events\<close>

text \<open>An event of the registry other than \<open>fee_ceiling_rejected\<close>.\<close>

definition on_chain :: "event \<Rightarrow> bool" where
  "on_chain e \<longleftrightarrow> registered_event e \<and> hd (fst e) \<noteq> ScSymbol FEE_CEILING_REJECTED_EVENT"

lemma on_chain_topic:
  "on_chain (ScSymbol t # ts, d) \<longleftrightarrow> t \<in> set ALL_EVENT_TOPICS \<and> t \<noteq> FEE_CEILING_REJECTED_EVENT"
  by (simp add: on_chain_def registered_event_def)

lemma on_chain_topics [simp]:
  "on_chain (ScSymbol ADMIN_TRANSFERRED_EVENT # ts, d)" "on_chain (ScSymbol PAUSED_EVENT # ts, d)"
  "on_chain (ScSymbol UNPAUSED_EVENT # ts, d)" "on_chain (ScSymbol RECOVERY_INITIATED_EVENT # ts, d)"
  "on_chain (ScSymbol RECOVERY_CANCELLED_EVENT # ts, d)" "on_chain (ScSymbol RECOVERY_EXECUTED_EVENT # ts, d)"
  "on_chain (ScSymbol CONTRACT_UPGRADED_EVENT # ts, d)" "on_chain (ScSymbol THRESHOLD_CHANGED_EVENT # ts, d)"
  "on_chain (ScSymbol RECOVERY_ADDRESS_UPDATED_EVENT # ts, d)" "on_chain (ScSymbol MIGRATED_EVENT # ts, d)"
  "on_chain (ScSymbol GOVERNANCE_UPDATED_EVENT # ts, d)" "on_chain (ScSymbol MERCHANT_REGISTERED_EVENT # ts, d)"
  "on_chain (ScSymbol MERCHANT_CONSENT_EVENT # ts, d)" "on_chain (ScSymbol MERCHANT_UNREGISTERED_EVENT # ts, d)"
  "on_chain (ScSymbol SETTLEMENT_RULE_UPDATED_EVENT # ts, d)"
  "on_chain (ScSymbol SETTLEMENT_RULE_CLEARED_EVENT # ts, d)"
  "on_chain (ScSymbol DEFAULT_RULE_UPDATED_EVENT # ts, d)" "on_chain (ScSymbol BOOTSTRAP_FALLBACK_EVENT # ts, d)"
  "on_chain (ScSymbol PAYMENT_STORED_EVENT # ts, d)" "on_chain (ScSymbol PAYMENTS_PRUNED_EVENT # ts, d)"
  "on_chain (ScSymbol PAYMENT_PRUNED_EVENT # ts, d)" "on_chain (ScSymbol OP_SCHEDULED_EVENT # ts, d)"
  "on_chain (ScSymbol OP_EXECUTED_EVENT # ts, d)" "on_chain (ScSymbol OP_CANCELLED_EVENT # ts, d)"
  unfolding on_chain_topic by (simp_all add: ALL_EVENT_TOPICS_def topic_defs)

definition log_ok :: "settlement_state \<Rightarrow> bool" where
  "log_ok s \<longleftrightarrow> list_all on_chain (st_events s)"

lemma operation_log:
  assumes "dispatch_operation env ex op s = Inr ((), s')" "log_ok s"
  shows "log_ok s'"
  using assms by (cases op) (auto simp: log_ok_def unregistered_def rule_set_def rule_cleared_def
      default_set_def act_ok split: option.splits sum.splits)

lemma queue_log:
  assumes "queue_dispatch env q s = Inr ((), s')" "log_ok s"
  shows "log_ok s'"
proof (cases q)
  case (CallExecute ex op)
  then have "execute env ex op s = Inr ((), s')"
    using assms(1) by simp
  then show ?thesis
  proof (rule execute_step)
    fix s1
    assume s1: "dispatch_operation env ex op (dequeued (op_hash env op) s) = Inr ((), s1)"
      "s' = s1\<lparr>st_events := st_events s1 @ [([ScSymbol OP_EXECUTED_EVENT, ScBytes32 (op_hash env op)], ScVoid)]\<rparr>"
    have "log_ok s1"
      by (rule operation_log [OF s1(1)]) (use assms(2) in \<open>simp add: log_ok_def\<close>)
    then show ?thesis
      by (simp add: s1(2) log_ok_def)
  qed
next
  case (CallCancelAll sg ops)
  let ?s = "s\<lparr>st_bumps := st_bumps s @ [instance_bump, instance_bump]\<rparr>"
  obtain n s1 where s1: "cancel_each env ops 0 ?s = Inr (n, s1)" "length ops \<le> 50"
    "st_events s' = st_events s1 @ [([ScSymbol OP_CANCELLED_EVENT], ScVec [ScAddress (hd sg), ScU32 n])]"
    using assms(1) CallCancelAll by (auto simp: silently_Inr cancel_all_ok)
  then show ?thesis
    using cancel_each_frame [OF s1(1)] assms(2) by (auto simp: queue_drained_def log_ok_def)
qed (use assms in \<open>auto simp: log_ok_def enqueued_def act_ok\<close>)

lemma pruned_events [simp]:
  "st_events (pruned_count m n s) = st_events s" "st_events (without_payments m refs s) = st_events s"
  by (simp_all add: pruned_count_def without_payments_def)

lemma payment_log:
  assumes "payment_dispatch env b s = Inr ((), s')" "log_ok s"
  shows "log_ok s'"
proof (cases b)
  case (CallStorePaymentReference m ref a)
  then obtain rule split where "s' = stored_payment env m ref a rule split s"
    using assms(1) by (auto simp: silently_Inr act_ok)
  then show ?thesis
    using assms(2) by (simp add: log_ok_def stored_payment_def)
next
  case (CallPrunePayment sg m ref)
  then show ?thesis
    using assms by (cases "ss_payment s (m, ref)") (auto simp: log_ok_def act_ok)
next
  case (CallPrunePayments sg m refs)
  then show ?thesis
    using assms by (auto simp: log_ok_def silently_Inr act_ok Let_def)
qed

lemma step_log:
  assumes "log_ok s" "settlement_step l s s'"
  shows "log_ok s'"
proof -
  obtain env c where l: "l = (env, c)"
    by (cases l)
  then have d: "settlement_dispatch env c s = Inr ((), s')"
    using assms(2) by (simp add: settlement_step_iff)
  show ?thesis
  proof (cases c)
    case (AdminCall a)
    then show ?thesis
      using d assms(1) by (cases a) (auto simp: log_ok_def act_ok)
  next
    case (QueueCall q)
    then show ?thesis
      using d assms(1) by (auto intro: queue_log)
  next
    case (MerchantCall b)
    then show ?thesis
      using d assms(1) by (cases b) (auto simp: log_ok_def unregistered_def rule_set_def rule_cleared_def
          default_set_def act_ok split: option.splits sum.splits)
  next
    case (PaymentCall b)
    then have "payment_dispatch env b s = Inr ((), s')"
      using d by simp
    then show ?thesis
      using assms(1) by (rule payment_log)
  next
    case (ReadCall b)
    then show ?thesis
      using d assms(1) by (cases b) (auto simp: log_ok_def settlement_getter_defs act_simps act_ok)
  qed
qed

interpretation settlement_log: step_invariant settlement_step "\<lambda>s. \<exists>wasm. s = settlement_fresh wasm" log_ok
proof unfold_locales
  show "log_ok s" if "\<exists>wasm. s = settlement_fresh wasm" for s
    using that by (auto simp: log_ok_def settlement_fresh_def)
  show "log_ok s'" if "log_ok s" "settlement_step l s s'" for s l s'
    using that by (rule step_log)
qed

text \<open>
  The events on the ledger have registered topics; \<open>fee_ceiling_rejected\<close> is not among them, because the invocation
  that publishes it fails right after.
\<close>

lemma settlement_events_on_chain:
  assumes "run settlement_step (settlement_fresh wasm) ls s"
  shows "list_all on_chain (st_events s)"
  using settlement_log.reachable_inv [of "settlement_fresh wasm"] assms by (auto simp: log_ok_def)

end
