(* ===== verification/Merchant_Properties.thy ===== *)
theory Merchant_Properties
  imports Samples
begin

text \<open>
  Merchants and rules: which rule a merchant is charged under, what happens when governance does not answer, the
  governance ceiling, and the agreement between the direct entry points and the queued operations.
\<close>

section \<open>The effective rule\<close>

text \<open>
  The rule of a merchant, on every input: its own rule, else the default rule, else what governance offers
  (which is cached), else the bootstrap rule; a malformed answer of governance is an error. The report names
  where the rule comes from.
\<close>

lemma rule_precedence:
  "get_rule_provenance env m s =
    (case ss_rule s m of
       Some r \<Rightarrow> Inr (\<lparr>er_rule = r, er_provenance = FromMerchant\<rparr>, s)
     | None \<Rightarrow> (case ss_default_rule s of
         Some r \<Rightarrow> Inr (\<lparr>er_rule = r, er_provenance = FromDefault\<rparr>, s)
       | None \<Rightarrow> (case governance_offer env s of
           Inl e \<Rightarrow> Inl (ContractError e)
         | Inr (Some r) \<Rightarrow>
             Inr (\<lparr>er_rule = r, er_provenance = FromGovernance\<rparr>, s\<lparr>ss_cached_gov_rule := Some (Some r)\<rparr>)
         | Inr None \<Rightarrow>
             Inr (\<lparr>er_rule = BOOTSTRAP_DEFAULT_RULE, er_provenance = FromBootstrap\<rparr>, s))))"
  by (auto simp: get_rule_provenance_def read_effective_rule_no_bump_run effective_rule_def effective_cache_def
      fallback_rule_def fallback_cache_def governance_cache_def split: option.splits sum.splits)

text \<open>
  C22. Preview, report and charge agree: on the same state and host, the split that \<open>calculate_fee_split\<close>
  previews is the one a payment of the amount is stored with, and the record's rates, delay and settle flag are
  those of the rule \<open>get_effective_rule\<close> reports.
\<close>

theorem preview_matches_charge:
  assumes "store_payment_reference env m ref amount s = Inr (split, s1)"
  shows "\<exists>s2 rule s3 p. calculate_fee_split env m amount s = Inr (split, s2) \<and>
    get_effective_rule env m s = Inr (rule, s3) \<and> ss_payment s1 (m, ref) = Some p \<and>
    pay_platform_fee_bps p = sr_platform_fee_bps rule \<and> pay_network_fee_bps p = sr_network_fee_bps rule \<and>
    pay_settlement_delay_ledger p = sr_settlement_delay_ledger rule \<and> pay_auto_settle p = sr_auto_settle rule \<and>
    pay_platform_fee_amount p = fs_platform_fee_amount split \<and>
    pay_network_fee_amount p = fs_network_fee_amount split \<and>
    pay_merchant_payout_amount p = fs_merchant_payout_amount split"
proof -
  obtain e :: EffectiveRule where e: "m \<in> ss_merchant s" "min_payment env s \<le> amount"
    "effective_rule env s m = Inr e" "splits_to amount (er_rule e) split"
    "s1 = stored_payment env m ref amount (er_rule e) split s"
    using assms by (auto simp: store_payment_reference_Inr)
  then have "\<exists>s2. calculate_fee_split env m amount s = Inr (split, s2)"
    "\<exists>s3. get_effective_rule env m s = Inr (er_rule e, s3)"
    by (auto simp: calculate_fee_split_Inr get_effective_rule_def read_rule_or_default_no_bump_Inr)
  moreover have "ss_payment s1 (m, ref) = Some (new_record env m amount (er_rule e) split)"
    by (simp add: e(5) stored_payment_def)
  ultimately show ?thesis
    by (fastforce simp: new_record_def)
qed

theorem preview_matches_charge_witness:
  "\<exists>s s1 s2. is_paid_state s \<and> store_payment_reference (sample_host 8) shop 9 1000 s = Inr (sample_split, s1) \<and>
    calculate_fee_split (sample_host 8) shop 1000 s = Inr (sample_split, s2)"
proof -
  obtain s where s: "is_paid_state s"
    using sample_paid by blast
  then obtain s1 where store: "store_payment_reference (sample_host 8) shop 9 1000 s = Inr (sample_split, s1)"
    by (simp add: store_payment_reference_Inr is_paid_state_def paused_def sample_resolution sample_host_def
        sample_split_iff)
  then show ?thesis
    using preview_matches_charge [OF store] s by blast
qed

section \<open>Governance outage and ceiling\<close>






lemma new_rule_simps:
  "ss_rule (unregistered env who m s) = (ss_rule s)(m := None)"
  "ss_default_rule (unregistered env who m s) = ss_default_rule s"
  "ss_rule (rule_set env who m r prev s) = (ss_rule s)(m \<mapsto> r)"
  "ss_default_rule (rule_set env who m r prev s) = ss_default_rule s"
  "ss_rule (rule_cleared env who m removed fallback s) = (ss_rule s)(m := None)"
  "ss_default_rule (rule_cleared env who m removed fallback s) = ss_default_rule s"
  "ss_rule (default_set who r s) = ss_rule s"
  "ss_default_rule (default_set who r s) = Some r"
  by (simp_all add: unregistered_def rule_set_def rule_cleared_def default_set_def)

text \<open>The invocations that leave a new rule, merchant's or default.\<close>

definition new_rule :: "settlement_state \<Rightarrow> settlement_state \<Rightarrow> SettlementRule \<Rightarrow> bool" where
  "new_rule s s' rule \<longleftrightarrow> (\<exists>m. ss_rule s' m = Some rule \<and> ss_rule s m \<noteq> Some rule) \<or>
     ss_default_rule s' = Some rule \<and> ss_default_rule s \<noteq> Some rule"

lemma merchant_new_rule:
  assumes "merchant_dispatch env c s = Inr ((), s')" "new_rule s s' rule"
  shows "valid_rule rule \<and> fee_allowed env s rule"
  using assms by (cases c) (auto simp: new_rule_def new_rule_simps act_ok split: if_splits)

lemma operation_new_rule:
  assumes "dispatch_operation env ex op s = Inr ((), s')" "new_rule s s' rule"
  shows "valid_rule rule \<and> fee_allowed env s rule"
  using assms by (cases op) (auto simp: new_rule_def new_rule_simps act_ok split: if_splits)

lemma new_rule_view: "merchant_view s' = merchant_view s \<Longrightarrow> \<not> new_rule s s' rule"
  by (simp add: merchant_view_def new_rule_def)

lemma step_new_rule:
  assumes "settlement_step (env, c) s s'" "new_rule s s' rule"
  shows "valid_rule rule \<and> fee_allowed env s rule"
proof -
  have d: "settlement_dispatch env c s = Inr ((), s')"
    using assms(1) by (simp add: settlement_step_iff)
  have changed: "merchant_view s' \<noteq> merchant_view s"
    using assms(2) new_rule_view by blast
  consider b where "c = MerchantCall b" | ex op where "c = QueueCall (CallExecute ex op)"
    using d changed admin_frame(1) [of env _ s s'] payment_frame(2) [of env _ s s'] read_frame(2) [of env _ s s']
      queue_frame(2) [of env _ s s'] by (cases c) (auto, blast)
  then show ?thesis
  proof cases
    case (1 b)
    then show ?thesis
      using d merchant_new_rule assms(2) by simp
  next
    case (2 ex op)
    then have "execute env ex op s = Inr ((), s')"
      using d by simp
    then obtain s1 where "dispatch_operation env ex op (dequeued (op_hash env op) s) = Inr ((), s1)"
      "merchant_view s' = merchant_view s1"
      by (rule execute_step) simp
    then show ?thesis
      using operation_new_rule [of env ex op "dequeued (op_hash env op) s" s1 rule] assms(2)
      by (simp add: new_rule_def merchant_view_def fee_allowed_def)
  qed
qed

text \<open>
  The governance ceiling: any invocation that leaves a merchant with a new rule, or a new default rule,
  directly or from the queue, ran against a governance that answered; and when the answer held a fee configuration,
  both fees of the new rule are at most the configured ones.
\<close>

lemma rules_below_ceiling:
  assumes "settlement_step (env, c) s s'"
    "ss_rule s' m = Some rule \<and> ss_rule s m \<noteq> Some rule \<or>
     ss_default_rule s' = Some rule \<and> ss_default_rule s \<noteq> Some rule"
  shows "valid_rule rule \<and> (\<exists>g v. ss_governance s = Some g \<and> h_invoke env g ''get_fee_config'' [] = Replied v \<and>
    (\<forall>config. classify_governance_fee_config v = Inr (Some config) \<longrightarrow>
      sr_platform_fee_bps rule \<le> gfc_platform_fee_bps config \<and>
      sr_network_fee_bps rule \<le> gfc_network_fee_bps config))"
proof -
  have "valid_rule rule \<and> fee_allowed env s rule"
    using step_new_rule [OF assms(1)] assms(2) by (auto simp: new_rule_def)
  then obtain g v where "valid_rule rule" "ss_governance s = Some g" "h_invoke env g ''get_fee_config'' [] = Replied v"
    "case classify_governance_fee_config v of
       Inl _ \<Rightarrow> False
     | Inr None \<Rightarrow> True
     | Inr (Some config) \<Rightarrow> sr_platform_fee_bps rule \<le> gfc_platform_fee_bps config \<and>
         sr_network_fee_bps rule \<le> gfc_network_fee_bps config"
    unfolding fee_allowed_def by blast
  then show ?thesis
    by auto
qed

text \<open>A host whose governance answers with fees of 60 and 30 basis points.\<close>

definition config_host :: settlement_host where
  "config_host = sample_host 9\<lparr>h_invoke := \<lambda>_ f _. if f = ''get_fee_config''
    then Replied (ScMap [(ScSymbol ''network_fee_bps'', ScU32 30), (ScSymbol ''platform_fee_bps'', ScU32 60)])
    else CallFailed\<rparr>"

lemma config_fee_allowed: "is_paid_state s \<Longrightarrow> fee_allowed config_host s sample_rule"
  by (simp add: fee_allowed_def is_paid_state_def config_host_def classify_governance_fee_config_def
      u32_of_val_def sample_rule_def)

section \<open>Direct calls and queued operations\<close>

text \<open>The queued operation of a direct call on merchants and rules, and the admin a direct call reports.\<close>

primrec queued_form :: "merchant_call \<Rightarrow> Operation" where
  "queued_form (CallRegisterMerchant _ m) = RegisterMerchant m"
| "queued_form (CallUnregisterMerchant _ m) = UnregisterMerchant m"
| "queued_form (CallSetSettlementRule _ m r) = SetSettlementRule m r"
| "queued_form (CallClearSettlementRule _ m) = ClearSettlementRule m"
| "queued_form (CallSetDefaultRule _ r) = SetDefaultRule r"

primrec call_signers :: "merchant_call \<Rightarrow> address list" where
  "call_signers (CallRegisterMerchant sg _) = sg"
| "call_signers (CallUnregisterMerchant sg _) = sg"
| "call_signers (CallSetSettlementRule sg _ _) = sg"
| "call_signers (CallClearSettlementRule sg _) = sg"
| "call_signers (CallSetDefaultRule sg _) = sg"

text \<open>
  C23. The two ways to the same change agree: whenever a direct call on merchants or rules completes, the queued
  operation executed on the same state completes too and leaves the same merchants, rules, archive, default and
  cached rule; and the events it publishes are among those of the direct call.
\<close>

theorem direct_and_queued_agree:
  assumes "merchant_dispatch env c s = Inr ((), s1)"
  shows "\<exists>s2. dispatch_operation env (hd (call_signers c)) (queued_form c) s = Inr ((), s2) \<and>
    merchant_view s2 = merchant_view s1 \<and> ss_cached_gov_rule s2 = ss_cached_gov_rule s1 \<and>
    set (st_events s2) \<subseteq> set (st_events s1)"
  using assms
  by (cases c) (auto simp: quorum_def admin_quorum_def merchant_view_def unregistered_def rule_set_def
      rule_cleared_def default_set_def act_ok split: option.splits)

theorem direct_and_queued_agree_witness:
  "\<exists>s s2. is_paid_state s \<and> dispatch_operation (sample_host 9) alice (UnregisterMerchant shop) s = Inr ((), s2) \<and>
    ss_merchant s2 = {}"
proof -
  obtain s where s: "is_paid_state s"
    using sample_paid by blast
  let ?c = "CallUnregisterMerchant [alice, bob] shop"
  have "\<exists>s1. merchant_dispatch (sample_host 9) ?c s = Inr ((), s1) \<and> ss_merchant s1 = {}"
    using s by (simp add: is_paid_state_def unregister_merchant_Inr paused_def quorum_def admin_quorum_def
        sample_host_def sample_addresses unregistered_def)
  then obtain s1 where "merchant_dispatch (sample_host 9) ?c s = Inr ((), s1)" "ss_merchant s1 = {}"
    by blast
  then show ?thesis
    using direct_and_queued_agree [of "sample_host 9" ?c s s1] s by (auto simp: merchant_view_def)
qed

section \<open>Unregistration\<close>

text \<open>The invocations that register a merchant, direct or from the queue.\<close>

definition registers :: "address \<Rightarrow> settlement_label \<Rightarrow> bool" where
  "registers m l \<longleftrightarrow> (\<exists>sg. snd l = MerchantCall (CallRegisterMerchant sg m)) \<or>
    (\<exists>ex. snd l = QueueCall (CallExecute ex (RegisterMerchant m)))"

lemma operation_registers:
  assumes "dispatch_operation env ex op s = Inr ((), s')" "op \<noteq> RegisterMerchant m" "m \<notin> ss_merchant s"
  shows "m \<notin> ss_merchant s'"
  using assms by (cases op) (auto simp: unregistered_def rule_set_def rule_cleared_def default_set_def act_ok)

lemma step_registers:
  assumes "settlement_step (env, c) s s'" "\<not> registers m (env, c)" "m \<notin> ss_merchant s"
  shows "m \<notin> ss_merchant s'"
proof -
  have d: "settlement_dispatch env c s = Inr ((), s')"
    using assms(1) by (simp add: settlement_step_iff)
  consider b where "c = MerchantCall b" | ex op where "c = QueueCall (CallExecute ex op)"
    | "merchant_view s' = merchant_view s"
    using d admin_frame(1) [of env _ s s'] payment_frame(2) [of env _ s s'] read_frame(2) [of env _ s s']
      queue_frame(2) [of env _ s s'] by (cases c) (auto, blast)
  then show ?thesis
  proof cases
    case (1 b)
    then show ?thesis
      using d assms(2,3) by (cases b) (auto simp: registers_def unregistered_def rule_set_def rule_cleared_def
          default_set_def act_ok)
  next
    case (2 ex op)
    then have "execute env ex op s = Inr ((), s')"
      using d by simp
    then obtain s1 where "dispatch_operation env ex op (dequeued (op_hash env op) s) = Inr ((), s1)"
      "merchant_view s' = merchant_view s1"
      by (rule execute_step) simp
    then show ?thesis
      using operation_registers [of env ex op "dequeued (op_hash env op) s" s1 m] assms(2,3) 2
      by (auto simp: registers_def merchant_view_def)
  next
    case 3
    then show ?thesis
      using assms(3) by (simp add: merchant_view_def)
  qed
qed

lemma run_registers:
  assumes "run settlement_step s ls s'" "\<forall>l \<in> set ls. \<not> registers m l" "m \<notin> ss_merchant s"
  shows "m \<notin> ss_merchant s'"
  using assms by (induction rule: run.induct) (force dest: step_registers)+

lemma orphaned_reads:
  assumes "m \<notin> ss_merchant s" "read_authorized env s m signers"
  shows "get_payment_reference env m ref signers s = Inl (ContractError PaymentOrphaned)"
    "get_payments env m refs cursor signers s = Inl (ContractError PaymentOrphaned)"
    "get_payment_count env m signers s = Inl (ContractError PaymentOrphaned)"
proof -
  obtain s' where a: "assert_read_authorized env m signers s = Inr ((), s')" "m \<notin> ss_merchant s'"
    using assms by (simp add: assert_read_authorized_Inr)
  have "assert_payments_readable m s' = Inl (ContractError PaymentOrphaned)"
    using a(2) by (simp add: assert_payments_readable_def is_merchant_registered_internal_run host_eval)
  with a(1) show "get_payment_reference env m ref signers s = Inl (ContractError PaymentOrphaned)"
    "get_payments env m refs cursor signers s = Inl (ContractError PaymentOrphaned)"
    "get_payment_count env m signers s = Inl (ContractError PaymentOrphaned)"
    by (simp_all add: get_payment_reference_def get_payments_def get_payment_count_def andthen_run)
qed

text \<open>
  C35. An unregistered merchant is cut off: from its unregistration, along every history in which it is not registered
  again, neither directly nor from the queue, every authorised read of its payments, by itself or by a quorum of the
  admins, fails with \<open>PaymentOrphaned\<close>, it cannot store a payment, and it has no rule of its own.
\<close>

theorem unregistered_payments_hidden:
  fixes env :: settlement_host
  assumes "run settlement_step (settlement_fresh wasm) ls0 s" "unregister_merchant env signers m s = Inr ((), s1)"
    "run settlement_step s1 ls s2" "\<forall>l \<in> set ls. \<not> registers m l" "read_authorized env' s2 m readers"
  shows "get_payment_reference env' m ref readers s2 = Inl (ContractError PaymentOrphaned) \<and>
    get_payments env' m refs cursor readers s2 = Inl (ContractError PaymentOrphaned) \<and>
    get_payment_count env' m readers s2 = Inl (ContractError PaymentOrphaned) \<and>
    store_payment_reference env' m ref amount s2 \<noteq> Inr r \<and> ss_rule s2 m = None"
proof -
  have "settlement_step (env, MerchantCall (CallUnregisterMerchant signers m)) s s1"
    using assms(2) by (simp add: settlement_step_iff call_typed_def)
  from run_append [OF assms(3) run_snoc [OF assms(1) this]] have "settlement_wf s2"
    by (rule reachable_settlement_wf)
  moreover have "m \<notin> ss_merchant s1"
    using assms(2) by (auto simp: unregister_merchant_Inr unregistered_def)
  then have "m \<notin> ss_merchant s2"
    using run_registers [OF assms(3,4)] by blast
  ultimately show ?thesis
    using orphaned_reads [OF _ assms(5)]
    by (auto simp: store_payment_reference_Inr settlement_wf_def merchants_wf_def)
qed

theorem unregistered_payments_hidden_witness:
  "\<exists>s s1. run settlement_step (settlement_fresh 0) [do_init, do_register, do_pay] s \<and>
    ss_payment s (shop, 5) = Some sample_record \<and>
    unregister_merchant (sample_host 9) [alice, bob] shop s = Inr ((), s1) \<and>
    get_payment_reference (sample_host 9) shop 5 [] s1 = Inl (ContractError PaymentOrphaned)"
proof -
  obtain s where s: "run settlement_step (settlement_fresh 0) [do_init, do_register, do_pay] s" "is_paid_state s"
    by (rule sample_paid)
  obtain s1 where s1: "unregister_merchant (sample_host 9) [alice, bob] shop s = Inr ((), s1)"
    using s(2) by (simp add: is_paid_state_def unregister_merchant_Inr paused_def quorum_def admin_quorum_def
        sample_host_def sample_addresses)
  have "read_authorized (sample_host 9) s1 shop []" "ss_payment s (shop, 5) = Some sample_record"
    using s(2) by (simp_all add: read_authorized_def sample_host_def is_paid_state_def)
  then show ?thesis
    using unregistered_payments_hidden [OF s(1) s1 run_nil, of "sample_host 9" "[]" 5] s(1) s1 by auto
qed

end
