(* ===== verification/Governance.thy ===== *)
theory Governance
  imports Common_Storage Error_Codes
begin

text \<open>
  \<open>governance_contract/src/lib.rs\<close>: the state of the governance contract and every entry point,
  in the order of the source. Definitions whose names the settlement contract uses as well carry the
  prefix \<open>gov_\<close>. A completed run of each entry point is characterised by a lemma of
  \<open>act_ok\<close> in the theory \<open>Governance_Ops\<close>.
\<close>

section \<open>State\<close>

record FeeConfig =
  fc_platform_fee_bps :: u32
  fc_network_fee_bps :: u32

definition sc_fee_config :: "FeeConfig \<Rightarrow> sc_val" where
  "sc_fee_config c =
    ScMap [(ScSymbol ''network_fee_bps'', ScU32 (fc_network_fee_bps c)),
           (ScSymbol ''platform_fee_bps'', ScU32 (fc_platform_fee_bps c))]"

definition ANCHOR_TTL_THRESHOLD :: u32 where
  "ANCHOR_TTL_THRESHOLD = TTL_THRESHOLD_LEDGERS"

definition ANCHOR_TTL_BUMP :: u32 where
  "ANCHOR_TTL_BUMP = TTL_BUMP_LEDGERS"

definition SYSTEM_PARAM_TTL_THRESHOLD :: u32 where
  "SYSTEM_PARAM_TTL_THRESHOLD = TTL_THRESHOLD_LEDGERS"

definition SYSTEM_PARAM_TTL_BUMP :: u32 where
  "SYSTEM_PARAM_TTL_BUMP = TTL_BUMP_LEDGERS"

definition BYPASS_GOV_FEES_PARAM :: string where
  "BYPASS_GOV_FEES_PARAM = ''bypass_gov_fees''"

definition GOV_READ_INSTANCE_TTL_THRESHOLD :: u32 where
  "GOV_READ_INSTANCE_TTL_THRESHOLD = 50000"

definition GOV_READ_INSTANCE_TTL_BUMP :: u32 where
  "GOV_READ_INSTANCE_TTL_BUMP = 100000"

text \<open>The persistent keys; the instance keys of \<open>DataKey\<close> are the fields of the state.\<close>

datatype gov_data_key = SystemParam string | Anchor address

record gov_state = "gov_data_key contract_state" +
  gs_system_param :: "string \<rightharpoonup> int"
  gs_fee_config :: "FeeConfig option"
  gs_anchor :: "address \<rightharpoonup> address"

definition GOV_CURRENT_SCHEMA_VERSION :: u32 where
  "GOV_CURRENT_SCHEMA_VERSION = 1"

definition GOV_SUPPORTED_INTERFACE_VERSION :: u32 where
  "GOV_SUPPORTED_INTERFACE_VERSION = 1"

datatype GovernanceError =
    AlreadyInitialized
  | NotInitialized
  | Unauthorized
  | InvalidFeeBps
  | Paused
  | InvalidAdmin
  | InvalidRecoveryAddress
  | RecoveryNotPending
  | RecoveryDelayActive
  | InvalidWasmInterface
  | InvalidThreshold
  | RecoveryAlreadyPending
  | AnchorMissing
  | InvalidParamValue
  | AlreadyPaused
  | AlreadyUnpaused
  | SameAdmin

primrec gov_error_code :: "GovernanceError \<Rightarrow> u32" where
  "gov_error_code AlreadyInitialized = 1"
| "gov_error_code NotInitialized = 2"
| "gov_error_code Unauthorized = 3"
| "gov_error_code InvalidFeeBps = 4"
| "gov_error_code Paused = 5"
| "gov_error_code InvalidAdmin = 6"
| "gov_error_code InvalidRecoveryAddress = 7"
| "gov_error_code RecoveryNotPending = 8"
| "gov_error_code RecoveryDelayActive = 9"
| "gov_error_code InvalidWasmInterface = 13"
| "gov_error_code InvalidThreshold = 14"
| "gov_error_code RecoveryAlreadyPending = 15"
| "gov_error_code AnchorMissing = 200"
| "gov_error_code InvalidParamValue = 201"
| "gov_error_code AlreadyPaused = 17"
| "gov_error_code AlreadyUnpaused = 16"
| "gov_error_code SameAdmin = 18"

text \<open>The assertions checked when the crate is compiled.\<close>

definition gov_code_assertions :: bool where
  "gov_code_assertions \<longleftrightarrow>
    gov_error_code AlreadyInitialized = ALREADY_INITIALIZED \<and>
    gov_error_code NotInitialized = NOT_INITIALIZED \<and>
    gov_error_code Unauthorized = UNAUTHORIZED \<and>
    gov_error_code InvalidFeeBps = INVALID_FEE_BPS \<and>
    gov_error_code Paused = PAUSED \<and>
    gov_error_code InvalidAdmin = INVALID_ADMIN \<and>
    gov_error_code InvalidRecoveryAddress = INVALID_RECOVERY_ADDRESS \<and>
    gov_error_code RecoveryNotPending = RECOVERY_NOT_PENDING \<and>
    gov_error_code RecoveryDelayActive = RECOVERY_DELAY_ACTIVE \<and>
    gov_error_code InvalidWasmInterface = INVALID_WASM_INTERFACE \<and>
    gov_error_code InvalidThreshold = INVALID_THRESHOLD \<and>
    gov_error_code RecoveryAlreadyPending = RECOVERY_ALREADY_PENDING \<and>
    gov_error_code AlreadyPaused = ALREADY_PAUSED \<and>
    gov_error_code AlreadyUnpaused = ALREADY_UNPAUSED \<and>
    gov_error_code SameAdmin = SAME_ADMIN \<and>
    GOVERNANCE_RANGE_START \<le> gov_error_code AnchorMissing \<and>
    GOVERNANCE_RANGE_START \<le> gov_error_code InvalidParamValue"

text \<open>The table of variant names and discriminants.\<close>

definition gov_error_table :: "(string \<times> u32) list" where
  "gov_error_table =
    [(''AlreadyInitialized'', gov_error_code AlreadyInitialized),
     (''NotInitialized'', gov_error_code NotInitialized),
     (''Unauthorized'', gov_error_code Unauthorized),
     (''InvalidFeeBps'', gov_error_code InvalidFeeBps),
     (''Paused'', gov_error_code Paused),
     (''InvalidAdmin'', gov_error_code InvalidAdmin),
     (''InvalidRecoveryAddress'', gov_error_code InvalidRecoveryAddress),
     (''RecoveryNotPending'', gov_error_code RecoveryNotPending),
     (''RecoveryDelayActive'', gov_error_code RecoveryDelayActive),
     (''InvalidWasmInterface'', gov_error_code InvalidWasmInterface),
     (''InvalidThreshold'', gov_error_code InvalidThreshold),
     (''RecoveryAlreadyPending'', gov_error_code RecoveryAlreadyPending),
     (''AnchorMissing'', gov_error_code AnchorMissing),
     (''InvalidParamValue'', gov_error_code InvalidParamValue),
     (''AlreadyPaused'', gov_error_code AlreadyPaused),
     (''AlreadyUnpaused'', gov_error_code AlreadyUnpaused),
     (''SameAdmin'', gov_error_code SameAdmin)]"

type_synonym 'a gov_action = "(gov_state, GovernanceError, 'a) action"

section \<open>Helpers\<close>

definition gov_read_admins :: "address list gov_action" where
  "gov_read_admins =
    andthen (extend_instance_ttl GOV_READ_INSTANCE_TTL_THRESHOLD GOV_READ_INSTANCE_TTL_BUMP) (
    bind (gets st_admin) (\<lambda>admins.
    expect_some admins NotInitialized))"

definition gov_read_threshold :: "u32 gov_action" where
  "gov_read_threshold = bind (gets st_threshold) (\<lambda>t. expect_some t NotInitialized)"

definition gov_assert_not_zero :: "address \<Rightarrow> GovernanceError \<Rightarrow> unit gov_action" where
  "gov_assert_not_zero address error = panic_if (is_zero_address address) error"

text \<open>The loop of \<open>validate_admins_and_threshold\<close>, from the current position to the end.\<close>

primrec gov_validate_each :: "address list \<Rightarrow> unit gov_action" where
  "gov_validate_each [] = ret ()"
| "gov_validate_each (admin # rest) =
    andthen (gov_assert_not_zero admin InvalidAdmin) (
    andthen (panic_if (admin \<in> set rest) InvalidAdmin) (
    gov_validate_each rest))"

definition gov_validate_admins_and_threshold :: "address list \<Rightarrow> u32 \<Rightarrow> unit gov_action" where
  "gov_validate_admins_and_threshold admins threshold =
    andthen (panic_if (threshold = 0 \<or> length admins < unat threshold) InvalidThreshold) (
    andthen (panic_if (admins = []) InvalidAdmin) (
    gov_validate_each admins))"

text \<open>The loop of \<open>verify_admin_auth\<close>: membership, then no later duplicate, then authorisation.\<close>

primrec gov_verify_each :: "'h host_scheme \<Rightarrow> address list \<Rightarrow> address list \<Rightarrow> unit gov_action" where
  "gov_verify_each env admins [] = ret ()"
| "gov_verify_each env admins (signer # rest) =
    andthen (panic_if (signer \<notin> set admins) Unauthorized) (
    andthen (panic_if (signer \<in> set rest) Unauthorized) (
    andthen (require_auth env signer) (
    gov_verify_each env admins rest)))"

definition gov_verify_admin_auth :: "'h host_scheme \<Rightarrow> address list \<Rightarrow> u32 \<Rightarrow> unit gov_action" where
  "gov_verify_admin_auth env signers required_count =
    bind gov_read_admins (\<lambda>admins.
    andthen (panic_if (length signers < unat required_count) Unauthorized) (
    gov_verify_each env admins signers))"

definition gov_read_recovery_address :: "address gov_action" where
  "gov_read_recovery_address =
    andthen (extend_instance_ttl GOV_READ_INSTANCE_TTL_THRESHOLD GOV_READ_INSTANCE_TTL_BUMP) (
    bind (gets st_recovery_address) (\<lambda>a.
    expect_some a NotInitialized))"

definition gov_read_pending_recovery :: "PendingRecovery gov_action" where
  "gov_read_pending_recovery =
    bind (gets st_pending_recovery) (\<lambda>entry.
    bind (expect_some entry RecoveryNotPending) (\<lambda>val.
    case val of
      Decodes p \<Rightarrow> ret p
    | Undecodable \<Rightarrow> panic RecoveryNotPending))"

definition gov_migrate_step :: "u32 \<Rightarrow> unit gov_action" where
  "gov_migrate_step from_version = ret ()"

definition gov_read_schema_version :: "u32 gov_action" where
  "gov_read_schema_version =
    gets (\<lambda>s. case st_schema_version s of Some v \<Rightarrow> v | None \<Rightarrow> GOV_CURRENT_SCHEMA_VERSION)"

text \<open>
  The \<open>while version < CURRENT_SCHEMA_VERSION\<close> loop; \<open>version += 1\<close> cannot overflow under the
  loop condition.
\<close>

function gov_run_migrations_from :: "u32 \<Rightarrow> unit gov_action" where
  "gov_run_migrations_from version =
    (if version < GOV_CURRENT_SCHEMA_VERSION
     then andthen (gov_migrate_step version) (
          andthen (modify (\<lambda>s. s\<lparr>st_schema_version := Some (version + 1)\<rparr>)) (
          gov_run_migrations_from (version + 1)))
     else ret ())"
  by auto

termination
proof (relation "measure (\<lambda>version. unat (GOV_CURRENT_SCHEMA_VERSION - version))")
  fix version :: u32
  assume "version < GOV_CURRENT_SCHEMA_VERSION"
  then have "version = 0"
    by (simp add: GOV_CURRENT_SCHEMA_VERSION_def word_less_nat_alt unat_eq_0)
  then show "(version + 1, version) \<in> measure (\<lambda>version. unat (GOV_CURRENT_SCHEMA_VERSION - version))"
    by (simp add: GOV_CURRENT_SCHEMA_VERSION_def)
qed simp

declare gov_run_migrations_from.simps [simp del]

definition gov_run_migrations :: "unit gov_action" where
  "gov_run_migrations = bind gov_read_schema_version gov_run_migrations_from"

definition gov_read_optional_admins :: "address list gov_action" where
  "gov_read_optional_admins = gets (\<lambda>s. case st_admin s of Some admins \<Rightarrow> admins | None \<Rightarrow> [])"

definition gov_read_optional_primary_admin :: "address gov_action" where
  "gov_read_optional_primary_admin =
    gets (\<lambda>s. case Option.bind (st_admin s) primary_admin of Some a \<Rightarrow> a | None \<Rightarrow> zero_address)"

definition gov_assert_not_paused :: "unit gov_action" where
  "gov_assert_not_paused = bind is_paused (\<lambda>p. panic_if p Paused)"

definition gov_assert_admin_and_not_paused :: "'h host_scheme \<Rightarrow> address list \<Rightarrow> unit gov_action" where
  "gov_assert_admin_and_not_paused env signers =
    andthen gov_assert_not_paused (
    bind gov_read_threshold (\<lambda>threshold.
    gov_verify_admin_auth env signers threshold))"

section \<open>Entry points\<close>

definition gov_supports_interface :: "u32 \<Rightarrow> bool gov_action" where
  "gov_supports_interface version = ret (version = GOV_SUPPORTED_INTERFACE_VERSION)"

definition gov_init ::
  "'h host_scheme \<Rightarrow> address \<Rightarrow> address list \<Rightarrow> u32 \<Rightarrow> address \<Rightarrow> unit gov_action" where
  "gov_init env deployer admins threshold recovery_address =
    bind (gets st_admin) (\<lambda>current.
    andthen (panic_if (current \<noteq> None) AlreadyInitialized) (
    andthen (require_auth env deployer) (
    andthen (gov_validate_admins_and_threshold admins threshold) (
    andthen (gov_assert_not_zero recovery_address InvalidRecoveryAddress) (
    andthen (for_each admins (require_auth env)) (
    andthen (modify (\<lambda>s. s\<lparr>st_deployer := Some deployer\<rparr>)) (
    andthen (modify (\<lambda>s. s\<lparr>st_admin := Some admins\<rparr>)) (
    andthen (modify (\<lambda>s. s\<lparr>st_threshold := Some threshold\<rparr>)) (
    andthen (modify (\<lambda>s. s\<lparr>st_recovery_address := Some recovery_address\<rparr>)) (
    andthen (modify (\<lambda>s. s\<lparr>st_schema_version := Some GOV_CURRENT_SCHEMA_VERSION\<rparr>)) (
    bind (unwrap (get0 admins)) (\<lambda>admin.
    publish [ScSymbol INITIALIZED_EVENT] (ScAddress admin)))))))))))))"

definition gov_is_initialized :: "bool gov_action" where
  "gov_is_initialized = gets (\<lambda>s. st_admin s \<noteq> None)"

definition gov_get_admin :: "address list gov_action" where
  "gov_get_admin = gov_read_admins"

definition gov_get_threshold :: "u32 gov_action" where
  "gov_get_threshold = gov_read_threshold"

definition gov_get_recovery_address :: "address gov_action" where
  "gov_get_recovery_address = gov_read_recovery_address"

definition gov_update_recovery_address ::
  "'h host_scheme \<Rightarrow> address list \<Rightarrow> address \<Rightarrow> unit gov_action" where
  "gov_update_recovery_address env signers new_recovery =
    bind gov_read_threshold (\<lambda>threshold.
    andthen (gov_verify_admin_auth env signers threshold) (
    bind (unwrap (get0 signers)) (\<lambda>admin.
    andthen (gov_assert_not_zero new_recovery InvalidRecoveryAddress) (
    andthen (modify (\<lambda>s. s\<lparr>st_recovery_address := Some new_recovery\<rparr>)) (
    publish [ScSymbol RECOVERY_ADDRESS_UPDATED_EVENT, ScAddress new_recovery] (ScAddress admin))))))"

definition gov_upgrade :: "'h host_scheme \<Rightarrow> address list \<Rightarrow> bytes32 \<Rightarrow> unit gov_action" where
  "gov_upgrade env signers new_wasm_hash =
    bind gov_read_threshold (\<lambda>threshold.
    andthen (gov_verify_admin_auth env signers threshold) (
    bind (probe_supports_interface env new_wasm_hash 1) (\<lambda>supports.
    andthen (panic_if (\<not> supports) InvalidWasmInterface) (
    bind (unwrap (get0 signers)) (\<lambda>caller.
    andthen (publish [ScSymbol CONTRACT_UPGRADED_EVENT, ScBytes32 new_wasm_hash] (ScAddress caller)) (
    update_current_contract_wasm new_wasm_hash))))))"

definition gov_initiate_recovery :: "'h host_scheme \<Rightarrow> address \<Rightarrow> unit gov_action" where
  "gov_initiate_recovery env new_admin =
    bind gov_read_recovery_address (\<lambda>recovery_address.
    andthen (require_auth env recovery_address) (
    andthen (gov_assert_not_zero new_admin InvalidAdmin) (
    bind (gets st_pending_recovery) (\<lambda>entry.
    andthen (panic_if (entry \<noteq> None) RecoveryAlreadyPending) (
    bind (unwrap (checked_add_u64 (h_timestamp env) RECOVERY_DELAY_SECONDS)) (\<lambda>execute_after.
    andthen (modify (\<lambda>s. s\<lparr>st_pending_recovery :=
      Some (Decodes \<lparr>pr_new_admin = new_admin, pr_execute_after = execute_after,
                     pr_initiated_by = recovery_address\<rparr>)\<rparr>)) (
    emit_recovery_initiated recovery_address new_admin execute_after)))))))"

definition gov_cancel_recovery :: "'h host_scheme \<Rightarrow> address list \<Rightarrow> unit gov_action" where
  "gov_cancel_recovery env signers =
    bind gov_read_pending_recovery (\<lambda>pending.
    andthen
      (if length signers = 1 \<and> get0 signers = Some (pr_initiated_by pending)
       then require_auth env (pr_initiated_by pending)
       else bind gov_read_threshold (gov_verify_admin_auth env signers)) (
    bind (unwrap (get0 signers)) (\<lambda>canceller.
    andthen (modify (\<lambda>s. s\<lparr>st_pending_recovery := None\<rparr>)) (
    emit_recovery_cancelled canceller))))"

definition gov_execute_recovery :: "'h host_scheme \<Rightarrow> unit gov_action" where
  "gov_execute_recovery env =
    bind gov_read_pending_recovery (\<lambda>pending.
    andthen (panic_if (h_timestamp env < pr_execute_after pending) RecoveryDelayActive) (
    bind gov_read_optional_admins (\<lambda>old_admins.
    andthen (modify (\<lambda>s. s\<lparr>st_admin := Some [pr_new_admin pending]\<rparr>)) (
    andthen (modify (\<lambda>s. s\<lparr>st_threshold := Some 1\<rparr>)) (
    andthen (modify (\<lambda>s. s\<lparr>st_pending_recovery := None\<rparr>)) (
    emit_recovery_executed
      \<lparr>at_old_admins = old_admins, at_new_admins = [pr_new_admin pending]\<rparr>))))))"

definition gov_transfer_admin ::
  "'h host_scheme \<Rightarrow> address list \<Rightarrow> address list \<Rightarrow> u32 \<Rightarrow> unit gov_action" where
  "gov_transfer_admin env signers new_admins new_threshold =
    bind gov_read_threshold (\<lambda>old_threshold.
    andthen (gov_verify_admin_auth env signers old_threshold) (
    andthen (gov_validate_admins_and_threshold new_admins new_threshold) (
    bind gov_read_admins (\<lambda>old_admins.
    andthen (panic_if (old_admins = new_admins \<and> old_threshold = new_threshold) SameAdmin) (
    andthen (modify (\<lambda>s. s\<lparr>st_admin := Some new_admins\<rparr>)) (
    andthen (modify (\<lambda>s. s\<lparr>st_threshold := Some new_threshold\<rparr>)) (
    emit_admin_transferred \<lparr>at_old_admins = old_admins, at_new_admins = new_admins\<rparr>)))))))"

definition gov_change_threshold :: "'h host_scheme \<Rightarrow> address list \<Rightarrow> u32 \<Rightarrow> unit gov_action" where
  "gov_change_threshold env signers new_threshold =
    bind gov_read_admins (\<lambda>admins.
    andthen (panic_if (new_threshold = 0 \<or> length admins < unat new_threshold) InvalidThreshold) (
    bind gov_read_threshold (\<lambda>current_threshold.
    andthen (gov_verify_admin_auth env signers current_threshold) (
    andthen (modify (\<lambda>s. s\<lparr>st_threshold := Some new_threshold\<rparr>)) (
    publish [ScSymbol THRESHOLD_CHANGED_EVENT]
      (ScVec [ScU32 current_threshold, ScU32 new_threshold]))))))"

definition gov_pause :: "'h host_scheme \<Rightarrow> address list \<Rightarrow> unit gov_action" where
  "gov_pause env signers =
    bind gov_read_threshold (\<lambda>threshold.
    andthen (gov_verify_admin_auth env signers threshold) (
    bind is_paused (\<lambda>p.
    andthen (panic_if p AlreadyPaused) (
    bind (unwrap (get0 signers)) (\<lambda>admin.
    apply_pause admin PAUSE_REASON_NONE)))))"

definition gov_unpause :: "'h host_scheme \<Rightarrow> address list \<Rightarrow> unit gov_action" where
  "gov_unpause env signers =
    bind gov_read_threshold (\<lambda>threshold.
    andthen (gov_verify_admin_auth env signers threshold) (
    bind is_paused (\<lambda>p.
    andthen (panic_if (\<not> p) AlreadyUnpaused) (
    bind (unwrap (get0 signers)) (\<lambda>admin.
    apply_unpause admin)))))"

definition gov_is_paused :: "bool gov_action" where
  "gov_is_paused = is_paused"

definition gov_migrate :: "'h host_scheme \<Rightarrow> address list \<Rightarrow> unit gov_action" where
  "gov_migrate env signers =
    andthen gov_assert_not_paused (
    bind gov_read_threshold (\<lambda>threshold.
    andthen (gov_verify_admin_auth env signers threshold) (
    bind (unwrap (get0 signers)) (\<lambda>admin.
    andthen gov_run_migrations (
    publish [ScSymbol MIGRATED_EVENT] (ScVec [ScAddress admin, ScU32 GOV_CURRENT_SCHEMA_VERSION]))))))"

definition gov_update_system_param ::
  "'h host_scheme \<Rightarrow> address list \<Rightarrow> string \<Rightarrow> int \<Rightarrow> unit gov_action" where
  "gov_update_system_param env signers key val =
    andthen (gov_assert_admin_and_not_paused env signers) (
    andthen (panic_if (val < 0) InvalidParamValue) (
    andthen (panic_if (key = BYPASS_GOV_FEES_PARAM \<and> 1 < val) InvalidParamValue) (
    bind (unwrap (get0 signers)) (\<lambda>admin.
    bind (gets (\<lambda>s. gs_system_param s key)) (\<lambda>previous_value.
    andthen (modify (\<lambda>s. s\<lparr>gs_system_param := (gs_system_param s)(key \<mapsto> val)\<rparr>)) (
    andthen (extend_persistent_ttl (SystemParam key) SYSTEM_PARAM_TTL_THRESHOLD SYSTEM_PARAM_TTL_BUMP) (
    publish [ScSymbol SYS_PARAM_UPDATED_EVENT, ScSymbol key]
      (ScVec [ScAddress admin, sc_option ScI128 previous_value, ScI128 val]))))))))"

definition gov_get_system_param :: "string \<Rightarrow> int option gov_action" where
  "gov_get_system_param key =
    bind (gets (\<lambda>s. gs_system_param s key \<noteq> None)) (\<lambda>has.
    andthen (when_do has
      (extend_persistent_ttl (SystemParam key) SYSTEM_PARAM_TTL_THRESHOLD SYSTEM_PARAM_TTL_BUMP)) (
    gets (\<lambda>s. gs_system_param s key)))"

definition gov_set_fee_config :: "'h host_scheme \<Rightarrow> address list \<Rightarrow> FeeConfig \<Rightarrow> unit gov_action" where
  "gov_set_fee_config env signers config =
    andthen (gov_assert_admin_and_not_paused env signers) (
    andthen (panic_if
      (fc_platform_fee_bps config < MIN_FEE_BPS \<or> MAX_FEE_BPS < fc_platform_fee_bps config \<or>
       fc_network_fee_bps config < MIN_FEE_BPS \<or> MAX_FEE_BPS < fc_network_fee_bps config)
      InvalidFeeBps) (
    bind (unwrap (checked_add_u32 (fc_platform_fee_bps config) (fc_network_fee_bps config))) (\<lambda>total_bps.
    andthen (panic_if (BPS_DENOMINATOR < total_bps) InvalidFeeBps) (
    bind (unwrap (get0 signers)) (\<lambda>admin.
    andthen (modify (\<lambda>s. s\<lparr>gs_fee_config := Some config\<rparr>)) (
    publish [ScSymbol FEE_CONFIG_UPDATED_EVENT] (ScVec [ScAddress admin, sc_fee_config config])))))))"

definition gov_get_fee_config :: "FeeConfig option gov_action" where
  "gov_get_fee_config = gets gs_fee_config"

definition gov_upsert_anchor ::
  "'h host_scheme \<Rightarrow> address list \<Rightarrow> address \<Rightarrow> address \<Rightarrow> unit gov_action" where
  "gov_upsert_anchor env signers asset anchor =
    andthen (gov_assert_admin_and_not_paused env signers) (
    andthen (gov_assert_not_zero asset InvalidAdmin) (
    andthen (gov_assert_not_zero anchor InvalidAdmin) (
    andthen (panic_if (asset = anchor) InvalidAdmin) (
    bind (gets (\<lambda>s. gs_anchor s asset)) (\<lambda>old_anchor.
    andthen (modify (\<lambda>s. s\<lparr>gs_anchor := (gs_anchor s)(asset \<mapsto> anchor)\<rparr>)) (
    andthen (extend_persistent_ttl (Anchor asset) ANCHOR_TTL_THRESHOLD ANCHOR_TTL_BUMP) (
    publish [ScSymbol ANCHOR_UPSERTED_EVENT, ScAddress asset]
      (ScVec [sc_option ScAddress old_anchor, ScAddress anchor]))))))))"

definition gov_remove_anchor :: "'h host_scheme \<Rightarrow> address list \<Rightarrow> address \<Rightarrow> unit gov_action" where
  "gov_remove_anchor env signers asset =
    andthen (gov_assert_admin_and_not_paused env signers) (
    bind (gets (\<lambda>s. gs_anchor s asset)) (\<lambda>current.
    andthen (panic_if (current = None) AnchorMissing) (
    andthen (modify (\<lambda>s. s\<lparr>gs_anchor := (gs_anchor s)(asset := None)\<rparr>)) (
    publish [ScSymbol ANCHOR_REMOVED_EVENT, ScAddress asset] ScVoid))))"

definition gov_get_anchor :: "address \<Rightarrow> address option gov_action" where
  "gov_get_anchor asset =
    bind (gets (\<lambda>s. gs_anchor s asset)) (\<lambda>result.
    andthen (when_do (result \<noteq> None)
      (extend_persistent_ttl (Anchor asset) ANCHOR_TTL_THRESHOLD ANCHOR_TTL_BUMP)) (
    ret result))"

end
