(* ===== verification/Governance_Ops.thy ===== *)
theory Governance_Ops
  imports Governance Contract_Interfaces
begin

text \<open>
  The behaviour of the governance contract's operations: for each helper and entry point, when it
  completes and what it leaves. The collection \<open>act_ok\<close> carries the proofs of the properties.
\<close>

definition gov_touch :: "gov_state \<Rightarrow> gov_state" where
  "gov_touch s = s\<lparr>st_bumps := st_bumps s @
    [BumpInstance GOV_READ_INSTANCE_TTL_THRESHOLD GOV_READ_INSTANCE_TTL_BUMP]\<rparr>"

lemma gov_touch_fields [simp]:
  "st_admin (gov_touch s) = st_admin s" "st_threshold (gov_touch s) = st_threshold s"
  "st_paused (gov_touch s) = st_paused s" "st_recovery_address (gov_touch s) = st_recovery_address s"
  "st_pending_recovery (gov_touch s) = st_pending_recovery s" "st_deployer (gov_touch s) = st_deployer s"
  "st_schema_version (gov_touch s) = st_schema_version s" "st_wasm (gov_touch s) = st_wasm s"
  "st_events (gov_touch s) = st_events s" "gs_system_param (gov_touch s) = gs_system_param s"
  "gs_fee_config (gov_touch s) = gs_fee_config s" "gs_anchor (gov_touch s) = gs_anchor s"
  "paused (gov_touch s) = paused s"
  by (simp_all add: gov_touch_def)

text \<open>The state after an optional read of the admin list.\<close>

definition gov_touch_if :: "bool \<Rightarrow> gov_state \<Rightarrow> gov_state" where
  "gov_touch_if c s = (if c then gov_touch s else s)"

lemma gov_touch_if_fields [simp]:
  "st_admin (gov_touch_if c s) = st_admin s" "st_threshold (gov_touch_if c s) = st_threshold s"
  "st_paused (gov_touch_if c s) = st_paused s"
  "st_recovery_address (gov_touch_if c s) = st_recovery_address s"
  "st_pending_recovery (gov_touch_if c s) = st_pending_recovery s"
  "st_deployer (gov_touch_if c s) = st_deployer s"
  "st_schema_version (gov_touch_if c s) = st_schema_version s" "st_wasm (gov_touch_if c s) = st_wasm s"
  "st_events (gov_touch_if c s) = st_events s" "gs_system_param (gov_touch_if c s) = gs_system_param s"
  "gs_fee_config (gov_touch_if c s) = gs_fee_config s" "gs_anchor (gov_touch_if c s) = gs_anchor s"
  "paused (gov_touch_if c s) = paused s"
  by (simp_all add: gov_touch_if_def)

section \<open>Helpers\<close>

lemma gov_read_admins_Inr [act_ok]:
  "gov_read_admins s = Inr r \<longleftrightarrow> (\<exists>admins. st_admin s = Some admins \<and> r = (admins, gov_touch s))"
  by (auto simp: gov_read_admins_def gov_touch_def act_simps)

lemma gov_read_admins_Inl [act_ok]:
  "gov_read_admins s = Inl e \<longleftrightarrow> st_admin s = None \<and> e = ContractError NotInitialized"
  by (auto simp: gov_read_admins_def act_simps)

lemma gov_read_threshold_Inr [act_ok]:
  "gov_read_threshold s = Inr r \<longleftrightarrow> (\<exists>t. st_threshold s = Some t \<and> r = (t, s))"
  by (auto simp: gov_read_threshold_def act_simps)

lemma gov_read_threshold_Inl [act_ok]:
  "gov_read_threshold s = Inl e \<longleftrightarrow> st_threshold s = None \<and> e = ContractError NotInitialized"
  by (auto simp: gov_read_threshold_def act_simps)

lemma gov_assert_not_zero_Inr [act_ok]:
  "gov_assert_not_zero a err s = Inr r \<longleftrightarrow> a \<noteq> zero_address \<and> r = ((), s)"
  by (auto simp: gov_assert_not_zero_def is_zero_address_def act_simps)

lemma gov_assert_not_zero_Inl [act_ok]:
  "gov_assert_not_zero a err s = Inl e \<longleftrightarrow> a = zero_address \<and> e = ContractError err"
  by (auto simp: gov_assert_not_zero_def is_zero_address_def act_simps)

lemma gov_validate_each_Inr:
  "gov_validate_each admins s = Inr r \<longleftrightarrow> distinct admins \<and> zero_address \<notin> set admins \<and> r = ((), s)"
  by (induction admins) (auto simp: act_simps act_ok)

lemma gov_validate_each_Inl:
  "gov_validate_each admins s = Inl e \<longleftrightarrow>
    (\<not> distinct admins \<or> zero_address \<in> set admins) \<and> e = ContractError InvalidAdmin"
  by (induction admins) (auto simp: act_simps act_ok)

lemma gov_validate_admins_and_threshold_Inr [act_ok]:
  "gov_validate_admins_and_threshold admins t s = Inr r \<longleftrightarrow> valid_admins admins t \<and> r = ((), s)"
  by (auto simp: gov_validate_admins_and_threshold_def valid_admins_def gov_validate_each_Inr act_simps
      unat_eq_zero)

lemma gov_verify_each_Inr:
  "gov_verify_each env admins signers s = Inr r \<longleftrightarrow>
    distinct signers \<and> set signers \<subseteq> set admins \<and> set signers \<subseteq> h_auths env \<and> r = ((), s)"
  by (induction signers) (auto simp: act_simps)

lemma gov_verify_admin_auth_Inr [act_ok]:
  "gov_verify_admin_auth env signers n s = Inr r \<longleftrightarrow>
    admin_quorum env s signers n \<and> r = ((), gov_touch s)"
  by (auto simp: gov_verify_admin_auth_def admin_quorum_def gov_verify_each_Inr act_simps act_ok
      split: option.splits)

interpretation gov_auth: multisig gov_verify_admin_auth gov_touch
  by unfold_locales (rule gov_verify_admin_auth_Inr)

lemma gov_read_recovery_address_Inr [act_ok]:
  "gov_read_recovery_address s = Inr r \<longleftrightarrow>
    (\<exists>a. st_recovery_address s = Some a \<and> r = (a, gov_touch s))"
  by (auto simp: gov_read_recovery_address_def gov_touch_def act_simps)

lemma gov_read_pending_recovery_Inr [act_ok]:
  "gov_read_pending_recovery s = Inr r \<longleftrightarrow>
    (\<exists>p. st_pending_recovery s = Some (Decodes p) \<and> r = (p, s))"
  by (auto simp: gov_read_pending_recovery_def act_eval split: option.splits stored.splits)

lemma gov_read_pending_recovery_Inl [act_ok]:
  "gov_read_pending_recovery s = Inl e \<longleftrightarrow>
    (\<forall>p. st_pending_recovery s \<noteq> Some (Decodes p)) \<and> e = ContractError RecoveryNotPending"
  by (auto simp: gov_read_pending_recovery_def act_eval split: option.splits stored.splits)

lemma gov_assert_not_paused_Inr [act_ok]:
  "gov_assert_not_paused s = Inr r \<longleftrightarrow> \<not> paused s \<and> r = ((), s)"
  by (auto simp: gov_assert_not_paused_def act_simps)

lemma gov_assert_not_paused_Inl [act_ok]:
  "gov_assert_not_paused s = Inl e \<longleftrightarrow> paused s \<and> e = ContractError Paused"
  by (auto simp: gov_assert_not_paused_def act_simps)

text \<open>The signers meet the stored threshold.\<close>

definition gov_quorum :: "'h host_scheme \<Rightarrow> gov_state \<Rightarrow> address list \<Rightarrow> bool" where
  "gov_quorum env s signers \<longleftrightarrow> (\<exists>t. st_threshold s = Some t \<and> admin_quorum env s signers t)"

lemma gov_quorum_auth:
  "bind gov_read_threshold (gov_verify_admin_auth env signers) s = Inr r \<longleftrightarrow>
    gov_quorum env s signers \<and> r = ((), gov_touch s)"
  by (auto simp: gov_quorum_def act_simps act_ok)

lemma gov_assert_admin_and_not_paused_Inr [act_ok]:
  "gov_assert_admin_and_not_paused env signers s = Inr r \<longleftrightarrow>
    \<not> paused s \<and> gov_quorum env s signers \<and> r = ((), gov_touch s)"
  by (auto simp: gov_assert_admin_and_not_paused_def gov_quorum_def act_simps act_ok)

lemma gov_quorum_nonempty:
  "gov_quorum env s signers \<Longrightarrow> shared_wf s \<Longrightarrow> signers \<noteq> []"
  by (auto simp: gov_quorum_def admin_quorum_def shared_wf_def unat_eq_zero split: option.splits)

section \<open>Migrations\<close>

text \<open>The loop always ends with the marker at the current version, or leaves a newer one alone.\<close>

lemma gov_run_migrations_from_run:
  "gov_run_migrations_from version s =
    Inr ((), if version < GOV_CURRENT_SCHEMA_VERSION
             then s\<lparr>st_schema_version := Some GOV_CURRENT_SCHEMA_VERSION\<rparr> else s)"
proof (induction version arbitrary: s rule: gov_run_migrations_from.induct)
  case (1 version)
  show ?case
  proof (cases "version < GOV_CURRENT_SCHEMA_VERSION")
    case True
    then have "\<not> version + 1 < GOV_CURRENT_SCHEMA_VERSION \<longrightarrow> version + 1 = GOV_CURRENT_SCHEMA_VERSION"
      by (metis inc_le order_antisym_conv linorder_not_less)
    then show ?thesis
      using True 1 [OF True]
      by (subst gov_run_migrations_from.simps) (auto simp: gov_migrate_step_def andthen_run act_simps)
  next
    case False
    then show ?thesis
      by (subst gov_run_migrations_from.simps) (simp add: act_simps)
  qed
qed

lemma gov_run_migrations_run [act_ok]:
  "gov_run_migrations s =
    Inr ((), if \<exists>v. st_schema_version s = Some v \<and> v < GOV_CURRENT_SCHEMA_VERSION
             then s\<lparr>st_schema_version := Some GOV_CURRENT_SCHEMA_VERSION\<rparr> else s)"
  by (auto simp: gov_run_migrations_def gov_read_schema_version_def bind_run gets_run
      gov_run_migrations_from_run split: option.splits)

section \<open>Entry points\<close>

lemma gov_init_Inr [act_ok]:
  "gov_init env deployer admins t ra s = Inr r \<longleftrightarrow>
    st_admin s = None \<and> deployer \<in> h_auths env \<and> valid_admins admins t \<and> ra \<noteq> zero_address \<and>
    set admins \<subseteq> h_auths env \<and>
    r = ((), s\<lparr>st_admin := Some admins, st_threshold := Some t, st_recovery_address := Some ra,
      st_deployer := Some deployer, st_schema_version := Some GOV_CURRENT_SCHEMA_VERSION,
      st_events := st_events s @ [([ScSymbol INITIALIZED_EVENT], ScAddress (hd admins))]\<rparr>)"
  by (cases admins)
    (auto simp: gov_init_def act_simps act_ok for_each_check [where P = "\<lambda>a. a \<in> h_auths env"]
      valid_admins_def unat_eq_zero)

lemma gov_update_recovery_address_Inr [act_ok]:
  "gov_update_recovery_address env signers a s = Inr r \<longleftrightarrow>
    gov_quorum env s signers \<and> signers \<noteq> [] \<and> a \<noteq> zero_address \<and>
    r = ((), (gov_touch s)\<lparr>st_recovery_address := Some a,
      st_events := st_events s @ [([ScSymbol RECOVERY_ADDRESS_UPDATED_EVENT, ScAddress a],
        ScAddress (hd signers))]\<rparr>)"
  by (auto simp: gov_update_recovery_address_def gov_quorum_def act_simps act_ok neq_Nil_conv)

lemma gov_upgrade_Inr [act_ok]:
  "gov_upgrade env signers hash s = Inr r \<longleftrightarrow>
    gov_quorum env s signers \<and> signers \<noteq> [] \<and> h_probe_deploys env hash \<and> wasm_supports env hash 1 \<and>
    r = ((), (gov_touch s)\<lparr>st_wasm := hash,
      st_events := st_events s @ [([ScSymbol CONTRACT_UPGRADED_EVENT, ScBytes32 hash],
        ScAddress (hd signers))]\<rparr>)"
  by (auto simp: gov_upgrade_def gov_quorum_def act_simps act_ok neq_Nil_conv)

lemma gov_initiate_recovery_Inr [act_ok]:
  "gov_initiate_recovery env new_admin s = Inr r \<longleftrightarrow>
    (\<exists>ra. st_recovery_address s = Some ra \<and> ra \<in> h_auths env \<and> new_admin \<noteq> zero_address \<and>
      st_pending_recovery s = None \<and>
      unat (h_timestamp env) + unat RECOVERY_DELAY_SECONDS < 2 ^ 64 \<and>
      r = ((), (gov_touch s)\<lparr>st_pending_recovery := Some (Decodes
            \<lparr>pr_new_admin = new_admin, pr_execute_after = h_timestamp env + RECOVERY_DELAY_SECONDS,
             pr_initiated_by = ra\<rparr>),
          st_events := st_events s @ [([ScSymbol RECOVERY_INITIATED_EVENT],
            ScVec [ScAddress ra, ScAddress new_admin, ScU64 (h_timestamp env + RECOVERY_DELAY_SECONDS)])]\<rparr>))"
  by (auto simp: gov_initiate_recovery_def emit_defs act_simps act_ok)

lemma gov_cancel_recovery_Inr [act_ok]:
  "gov_cancel_recovery env signers s = Inr r \<longleftrightarrow>
    (\<exists>p. st_pending_recovery s = Some (Decodes p) \<and> signers \<noteq> [] \<and>
      (signers = [pr_initiated_by p] \<and> pr_initiated_by p \<in> h_auths env \<or>
       signers \<noteq> [pr_initiated_by p] \<and> gov_quorum env s signers) \<and>
      r = ((), (gov_touch_if (signers \<noteq> [pr_initiated_by p]) s)\<lparr>st_pending_recovery := None,
        st_events := st_events s @ [([ScSymbol RECOVERY_CANCELLED_EVENT], ScAddress (hd signers))]\<rparr>))"
proof (cases "\<exists>p. st_pending_recovery s = Some (Decodes p)")
  case True
  then obtain p where p: "st_pending_recovery s = Some (Decodes p)"
    by blast
  show ?thesis
  proof (cases "signers = [pr_initiated_by p]")
    case True
    then show ?thesis
      using p by (auto simp: gov_cancel_recovery_def gov_touch_if_def emit_defs act_simps act_ok get0_def)
  next
    case False
    then show ?thesis
      using p by (cases signers)
        (auto simp: gov_cancel_recovery_def gov_touch_if_def gov_quorum_def emit_defs act_simps act_ok
          get0_def)
  qed
next
  case False
  then show ?thesis
    by (auto simp: gov_cancel_recovery_def act_simps act_ok)
qed

lemma gov_execute_recovery_Inr [act_ok]:
  "gov_execute_recovery env s = Inr r \<longleftrightarrow>
    (\<exists>p. st_pending_recovery s = Some (Decodes p) \<and> pr_execute_after p \<le> h_timestamp env \<and>
      r = ((), s\<lparr>st_admin := Some [pr_new_admin p], st_threshold := Some 1,
        st_pending_recovery := None,
        st_events := st_events s @ [([ScSymbol RECOVERY_EXECUTED_EVENT], sc_admin_transferred
          \<lparr>at_old_admins = (case st_admin s of Some admins \<Rightarrow> admins | None \<Rightarrow> []),
           at_new_admins = [pr_new_admin p]\<rparr>)]\<rparr>))"
  by (auto simp: gov_execute_recovery_def gov_read_optional_admins_def emit_defs act_simps act_ok not_less)

lemma gov_transfer_admin_Inr [act_ok]:
  "gov_transfer_admin env signers new_admins new_t s = Inr r \<longleftrightarrow>
    gov_quorum env s signers \<and> valid_admins new_admins new_t \<and>
    \<not> (st_admin s = Some new_admins \<and> st_threshold s = Some new_t) \<and>
    r = ((), (gov_touch (gov_touch s))\<lparr>st_admin := Some new_admins, st_threshold := Some new_t,
      st_events := st_events s @ [([ScSymbol ADMIN_TRANSFERRED_EVENT], sc_admin_transferred
        \<lparr>at_old_admins = the (st_admin s), at_new_admins = new_admins\<rparr>)]\<rparr>)"
  by (auto simp: gov_transfer_admin_def gov_quorum_def emit_defs act_simps act_ok admin_quorum_def
      split: option.splits)

lemma gov_change_threshold_Inr [act_ok]:
  "gov_change_threshold env signers new_t s = Inr r \<longleftrightarrow>
    gov_quorum env s signers \<and> new_t \<noteq> 0 \<and> unat new_t \<le> length (the (st_admin s)) \<and>
    r = ((), (gov_touch (gov_touch s))\<lparr>st_threshold := Some new_t,
      st_events := st_events s @ [([ScSymbol THRESHOLD_CHANGED_EVENT],
        ScVec [ScU32 (the (st_threshold s)), ScU32 new_t])]\<rparr>)"
  by (auto simp: gov_change_threshold_def gov_quorum_def act_simps act_ok admin_quorum_def not_less
      split: option.splits)

lemma gov_pause_Inr [act_ok]:
  "gov_pause env signers s = Inr r \<longleftrightarrow>
    gov_quorum env s signers \<and> signers \<noteq> [] \<and> \<not> paused s \<and>
    r = ((), (gov_touch s)\<lparr>st_paused := Some True, st_events := st_events s @
      [([ScSymbol PAUSED_EVENT], ScVec [ScAddress (hd signers), ScBool True, ScU32 PAUSE_REASON_NONE])]\<rparr>)"
  by (auto simp: gov_pause_def gov_quorum_def act_simps act_ok neq_Nil_conv)

lemma gov_unpause_Inr [act_ok]:
  "gov_unpause env signers s = Inr r \<longleftrightarrow>
    gov_quorum env s signers \<and> signers \<noteq> [] \<and> paused s \<and>
    r = ((), (gov_touch s)\<lparr>st_paused := Some False, st_events := st_events s @
      [([ScSymbol UNPAUSED_EVENT], ScVec [ScAddress (hd signers), ScBool False])]\<rparr>)"
  by (auto simp: gov_unpause_def gov_quorum_def act_simps act_ok neq_Nil_conv)

lemma gov_migrate_Inr [act_ok]:
  "gov_migrate env signers s = Inr r \<longleftrightarrow>
    \<not> paused s \<and> gov_quorum env s signers \<and> signers \<noteq> [] \<and>
    r = ((), (gov_touch s)\<lparr>
      st_schema_version :=
        (if \<exists>v. st_schema_version s = Some v \<and> v < GOV_CURRENT_SCHEMA_VERSION
         then Some GOV_CURRENT_SCHEMA_VERSION else st_schema_version s),
      st_events := st_events s @ [([ScSymbol MIGRATED_EVENT],
        ScVec [ScAddress (hd signers), ScU32 GOV_CURRENT_SCHEMA_VERSION])]\<rparr>)"
  by (auto simp: gov_migrate_def gov_quorum_def act_simps act_ok neq_Nil_conv)

lemma gov_update_system_param_Inr [act_ok]:
  "gov_update_system_param env signers key val s = Inr r \<longleftrightarrow>
    \<not> paused s \<and> gov_quorum env s signers \<and> signers \<noteq> [] \<and> 0 \<le> val \<and>
    (key = BYPASS_GOV_FEES_PARAM \<longrightarrow> val \<le> 1) \<and>
    r = ((), (gov_touch s)\<lparr>gs_system_param := (gs_system_param s)(key \<mapsto> val),
      st_bumps := st_bumps (gov_touch s) @
        [BumpPersistent (SystemParam key) SYSTEM_PARAM_TTL_THRESHOLD SYSTEM_PARAM_TTL_BUMP],
      st_events := st_events s @ [([ScSymbol SYS_PARAM_UPDATED_EVENT, ScSymbol key],
        ScVec [ScAddress (hd signers), sc_option ScI128 (gs_system_param s key), ScI128 val])]\<rparr>)"
  by (auto simp: gov_update_system_param_def act_simps act_ok neq_Nil_conv)

lemma gov_get_system_param_run [act_ok]:
  "gov_get_system_param key s = Inr (gs_system_param s key,
    if gs_system_param s key = None then s else s\<lparr>st_bumps := st_bumps s @
      [BumpPersistent (SystemParam key) SYSTEM_PARAM_TTL_THRESHOLD SYSTEM_PARAM_TTL_BUMP]\<rparr>)"
  by (auto simp: gov_get_system_param_def act_eval extend_persistent_ttl_run)

text \<open>The fee configurations governance accepts; the sum of two such fees cannot overflow.\<close>

definition valid_fee_config :: "FeeConfig \<Rightarrow> bool" where
  "valid_fee_config c \<longleftrightarrow>
    5 \<le> unat (fc_platform_fee_bps c) \<and> unat (fc_platform_fee_bps c) \<le> 5000 \<and>
    5 \<le> unat (fc_network_fee_bps c) \<and> unat (fc_network_fee_bps c) \<le> 5000"

lemma fee_bound_iff:
  "\<not> a < MIN_FEE_BPS \<longleftrightarrow> 5 \<le> unat a" "\<not> MAX_FEE_BPS < a \<longleftrightarrow> unat a \<le> 5000"
  by (simp_all add: MIN_FEE_BPS_def MAX_FEE_BPS_def word_less_nat_alt not_less)

lemma gov_set_fee_config_Inr [act_ok]:
  "gov_set_fee_config env signers config s = Inr r \<longleftrightarrow>
    \<not> paused s \<and> gov_quorum env s signers \<and> signers \<noteq> [] \<and> valid_fee_config config \<and>
    r = ((), (gov_touch s)\<lparr>gs_fee_config := Some config,
      st_events := st_events s @ [([ScSymbol FEE_CONFIG_UPDATED_EVENT],
        ScVec [ScAddress (hd signers), sc_fee_config config])]\<rparr>)"
proof -
  define p n where "p = fc_platform_fee_bps config" and "n = fc_network_fee_bps config"
  have "\<not> BPS_DENOMINATOR < p + n" if "unat p \<le> 5000" "unat n \<le> 5000"
    using that unat_add_u32 [of p n] by (simp add: BPS_DENOMINATOR_def word_less_nat_alt)
  then show ?thesis
    by (auto simp: gov_set_fee_config_def valid_fee_config_def act_simps act_ok get0_hd
        fee_bound_iff [simplified] p_def [symmetric] n_def [symmetric] not_less [symmetric])
qed

lemma gov_upsert_anchor_Inr [act_ok]:
  "gov_upsert_anchor env signers asset anchor s = Inr r \<longleftrightarrow>
    \<not> paused s \<and> gov_quorum env s signers \<and> asset \<noteq> zero_address \<and> anchor \<noteq> zero_address \<and>
    asset \<noteq> anchor \<and>
    r = ((), (gov_touch s)\<lparr>gs_anchor := (gs_anchor s)(asset \<mapsto> anchor),
      st_bumps := st_bumps (gov_touch s) @
        [BumpPersistent (Anchor asset) ANCHOR_TTL_THRESHOLD ANCHOR_TTL_BUMP],
      st_events := st_events s @ [([ScSymbol ANCHOR_UPSERTED_EVENT, ScAddress asset],
        ScVec [sc_option ScAddress (gs_anchor s asset), ScAddress anchor])]\<rparr>)"
  by (auto simp: gov_upsert_anchor_def act_simps act_ok)

lemma gov_remove_anchor_Inr [act_ok]:
  "gov_remove_anchor env signers asset s = Inr r \<longleftrightarrow>
    \<not> paused s \<and> gov_quorum env s signers \<and> gs_anchor s asset \<noteq> None \<and>
    r = ((), (gov_touch s)\<lparr>gs_anchor := (gs_anchor s)(asset := None),
      st_events := st_events s @ [([ScSymbol ANCHOR_REMOVED_EVENT, ScAddress asset], ScVoid)]\<rparr>)"
  by (auto simp: gov_remove_anchor_def act_simps act_ok)

lemma gov_get_anchor_run [act_ok]:
  "gov_get_anchor asset s = Inr (gs_anchor s asset,
    if gs_anchor s asset = None then s else s\<lparr>st_bumps := st_bumps s @
      [BumpPersistent (Anchor asset) ANCHOR_TTL_THRESHOLD ANCHOR_TTL_BUMP]\<rparr>)"
  by (auto simp: gov_get_anchor_def act_eval extend_persistent_ttl_run)

end
