(* ===== verification/Custody.thy ===== *)
theory Custody
  imports Contract_Interfaces
begin

text \<open>
  The custody of a contract: who its admins are and how they are replaced. Both contracts implement this
  machine, each with code of its own; their theories interpret \<open>simulation\<close> on it. A step is labelled with the
  addresses that authorised the invocation and the ledger time. The flag \<open>delegation\<close> says whether the machine
  also has the steps that need nobody's authorisation because they were queued before: only the settlement
  contract has them.
\<close>

record custody =
  cu_admins :: "address list option"
  cu_threshold :: "u32 option"
  cu_recovery :: "address option"
  cu_pending :: "PendingRecovery option"

text \<open>Enough different admins authorised.\<close>

definition authorised :: "address set \<Rightarrow> custody \<Rightarrow> bool" where
  "authorised auths c \<longleftrightarrow> (\<exists>admins t. cu_admins c = Some admins \<and> cu_threshold c = Some t \<and>
    unat t \<le> card (set admins \<inter> auths))"

inductive custody_step :: "bool \<Rightarrow> address set \<times> nat \<Rightarrow> custody \<Rightarrow> custody \<Rightarrow> bool" for delegation where
  appoint: "cu_admins c = None \<Longrightarrow> valid_admins admins t \<Longrightarrow> set admins \<subseteq> auths \<Longrightarrow> ra \<noteq> zero_address \<Longrightarrow>
    custody_step delegation (auths, now) c
      \<lparr>cu_admins = Some admins, cu_threshold = Some t, cu_recovery = Some ra, cu_pending = None\<rparr>"
| hand_over: "authorised auths c \<Longrightarrow> valid_admins admins t \<Longrightarrow>
    custody_step delegation (auths, now) c (c\<lparr>cu_admins := Some admins, cu_threshold := Some t\<rparr>)"
| move_recovery: "authorised auths c \<Longrightarrow> ra \<noteq> zero_address \<Longrightarrow>
    custody_step delegation (auths, now) c (c\<lparr>cu_recovery := Some ra\<rparr>)"
| initiate: "cu_pending c = None \<Longrightarrow> cu_recovery c = Some ra \<Longrightarrow> ra \<in> auths \<Longrightarrow> pr_initiated_by p = ra \<Longrightarrow>
    pr_new_admin p \<noteq> zero_address \<Longrightarrow> now + unat RECOVERY_DELAY_SECONDS = recovery_due p \<Longrightarrow>
    custody_step delegation (auths, now) c (c\<lparr>cu_pending := Some p\<rparr>)"
| withdraw: "cu_pending c = Some p \<Longrightarrow> authorised auths c \<or> pr_initiated_by p \<in> auths \<Longrightarrow>
    custody_step delegation (auths, now) c (c\<lparr>cu_pending := None\<rparr>)"
| recover: "cu_pending c = Some p \<Longrightarrow> recovery_due p \<le> now \<Longrightarrow>
    custody_step delegation (auths, now) c
      (c\<lparr>cu_admins := Some [pr_new_admin p], cu_threshold := Some 1, cu_pending := None\<rparr>)"
| delegated_hand_over: "delegation \<Longrightarrow> cu_admins c \<noteq> None \<Longrightarrow> cu_pending c = None \<Longrightarrow> valid_admins admins t \<Longrightarrow>
    custody_step delegation (auths, now) c (c\<lparr>cu_admins := Some admins, cu_threshold := Some t\<rparr>)"
| delegated_withdraw: "delegation \<Longrightarrow> cu_pending c \<noteq> None \<Longrightarrow>
    custody_step delegation (auths, now) c (c\<lparr>cu_pending := None\<rparr>)"

text \<open>What a contract's storage says of its custody.\<close>

definition custody_of :: "('k, 'x) contract_state_scheme \<Rightarrow> custody" where
  "custody_of s = \<lparr>cu_admins = st_admin s, cu_threshold = st_threshold s, cu_recovery = st_recovery_address s,
    cu_pending = (case st_pending_recovery s of Some (Decodes p) \<Rightarrow> Some p | _ \<Rightarrow> None)\<rparr>"

definition custody_label :: "'h host_scheme \<times> 'c \<Rightarrow> address set \<times> nat" where
  "custody_label l = (h_auths (fst l), label_time l)"

lemma custody_of_cong:
  assumes "st_admin s' = st_admin s" "st_threshold s' = st_threshold s"
    "st_recovery_address s' = st_recovery_address s" "st_pending_recovery s' = st_pending_recovery s"
  shows "custody_of s' = custody_of s"
  using assms by (simp add: custody_of_def)

lemma quorum_authorised:
  assumes "admin_quorum env s signers n" "st_threshold s = Some t" "unat t \<le> unat n"
  shows "authorised (h_auths env) (custody_of s)"
proof -
  obtain admins where admins: "st_admin s = Some admins" "unat n \<le> length signers" "distinct signers"
    "set signers \<subseteq> set admins" "set signers \<subseteq> h_auths env"
    using assms(1) by (auto simp: admin_quorum_def split: option.splits)
  then have "card (set signers) \<le> card (set admins \<inter> h_auths env)"
    by (intro card_mono) auto
  then show ?thesis
    using admins assms(2,3) by (auto simp: authorised_def custody_of_def distinct_card)
qed

text \<open>Without delegation, new admins come by appointment, with the old ones' authority, or by a recovery that is due.\<close>

lemma custody_change:
  assumes "custody_step False (auths, now) c c'" "cu_admins c' \<noteq> cu_admins c"
  shows "cu_admins c = None \<or> authorised auths c \<or>
    (\<exists>p. cu_pending c = Some p \<and> recovery_due p \<le> now \<and> cu_admins c' = Some [pr_new_admin p])"
  using assms by (cases rule: custody_step.cases) auto

section \<open>Steps of the storage\<close>

lemma custody_of_eqI:
  assumes "st_admin s' = cu_admins c" "st_threshold s' = cu_threshold c" "st_recovery_address s' = cu_recovery c"
    "st_pending_recovery s' = map_option Decodes (cu_pending c)"
  shows "custody_of s' = c"
  using assms by (cases c) (auto simp: custody_of_def split: option.splits)

lemma custody_of_fields [simp]:
  "cu_admins (custody_of s) = st_admin s" "cu_threshold (custody_of s) = st_threshold s"
  "cu_recovery (custody_of s) = st_recovery_address s"
  "cu_pending (custody_of s) = Some p \<longleftrightarrow> st_pending_recovery s = Some (Decodes p)"
  by (auto simp: custody_of_def split: option.splits stored.splits)

lemma custody_appoint:
  assumes "st_admin s = None" "valid_admins admins t" "set admins \<subseteq> auths" "ra \<noteq> zero_address"
    "st_admin s' = Some admins" "st_threshold s' = Some t" "st_recovery_address s' = Some ra"
    "st_pending_recovery s' = None"
  shows "custody_step d (auths, now) (custody_of s) (custody_of s')"
proof -
  have "custody_of s' = \<lparr>cu_admins = Some admins, cu_threshold = Some t, cu_recovery = Some ra, cu_pending = None\<rparr>"
    using assms by (simp add: custody_of_def)
  then show ?thesis
    using appoint [of "custody_of s" admins t auths ra d now] assms by simp
qed

lemma custody_hand_over:
  assumes "authorised auths (custody_of s) \<or> d \<and> st_admin s \<noteq> None \<and> st_pending_recovery s = None"
    "valid_admins admins t" "st_admin s' = Some admins" "st_threshold s' = Some t"
    "st_recovery_address s' = st_recovery_address s" "st_pending_recovery s' = st_pending_recovery s"
  shows "custody_step d (auths, now) (custody_of s) (custody_of s')"
proof -
  have s': "custody_of s' = (custody_of s)\<lparr>cu_admins := Some admins, cu_threshold := Some t\<rparr>"
    using assms by (simp add: custody_of_def)
  have "st_pending_recovery s = None \<Longrightarrow> cu_pending (custody_of s) = None"
    by (simp add: custody_of_def)
  then show ?thesis
    using assms(1,2) unfolding s' by (auto intro: hand_over delegated_hand_over)
qed

lemma custody_move_recovery:
  assumes "authorised auths (custody_of s)" "ra \<noteq> zero_address" "st_recovery_address s' = Some ra"
    "st_admin s' = st_admin s" "st_threshold s' = st_threshold s" "st_pending_recovery s' = st_pending_recovery s"
  shows "custody_step d (auths, now) (custody_of s) (custody_of s')"
proof -
  have s': "custody_of s' = (custody_of s)\<lparr>cu_recovery := Some ra\<rparr>"
    using assms by (simp add: custody_of_def)
  show ?thesis
    using assms(1,2) unfolding s' by (rule move_recovery)
qed

lemma custody_initiate:
  assumes "st_pending_recovery s = None" "st_recovery_address s = Some (pr_initiated_by p)"
    "pr_initiated_by p \<in> auths" "pr_new_admin p \<noteq> zero_address"
    "now + unat RECOVERY_DELAY_SECONDS = recovery_due p" "st_pending_recovery s' = Some (Decodes p)"
    "st_admin s' = st_admin s" "st_threshold s' = st_threshold s" "st_recovery_address s' = st_recovery_address s"
  shows "custody_step d (auths, now) (custody_of s) (custody_of s')"
proof -
  have s': "custody_of s' = (custody_of s)\<lparr>cu_pending := Some p\<rparr>"
    using assms by (simp add: custody_of_def)
  have "cu_pending (custody_of s) = None"
    using assms(1) by (simp add: custody_of_def)
  then show ?thesis
    using assms(2-5) unfolding s' by (intro initiate) auto
qed

lemma custody_withdraw:
  assumes "st_pending_recovery s = Some (Decodes p)"
    "authorised auths (custody_of s) \<or> pr_initiated_by p \<in> auths \<or> d" "st_pending_recovery s' = None"
    "st_admin s' = st_admin s" "st_threshold s' = st_threshold s" "st_recovery_address s' = st_recovery_address s"
  shows "custody_step d (auths, now) (custody_of s) (custody_of s')"
proof -
  have s': "custody_of s' = (custody_of s)\<lparr>cu_pending := None\<rparr>"
    using assms by (simp add: custody_of_def)
  have "cu_pending (custody_of s) = Some p"
    using assms(1) by simp
  then show ?thesis
    using assms(2) unfolding s' by (auto intro: withdraw delegated_withdraw)
qed

lemma custody_recover:
  assumes "st_pending_recovery s = Some (Decodes p)" "recovery_due p \<le> now" "st_admin s' = Some [pr_new_admin p]"
    "st_threshold s' = Some 1" "st_pending_recovery s' = None" "st_recovery_address s' = st_recovery_address s"
  shows "custody_step d (auths, now) (custody_of s) (custody_of s')"
proof -
  have s': "custody_of s' =
      (custody_of s)\<lparr>cu_admins := Some [pr_new_admin p], cu_threshold := Some 1, cu_pending := None\<rparr>"
    using assms by (simp add: custody_of_def)
  show ?thesis
    using assms(1,2) unfolding s' by (intro recover) auto
qed

end
