(* ===== verification/Governance_System.thy ===== *)
theory Governance_System
  imports Governance_Ops Custody
begin

text \<open>
  The governance contract as a transition system: one label per invocation, with the host it runs
  against. The interfaces of \<open>Contract_Interfaces\<close> are interpreted on it, and the contract's
  properties are stated over its runs from a fresh deployment.
\<close>

section \<open>Invocations\<close>

datatype gov_call =
    GovSupportsInterface u32
  | GovInit address "address list" u32 address
  | GovIsInitialized
  | GovGetAdmin
  | GovGetThreshold
  | GovGetRecoveryAddress
  | GovUpdateRecoveryAddress "address list" address
  | GovUpgrade "address list" bytes32
  | GovInitiateRecovery address
  | GovCancelRecovery "address list"
  | GovExecuteRecovery
  | GovTransferAdmin "address list" "address list" u32
  | GovChangeThreshold "address list" u32
  | GovPause "address list"
  | GovUnpause "address list"
  | GovIsPaused
  | GovMigrate "address list"
  | GovUpdateSystemParam "address list" string int
  | GovGetSystemParam string
  | GovSetFeeConfig "address list" FeeConfig
  | GovGetFeeConfig
  | GovUpsertAnchor "address list" address address
  | GovRemoveAnchor "address list" address
  | GovGetAnchor address

text \<open>The reply of an invocation, encoded as the value the caller receives.\<close>

definition returning :: "('a \<Rightarrow> sc_val) \<Rightarrow> ('s, 'e, 'a) action \<Rightarrow> ('s, 'e, sc_val) action" where
  "returning f m = bind m (\<lambda>a. ret (f a))"

lemma returning_Inr [act_simps]:
  "returning f m s = Inr r \<longleftrightarrow> (\<exists>a s'. m s = Inr (a, s') \<and> r = (f a, s'))"
  by (auto simp: returning_def act_simps)

fun gov_dispatch :: "'h host_scheme \<Rightarrow> gov_call \<Rightarrow> sc_val gov_action" where
  "gov_dispatch env (GovSupportsInterface v) = returning ScBool (gov_supports_interface v)"
| "gov_dispatch env (GovInit d as t ra) = returning (\<lambda>_. ScVoid) (gov_init env d as t ra)"
| "gov_dispatch env GovIsInitialized = returning ScBool gov_is_initialized"
| "gov_dispatch env GovGetAdmin = returning sc_addresses gov_get_admin"
| "gov_dispatch env GovGetThreshold = returning ScU32 gov_get_threshold"
| "gov_dispatch env GovGetRecoveryAddress = returning ScAddress gov_get_recovery_address"
| "gov_dispatch env (GovUpdateRecoveryAddress sg a) =
    returning (\<lambda>_. ScVoid) (gov_update_recovery_address env sg a)"
| "gov_dispatch env (GovUpgrade sg h) = returning (\<lambda>_. ScVoid) (gov_upgrade env sg h)"
| "gov_dispatch env (GovInitiateRecovery a) = returning (\<lambda>_. ScVoid) (gov_initiate_recovery env a)"
| "gov_dispatch env (GovCancelRecovery sg) = returning (\<lambda>_. ScVoid) (gov_cancel_recovery env sg)"
| "gov_dispatch env GovExecuteRecovery = returning (\<lambda>_. ScVoid) (gov_execute_recovery env)"
| "gov_dispatch env (GovTransferAdmin sg as t) = returning (\<lambda>_. ScVoid) (gov_transfer_admin env sg as t)"
| "gov_dispatch env (GovChangeThreshold sg t) = returning (\<lambda>_. ScVoid) (gov_change_threshold env sg t)"
| "gov_dispatch env (GovPause sg) = returning (\<lambda>_. ScVoid) (gov_pause env sg)"
| "gov_dispatch env (GovUnpause sg) = returning (\<lambda>_. ScVoid) (gov_unpause env sg)"
| "gov_dispatch env GovIsPaused = returning ScBool gov_is_paused"
| "gov_dispatch env (GovMigrate sg) = returning (\<lambda>_. ScVoid) (gov_migrate env sg)"
| "gov_dispatch env (GovUpdateSystemParam sg k v) =
    returning (\<lambda>_. ScVoid) (gov_update_system_param env sg k v)"
| "gov_dispatch env (GovGetSystemParam k) = returning (sc_option ScI128) (gov_get_system_param k)"
| "gov_dispatch env (GovSetFeeConfig sg c) = returning (\<lambda>_. ScVoid) (gov_set_fee_config env sg c)"
| "gov_dispatch env GovGetFeeConfig = returning (sc_option sc_fee_config) gov_get_fee_config"
| "gov_dispatch env (GovUpsertAnchor sg a b) = returning (\<lambda>_. ScVoid) (gov_upsert_anchor env sg a b)"
| "gov_dispatch env (GovRemoveAnchor sg a) = returning (\<lambda>_. ScVoid) (gov_remove_anchor env sg a)"
| "gov_dispatch env (GovGetAnchor a) = returning (sc_option ScAddress) (gov_get_anchor a)"

type_synonym gov_label = "host \<times> gov_call"

inductive gov_step :: "gov_label \<Rightarrow> gov_state \<Rightarrow> gov_state \<Rightarrow> bool" where
  gov_invoke: "gov_dispatch env c s = Inr (v, s') \<Longrightarrow> gov_step (env, c) s s'"

inductive_simps gov_step_iff: "gov_step (env, c) s s'"

definition gov_fresh :: "bytes32 \<Rightarrow> gov_state" where
  "gov_fresh wasm =
    \<lparr>st_admin = None, st_threshold = None, st_paused = None, st_recovery_address = None,
     st_pending_recovery = None, st_deployer = None, st_schema_version = None, st_wasm = wasm,
     st_events = [], st_bumps = [], gs_system_param = Map.empty, gs_fee_config = None,
     gs_anchor = Map.empty\<rparr>"

lemma gov_read_steps [act_ok]:
  "gov_supports_interface v s = Inr (v = 1, s)"
  "gov_is_initialized s = Inr (st_admin s \<noteq> None, s)"
  "gov_is_paused s = Inr (paused s, s)"
  "gov_get_fee_config s = Inr (gs_fee_config s, s)"
  by (simp_all add: gov_supports_interface_def GOV_SUPPORTED_INTERFACE_VERSION_def gov_is_initialized_def
      gov_is_paused_def gov_get_fee_config_def act_simps)

lemmas gov_getter_defs = gov_get_admin_def gov_get_threshold_def gov_get_recovery_address_def

section \<open>The invariant\<close>

definition params_wf :: "(string \<rightharpoonup> int) \<Rightarrow> bool" where
  "params_wf m \<longleftrightarrow>
    (\<forall>key val. m key = Some val \<longrightarrow> 0 \<le> val \<and> (key = BYPASS_GOV_FEES_PARAM \<longrightarrow> val \<le> 1))"

definition anchors_wf :: "(address \<rightharpoonup> address) \<Rightarrow> bool" where
  "anchors_wf m \<longleftrightarrow>
    (\<forall>asset anchor. m asset = Some anchor \<longrightarrow>
       asset \<noteq> zero_address \<and> anchor \<noteq> zero_address \<and> anchor \<noteq> asset)"

definition gov_wf :: "gov_state \<Rightarrow> bool" where
  "gov_wf s \<longleftrightarrow> shared_wf s \<and> params_wf (gs_system_param s) \<and>
    pred_option valid_fee_config (gs_fee_config s) \<and> anchors_wf (gs_anchor s)"

lemma params_wf_upd:
  "params_wf m \<Longrightarrow> 0 \<le> val \<Longrightarrow> (key = BYPASS_GOV_FEES_PARAM \<Longrightarrow> val \<le> 1) \<Longrightarrow> params_wf (m(key \<mapsto> val))"
  by (auto simp: params_wf_def)

lemma anchors_wf_upd:
  "anchors_wf m \<Longrightarrow> asset \<noteq> zero_address \<Longrightarrow> anchor \<noteq> zero_address \<Longrightarrow> asset \<noteq> anchor \<Longrightarrow>
    anchors_wf (m(asset \<mapsto> anchor))"
  "anchors_wf m \<Longrightarrow> anchors_wf (m(asset := None))"
  by (auto simp: anchors_wf_def)

lemma valid_admins_wf:
  "valid_admins admins t \<Longrightarrow> distinct admins \<and> zero_address \<notin> set admins \<and> t \<noteq> 0 \<and> unat t \<le> length admins"
  by (simp add: valid_admins_def)

lemma gov_step_shared_wf:
  assumes "gov_step (env, c) s s'" "shared_wf s"
  shows "shared_wf s'"
  using assms
  by (cases c)
    (auto simp: gov_step_iff act_simps act_ok gov_getter_defs shared_wf_def gov_quorum_def
      admin_quorum_def dest: valid_admins_wf split: option.splits if_splits)

lemma gov_step_wf:
  assumes "gov_wf s" "gov_step l s s'"
  shows "gov_wf s'"
proof -
  obtain env c where l: "l = (env, c)"
    by (cases l)
  have "shared_wf s'"
    using assms by (auto simp: l gov_wf_def intro: gov_step_shared_wf)
  moreover have "params_wf (gs_system_param s')"
    using assms by (cases c)
      (auto simp: l gov_wf_def gov_step_iff act_simps act_ok gov_getter_defs
        intro: params_wf_upd anchors_wf_upd split: if_splits)
  moreover have "pred_option valid_fee_config (gs_fee_config s')"
    using assms by (cases c)
      (auto simp: l gov_wf_def gov_step_iff act_simps act_ok gov_getter_defs
        intro: params_wf_upd anchors_wf_upd split: if_splits)
  moreover have "anchors_wf (gs_anchor s')"
    using assms by (cases c)
      (auto simp: l gov_wf_def gov_step_iff act_simps act_ok gov_getter_defs
        intro: params_wf_upd anchors_wf_upd split: if_splits)
  ultimately show ?thesis
    by (simp add: gov_wf_def)
qed

lemma gov_fresh_wf: "gov_wf (gov_fresh wasm)"
  by (simp add: gov_wf_def gov_fresh_def shared_wf_def params_wf_def anchors_wf_def)

interpretation gov_inv: step_invariant gov_step "\<lambda>s. \<exists>wasm. s = gov_fresh wasm" gov_wf
  by unfold_locales (auto intro: gov_fresh_wf gov_step_wf)

section \<open>Recovery\<close>

definition gov_ready :: "unit \<Rightarrow> gov_state \<Rightarrow> PendingRecovery option" where
  "gov_ready k s =
    (case st_pending_recovery s of
       Some (Decodes p) \<Rightarrow> Some p
     | _ \<Rightarrow> None)"

text \<open>The recovery address of the state authorised the initiation for the record's target.\<close>

definition gov_opens :: "unit \<Rightarrow> PendingRecovery \<Rightarrow> gov_state \<Rightarrow> gov_label \<Rightarrow> bool" where
  "gov_opens k p s l \<longleftrightarrow> snd l = GovInitiateRecovery (pr_new_admin p) \<and>
    st_recovery_address s = Some (pr_initiated_by p) \<and> pr_initiated_by p \<in> h_auths (fst l)"

definition gov_fires :: "unit \<Rightarrow> gov_label \<Rightarrow> bool" where
  "gov_fires k l = (snd l = GovExecuteRecovery)"

lemma gov_ready_Some: "gov_ready k s = Some p \<longleftrightarrow> st_pending_recovery s = Some (Decodes p)"
  by (auto simp: gov_ready_def split: option.splits stored.splits)

lemma gov_ready_cong: "st_pending_recovery s' = st_pending_recovery s \<Longrightarrow> gov_ready k s' = gov_ready k s"
  by (simp add: gov_ready_def)

text \<open>Only the three recovery invocations change the pending record.\<close>

lemma gov_step_pending:
  assumes "gov_step (env, c) s s'"
  shows "st_pending_recovery s' = st_pending_recovery s \<or>
    (\<exists>a. c = GovInitiateRecovery a) \<or> (\<exists>sg. c = GovCancelRecovery sg) \<or> c = GovExecuteRecovery"
  using assms by (cases c) (auto simp: gov_step_iff act_simps act_ok gov_getter_defs split: if_splits)

lemma gov_opened:
  assumes "gov_step l s s'" "gov_ready k s' = Some p" "gov_ready k s \<noteq> Some p"
  shows "gov_opens k p s l \<and> label_time l + unat RECOVERY_DELAY_SECONDS \<le> recovery_due p"
proof -
  obtain env c where l: "l = (env, c)"
    by (cases l)
  have "st_pending_recovery s' \<noteq> st_pending_recovery s"
    using assms(2,3) gov_ready_cong by metis
  then consider a where "c = GovInitiateRecovery a" | sg where "c = GovCancelRecovery sg"
    | "c = GovExecuteRecovery"
    using gov_step_pending assms(1) l by blast
  then show ?thesis
    using assms(1,2)
    by cases (auto simp: l gov_step_iff gov_ready_Some gov_opens_def recovery_due_def label_time_def
        unat_add_u64 act_simps act_ok split: if_splits)
qed

lemma gov_fired:
  assumes "gov_step l s s'" "gov_fires k l"
  shows "(\<exists>p. gov_ready k s = Some p \<and> recovery_due p \<le> label_time l) \<and> gov_ready k s' = None"
  using assms
  by (cases l) (auto simp: gov_fires_def gov_step_iff gov_ready_def recovery_due_def label_time_def
      word_le_nat_alt act_simps act_ok)

interpretation gov_recovery: timelock gov_step label_time gov_ready recovery_due gov_opens gov_fires
    "unat RECOVERY_DELAY_SECONDS"
  by unfold_locales (rule gov_opened, assumption+, rule gov_fired, assumption+)

section \<open>Pausing\<close>

definition gov_lifts :: "gov_label \<Rightarrow> bool" where
  "gov_lifts l = (case snd l of GovUnpause _ \<Rightarrow> True | _ \<Rightarrow> False)"

definition gov_config :: "gov_state \<Rightarrow> (string \<rightharpoonup> int) \<times> FeeConfig option \<times> (address \<rightharpoonup> address)" where
  "gov_config s = (gs_system_param s, gs_fee_config s, gs_anchor s)"

lemma gov_stays_paused:
  assumes "gov_step l s s'" "paused s" "\<not> gov_lifts l"
  shows "paused s'"
proof -
  obtain env c where l: "l = (env, c)"
    by (cases l)
  show ?thesis
    using assms by (cases c)
      (auto simp: l gov_lifts_def gov_step_iff act_simps act_ok gov_getter_defs split: if_splits)
qed

lemma gov_paused_config:
  assumes "gov_step l s s'" "paused s"
  shows "gov_config s' = gov_config s"
proof -
  obtain env c where l: "l = (env, c)"
    by (cases l)
  show ?thesis
    using assms by (cases c)
      (auto simp: l gov_config_def gov_step_iff act_simps act_ok gov_getter_defs split: if_splits)
qed

interpretation gov_pausing: pausable gov_step paused gov_lifts gov_config
  by unfold_locales (blast intro: gov_stays_paused, rule gov_paused_config)

section \<open>Availability\<close>

text \<open>In a well-formed initialised state the whole admin list, when it authorises, meets the threshold.\<close>

lemma gov_all_admins_quorum:
  assumes "gov_wf s" "st_admin s = Some admins" "set admins \<subseteq> h_auths env"
  shows "gov_quorum env s admins" "admins \<noteq> []"
  using assms
  by (auto simp: gov_wf_def shared_wf_def gov_quorum_def admin_quorum_def unat_eq_zero)

lemma gov_quorum_touch [simp]: "gov_quorum env (gov_touch s) signers = gov_quorum env s signers"
  by (simp add: gov_quorum_def admin_quorum_def)

section \<open>Records of an older layout\<close>

text \<open>
  Every invocation keeps a pending-recovery entry that does not decode: initiation sees that an
  entry exists, cancellation and execution see none.
\<close>

lemma gov_step_undecodable:
  assumes "gov_step l s s'" "st_pending_recovery s = Some Undecodable"
  shows "st_pending_recovery s' = Some Undecodable"
proof -
  obtain env c where l: "l = (env, c)"
    by (cases l)
  show ?thesis
    using assms gov_step_pending [of env c s s']
    by (auto simp: l gov_step_iff act_simps act_ok)
qed

interpretation gov_legacy: step_invariant gov_step
    "\<lambda>s. st_pending_recovery s = Some Undecodable" "\<lambda>s. st_pending_recovery s = Some Undecodable"
  by unfold_locales (auto intro: gov_step_undecodable)

section \<open>Custody\<close>

lemma gov_quorum_authorised: "gov_quorum env s signers \<Longrightarrow> authorised (h_auths env) (custody_of s)"
  by (auto simp: gov_quorum_def intro: quorum_authorised)

lemma gov_custody_calls:
  assumes "gov_dispatch env c s = Inr (v, s')" "custody_of s' \<noteq> custody_of s"
  shows "(\<exists>d as t ra. c = GovInit d as t ra) \<or> (\<exists>sg a. c = GovUpdateRecoveryAddress sg a) \<or>
    (\<exists>a. c = GovInitiateRecovery a) \<or> (\<exists>sg. c = GovCancelRecovery sg) \<or> c = GovExecuteRecovery \<or>
    (\<exists>sg as t. c = GovTransferAdmin sg as t) \<or> (\<exists>sg t. c = GovChangeThreshold sg t)"
proof -
  have "\<not> (st_admin s' = st_admin s \<and> st_threshold s' = st_threshold s \<and>
      st_recovery_address s' = st_recovery_address s \<and> st_pending_recovery s' = st_pending_recovery s)"
    using assms(2) custody_of_cong [of s' s] by blast
  then show ?thesis
    using assms(1) by (cases c) (auto simp: act_simps act_ok gov_getter_defs split: if_splits)
qed

lemma gov_initiate_custody:
  assumes "gov_initiate_recovery env a s = Inr ((), s')"
  shows "custody_step False (h_auths env, unat (h_timestamp env)) (custody_of s) (custody_of s')"
proof -
  from assms obtain ra where "st_recovery_address s = Some ra" "ra \<in> h_auths env" "a \<noteq> zero_address"
    "st_pending_recovery s = None" "unat (h_timestamp env) + unat RECOVERY_DELAY_SECONDS < 2 ^ 64"
    by (auto simp: act_ok)
  then show ?thesis
    using assms
    by (intro custody_initiate [of s "\<lparr>pr_new_admin = a,
          pr_execute_after = h_timestamp env + RECOVERY_DELAY_SECONDS, pr_initiated_by = ra\<rparr>"])
      (auto simp: act_ok recovery_due_def unat_add_u64)
qed

lemma gov_threshold_custody:
  assumes "gov_change_threshold env sg t s = Inr ((), s')" "shared_wf s"
  shows "custody_step False (h_auths env, unat (h_timestamp env)) (custody_of s) (custody_of s')"
proof -
  from assms obtain as where "st_admin s = Some as" "gov_quorum env s sg" "valid_admins as t"
    by (auto simp: act_ok gov_quorum_def admin_quorum_def shared_wf_def valid_admins_def split: option.splits)
  then show ?thesis
    using assms(1) by (intro custody_hand_over [of _ s _ as t]) (auto simp: act_ok gov_quorum_authorised)
qed

lemma gov_call_custody:
  assumes "gov_dispatch env c s = Inr (v, s')" "custody_of s' \<noteq> custody_of s" "shared_wf s"
  shows "custody_step False (h_auths env, unat (h_timestamp env)) (custody_of s) (custody_of s')"
proof -
  from gov_custody_calls [OF assms(1,2)] consider d as t ra where "c = GovInit d as t ra"
    | sg a where "c = GovUpdateRecoveryAddress sg a" | a where "c = GovInitiateRecovery a"
    | sg where "c = GovCancelRecovery sg" | "c = GovExecuteRecovery"
    | sg as t where "c = GovTransferAdmin sg as t" | sg t where "c = GovChangeThreshold sg t"
    by blast
  then show ?thesis
  proof cases
    case (1 d as t ra)
    then show ?thesis
      using assms(1,3) by (intro custody_appoint [of s as t _ ra]) (auto simp: act_simps act_ok shared_wf_def)
  next
    case (2 sg a)
    then show ?thesis
      using assms(1) by (intro custody_move_recovery [of _ s a])
        (auto simp: act_simps act_ok gov_quorum_authorised)
  next
    case (3 a)
    then show ?thesis
      using assms(1) by (auto simp: act_simps intro: gov_initiate_custody)
  next
    case (4 sg)
    then show ?thesis
      using assms(1) by (auto simp: act_simps act_ok gov_quorum_authorised intro: custody_withdraw)
  next
    case 5
    then show ?thesis
      using assms(1) by (auto simp: act_simps act_ok recovery_due_def word_le_nat_alt intro: custody_recover)
  next
    case (6 sg as t)
    then show ?thesis
      using assms(1) by (intro custody_hand_over [of _ s _ as t]) (auto simp: act_simps act_ok gov_quorum_authorised)
  next
    case (7 sg t)
    then show ?thesis
      using assms(1,3) by (auto simp: act_simps intro: gov_threshold_custody)
  qed
qed

interpretation gov_custody: simulation gov_step "custody_step False" custody_of custody_label gov_wf
proof unfold_locales
  fix s l s'
  assume s: "gov_wf s" "gov_step l s s'"
  then obtain env c v where l: "l = (env, c)" "gov_dispatch env c s = Inr (v, s')"
    by (cases l) (auto simp: gov_step_iff)
  have "custody_of s' = custody_of s \<or> custody_step False (custody_label l) (custody_of s) (custody_of s')"
    using gov_call_custody [OF l(2)] s(1) by (auto simp: l(1) gov_wf_def custody_label_def label_time_def)
  then show "gov_wf s' \<and> (custody_of s' = custody_of s \<or>
      custody_step False (custody_label l) (custody_of s) (custody_of s'))"
    using gov_step_wf [OF s] by blast
qed

end
