(* ===== verification/Governance_Properties.thy ===== *)
theory Governance_Properties
  imports Governance_System Sample_Parties
begin

text \<open>
  The governance contract: what holds in every reachable state, its recovery delay, what a pause freezes, when an
  admin check passes, how parameters, fee configuration and anchors are read back, and a recovery record of an
  older layout.
\<close>

section \<open>Sample history\<close>

definition gov_host :: "u64 \<Rightarrow> host" where
  "gov_host now = \<lparr>h_auths = {alice, bob, rescue}, h_timestamp = now, h_sequence = 7,
    h_probe_deploys = \<lambda>_. True, h_probe_reply = \<lambda>_ v. Replied (v = 1)\<rparr>"

definition gov_do_init :: gov_label where
  "gov_do_init = (gov_host 0, GovInit alice [alice, bob] 2 rescue)"

definition gov_do_initiate :: gov_label where
  "gov_do_initiate = (gov_host 20, GovInitiateRecovery carol)"

definition gov_do_recover :: gov_label where
  "gov_do_recover = (gov_host 10000000, GovExecuteRecovery)"

definition gov_do_pause :: gov_label where
  "gov_do_pause = (gov_host 5, GovPause [alice, bob])"

lemmas gov_sample_eval = run_cons_iff gov_step_iff sample_addresses gov_do_init_def gov_do_initiate_def
  gov_do_recover_def gov_do_pause_def gov_host_def gov_fresh_def valid_admins_def paused_def gov_quorum_def
  admin_quorum_def returning_Inr RECOVERY_DELAY_SECONDS_def act_ok

text \<open>The initialised sample state.\<close>

definition is_gov_state :: "gov_state \<Rightarrow> bool" where
  "is_gov_state s \<longleftrightarrow> st_admin s = Some [alice, bob] \<and> st_threshold s = Some 2 \<and> \<not> paused s \<and>
    st_recovery_address s = Some rescue \<and> st_pending_recovery s = None \<and> gs_system_param s = Map.empty \<and>
    gs_fee_config s = None \<and> gs_anchor s = Map.empty"

lemma gov_sample:
  obtains s where "run gov_step (gov_fresh 0) [gov_do_init] s" "is_gov_state s"
proof -
  have "\<exists>s. run gov_step (gov_fresh 0) [gov_do_init] s \<and> is_gov_state s"
    by (simp add: gov_sample_eval is_gov_state_def)
  then show thesis
    using that by blast
qed

lemma gov_sample_quorum: "is_gov_state s \<Longrightarrow> gov_quorum (gov_host now) s [alice, bob]"
  by (simp add: is_gov_state_def gov_quorum_def admin_quorum_def gov_host_def sample_addresses)

section \<open>Reachable states\<close>

lemma reachable_gov_wf:
  assumes "run gov_step (gov_fresh wasm) ls s"
  shows "gov_wf s"
  using gov_inv.reachable_inv assms by blast

text \<open>
  C12. In every reachable state of the governance contract: once initialised the admins are distinct and none is the
  zero address, the threshold is between 1 and their number and a recovery address is set; a stored system
  parameter is not negative, and the bypass parameter is 0 or 1; a stored fee configuration is within the fee
  bounds; an anchor and its asset are different and neither is the zero address.
\<close>

theorem governance_reachable_consistent:
  assumes "run gov_step (gov_fresh wasm) ls s"
  shows "(\<forall>admins. st_admin s = Some admins \<longrightarrow> distinct admins \<and> zero_address \<notin> set admins \<and>
      (\<exists>t. st_threshold s = Some t \<and> 0 < unat t \<and> unat t \<le> length admins) \<and>
      (\<exists>a. st_recovery_address s = Some a \<and> a \<noteq> zero_address)) \<and>
    (\<forall>k v. gs_system_param s k = Some v \<longrightarrow> 0 \<le> v \<and> (k = BYPASS_GOV_FEES_PARAM \<longrightarrow> v \<le> 1)) \<and>
    (\<forall>c. gs_fee_config s = Some c \<longrightarrow>
      5 \<le> unat (fc_platform_fee_bps c) \<and> unat (fc_platform_fee_bps c) \<le> 5000 \<and>
      5 \<le> unat (fc_network_fee_bps c) \<and> unat (fc_network_fee_bps c) \<le> 5000) \<and>
    (\<forall>asset anchor. gs_anchor s asset = Some anchor \<longrightarrow>
      asset \<noteq> zero_address \<and> anchor \<noteq> zero_address \<and> anchor \<noteq> asset)"
proof -
  have "gov_wf s"
    by (rule reachable_gov_wf [OF assms])
  then show ?thesis
    by (auto simp: gov_wf_def shared_wf_def params_wf_def anchors_wf_def valid_fee_config_def unat_gt_0)
qed

theorem governance_reachable_consistent_witness:
  "\<exists>s. run gov_step (gov_fresh 0) [gov_do_init] s \<and> st_admin s = Some [alice, bob] \<and> distinct [alice, bob]"
proof -
  obtain s where s: "run gov_step (gov_fresh 0) [gov_do_init] s" "is_gov_state s"
    by (rule gov_sample)
  then have "st_admin s = Some [alice, bob]"
    by (simp add: is_gov_state_def)
  then show ?thesis
    using governance_reachable_consistent [OF s(1)] s(1) by blast
qed

section \<open>Recovery\<close>

text \<open>
  C13. Recovery delay of the governance contract over every history: when a recovery replaces the admin set by one
  address, the recovery address of that time asked for exactly this address, in an invocation it authorised, at
  least the full recovery delay before; and no recovery was executed in between.
\<close>

theorem gov_recovery_after_delay:
  assumes "run gov_step (gov_fresh wasm) ls s" "gov_step (env, GovExecuteRecovery) s s'"
  shows "\<exists>new_admin ls1 env1 ls2 s1 ra. ls = ls1 @ (env1, GovInitiateRecovery new_admin) # ls2 \<and>
    run gov_step (gov_fresh wasm) ls1 s1 \<and> st_recovery_address s1 = Some ra \<and> ra \<in> h_auths env1 \<and>
    unat (h_timestamp env1) + unat RECOVERY_DELAY_SECONDS \<le> unat (h_timestamp env) \<and>
    (\<forall>l \<in> set ls2. snd l \<noteq> GovExecuteRecovery) \<and>
    st_admin s' = Some [new_admin] \<and> st_threshold s' = Some 1"
proof -
  have "gov_ready () (gov_fresh wasm) = None" "gov_fires () (env, GovExecuteRecovery)"
    by (simp_all add: gov_ready_def gov_fresh_def gov_fires_def)
  then obtain p ls1 m ls2 s1 where h: "gov_ready () s = Some p" "ls = ls1 @ m # ls2"
    "run gov_step (gov_fresh wasm) ls1 s1" "gov_opens () p s1 m"
    "label_time m + unat RECOVERY_DELAY_SECONDS \<le> label_time (env, GovExecuteRecovery)"
    "\<forall>l \<in> set ls2. \<not> gov_fires () l"
    using gov_recovery.fire_after_delay [OF assms(1) _ assms(2), of "()"] by blast
  have "m = (fst m, GovInitiateRecovery (pr_new_admin p))"
    using h(4) by (simp add: gov_opens_def prod_eq_iff)
  moreover have "st_admin s' = Some [pr_new_admin p]" "st_threshold s' = Some 1"
    using assms(2) h(1) by (auto simp: gov_step_iff returning_Inr gov_execute_recovery_Inr gov_ready_Some)
  ultimately show ?thesis
    using h by (intro exI [of _ "pr_new_admin p"] exI [of _ ls1] exI [of _ "fst m"] exI [of _ ls2]
        exI [of _ s1] exI [of _ "pr_initiated_by p"])
      (auto simp: gov_opens_def gov_fires_def label_time_def)
qed

theorem gov_recovery_after_delay_witness:
  "\<exists>new_admin ls1 env1 ls2. [gov_do_init, gov_do_initiate] = ls1 @ (env1, GovInitiateRecovery new_admin) # ls2 \<and>
    unat (h_timestamp env1) + unat RECOVERY_DELAY_SECONDS \<le> 10000000"
proof -
  have "\<exists>s. run gov_step (gov_fresh 0) [gov_do_init, gov_do_initiate] s \<and> (\<exists>s'. gov_step gov_do_recover s s')"
    by (simp add: gov_sample_eval)
  then obtain s s' where s: "run gov_step (gov_fresh 0) [gov_do_init, gov_do_initiate] s"
    "gov_step (gov_host 10000000, GovExecuteRecovery) s s'"
    by (auto simp: gov_do_recover_def)
  show ?thesis
    using gov_recovery_after_delay [OF s] by (fastforce simp: gov_host_def)
qed

text \<open>
  C39. A pending recovery record of an older layout stays for ever: no history of invocations removes it, and in
  every state reached from it initiating, cancelling and executing a recovery fail, so the recovery path of this
  contract is unavailable.
\<close>

theorem legacy_recovery_is_stuck:
  assumes "run gov_step s ls s'" "st_pending_recovery s = Some Undecodable"
  shows "st_pending_recovery s' = Some Undecodable \<and> gov_initiate_recovery env a s' \<noteq> Inr r \<and>
    gov_cancel_recovery env signers s' \<noteq> Inr r \<and> gov_execute_recovery env s' \<noteq> Inr r"
proof -
  have "st_pending_recovery s' = Some Undecodable"
    using gov_legacy.run_inv [OF assms] .
  then show ?thesis
    by (simp add: gov_initiate_recovery_Inr gov_cancel_recovery_Inr gov_execute_recovery_Inr)
qed

theorem legacy_recovery_is_stuck_witness:
  "\<exists>s s'. run gov_step (s\<lparr>st_pending_recovery := Some Undecodable\<rparr>) [gov_do_pause] s' \<and>
    st_pending_recovery s' = Some Undecodable \<and> gov_cancel_recovery (gov_host 9) [alice, bob] s' \<noteq> Inr ((), s')"
proof -
  obtain s where s: "is_gov_state s"
    using gov_sample by blast
  let ?s = "s\<lparr>st_pending_recovery := Some Undecodable\<rparr>"
  obtain s' where run: "run gov_step ?s [gov_do_pause] s'"
    using s by (simp add: is_gov_state_def gov_sample_eval)
  then show ?thesis
    using legacy_recovery_is_stuck [OF run, of "gov_host 9" carol "((), s')" "[alice, bob]"] by auto
qed

section \<open>Admin checks, pausing and control\<close>

text \<open>
  The admin check counts people: some list of signers passes \<open>verify_admin_auth\<close> for a required count exactly
  when at least that many different admins authorised the invocation; listing a signer twice or somebody who is
  not an admin never helps.
\<close>

lemma admin_check_counts_admins:
  assumes "st_admin s = Some admins"
  shows "(\<exists>signers r. gov_verify_admin_auth env signers n s = Inr r) \<longleftrightarrow>
    unat n \<le> card (set admins \<inter> h_auths env)"
  by (rule gov_auth.verify_iff_enough [OF assms])

text \<open>
  C27. A pause freezes fees and anchors: along every history of the governance contract without an \<open>unpause\<close> it
  stays paused, and the fee configuration and the anchor registry stay exactly as they were, whatever the admins and
  the recovery address call.
\<close>

theorem pause_freezes_governance:
  assumes "run gov_step s ls s'" "paused s" "\<forall>l \<in> set ls. \<forall>sg. snd l \<noteq> GovUnpause sg"
  shows "paused s' \<and> gs_fee_config s' = gs_fee_config s \<and> gs_anchor s' = gs_anchor s"
  using gov_pausing.pause_freezes [OF assms(1,2)] assms(3)
  by (auto simp: gov_lifts_def gov_config_def split: gov_call.splits)

theorem pause_freezes_governance_witness:
  "\<exists>s s1 s2. is_gov_state s \<and> run gov_step s [gov_do_pause] s1 \<and> run gov_step s1 [gov_do_initiate] s2 \<and>
    paused s2 \<and> gs_fee_config s2 = gs_fee_config s1"
proof -
  obtain s where s: "is_gov_state s"
    using gov_sample by blast
  then have "\<exists>s1. run gov_step s [gov_do_pause] s1 \<and> paused s1 \<and> (\<exists>s2. run gov_step s1 [gov_do_initiate] s2)"
    by (simp add: is_gov_state_def gov_sample_eval)
  then obtain s1 s2 where s12: "run gov_step s [gov_do_pause] s1" "paused s1" "run gov_step s1 [gov_do_initiate] s2"
    by blast
  moreover have "\<forall>l \<in> set [gov_do_initiate]. \<forall>sg. snd l \<noteq> GovUnpause sg"
    by (simp add: gov_do_initiate_def)
  ultimately show ?thesis
    using pause_freezes_governance [OF s12(3,2)] s by blast
qed

text \<open>
  What governance stores is what it serves: after a parameter, a fee configuration or an anchor is written, the
  getters return it, every other parameter and anchor is untouched, and a removed anchor is gone.
\<close>

lemma governance_write_then_read:
  "(gov_update_system_param env sg key val s = Inr ((), s1) \<longrightarrow>
      (\<exists>s2. gov_get_system_param key s1 = Inr (Some val, s2)) \<and>
      (\<forall>key'. key' \<noteq> key \<longrightarrow> gs_system_param s1 key' = gs_system_param s key')) \<and>
   (gov_set_fee_config env sg config s = Inr ((), s1) \<longrightarrow>
      gov_get_fee_config s1 = Inr (Some config, s1)) \<and>
   (gov_upsert_anchor env sg asset anchor s = Inr ((), s1) \<longrightarrow>
      (\<exists>s2. gov_get_anchor asset s1 = Inr (Some anchor, s2)) \<and>
      (\<forall>asset'. asset' \<noteq> asset \<longrightarrow> gs_anchor s1 asset' = gs_anchor s asset')) \<and>
   (gov_remove_anchor env sg asset s = Inr ((), s1) \<longrightarrow> gov_get_anchor asset s1 = Inr (None, s1))"
  by (auto simp: gov_update_system_param_Inr gov_get_system_param_run gov_set_fee_config_Inr gov_read_steps
      gov_upsert_anchor_Inr gov_get_anchor_run gov_remove_anchor_Inr)

text \<open>
  The admins of the governance contract keep control: in every reachable initialised state the admins together
  can lift a pause, set any threshold between 1 and their number, also when the current threshold is their
  number, and hand over to any other valid admin set.
\<close>

lemma gov_admins_keep_control:
  assumes "run gov_step (gov_fresh wasm) ls s" "st_admin s = Some admins" "set admins \<subseteq> h_auths env"
  shows "(paused s \<longrightarrow> (\<exists>s'. gov_unpause env admins s = Inr ((), s') \<and> \<not> paused s')) \<and>
    (\<forall>t. 0 < unat t \<and> unat t \<le> length admins \<longrightarrow>
      (\<exists>s'. gov_change_threshold env admins t s = Inr ((), s') \<and> st_threshold s' = Some t)) \<and>
    (\<forall>as t. valid_admins as t \<and> as \<noteq> admins \<longrightarrow>
      (\<exists>s'. gov_transfer_admin env admins as t s = Inr ((), s') \<and> st_admin s' = Some as))"
  using gov_all_admins_quorum [OF reachable_gov_wf [OF assms(1)] assms(2,3)] assms(2)
  by (auto simp: gov_unpause_Inr gov_change_threshold_Inr gov_transfer_admin_Inr paused_def unat_gt_0)

section \<open>Events\<close>

text \<open>The topics of the registry that the governance contract publishes: the shared ones and its own.\<close>

definition gov_event :: "event \<Rightarrow> bool" where
  "gov_event e = (case e of (ScSymbol t # _, _) \<Rightarrow> t \<in> set (take 15 ALL_EVENT_TOPICS) | _ \<Rightarrow> False)"

lemma gov_event_topics [simp]:
  "gov_event (ScSymbol ADMIN_TRANSFERRED_EVENT # ts, d)" "gov_event (ScSymbol PAUSED_EVENT # ts, d)"
  "gov_event (ScSymbol UNPAUSED_EVENT # ts, d)" "gov_event (ScSymbol RECOVERY_INITIATED_EVENT # ts, d)"
  "gov_event (ScSymbol RECOVERY_CANCELLED_EVENT # ts, d)" "gov_event (ScSymbol RECOVERY_EXECUTED_EVENT # ts, d)"
  "gov_event (ScSymbol CONTRACT_UPGRADED_EVENT # ts, d)" "gov_event (ScSymbol THRESHOLD_CHANGED_EVENT # ts, d)"
  "gov_event (ScSymbol RECOVERY_ADDRESS_UPDATED_EVENT # ts, d)" "gov_event (ScSymbol INITIALIZED_EVENT # ts, d)"
  "gov_event (ScSymbol MIGRATED_EVENT # ts, d)" "gov_event (ScSymbol SYS_PARAM_UPDATED_EVENT # ts, d)"
  "gov_event (ScSymbol FEE_CONFIG_UPDATED_EVENT # ts, d)" "gov_event (ScSymbol ANCHOR_UPSERTED_EVENT # ts, d)"
  "gov_event (ScSymbol ANCHOR_REMOVED_EVENT # ts, d)"
  by (simp_all add: gov_event_def ALL_EVENT_TOPICS_def)

definition gov_log_ok :: "gov_state \<Rightarrow> bool" where
  "gov_log_ok s \<longleftrightarrow> list_all gov_event (st_events s)"

lemma gov_step_log:
  assumes "gov_log_ok s" "gov_step l s s'"
  shows "gov_log_ok s'"
proof -
  obtain env c where l: "l = (env, c)"
    by (cases l)
  then show ?thesis
    using assms by (cases c) (auto simp: gov_step_iff returning_Inr gov_log_ok_def gov_getter_defs gov_read_steps act_simps act_ok
        split: option.splits)
qed

interpretation gov_log: step_invariant gov_step "\<lambda>s. \<exists>wasm. s = gov_fresh wasm" gov_log_ok
proof unfold_locales
  show "gov_log_ok s" if "\<exists>wasm. s = gov_fresh wasm" for s
    using that by (auto simp: gov_log_ok_def gov_fresh_def)
  show "gov_log_ok s'" if "gov_log_ok s" "gov_step l s s'" for s l s'
    using that by (rule gov_step_log)
qed

end
