(* ===== verification/Settlement_Refinement.thy ===== *)
theory Settlement_Refinement
  imports Settlement_Promises Custody
begin

text \<open>
  The settlement contract as a refinement. Its abstract machine is a book: the custody of \<open>Custody\<close>, with the
  steps a queue may take, and the entries, which a merchant adds under a free reference and the admins erase.
  \<open>settlement_book\<close> is the interpretation of \<open>simulation\<close> on it.
\<close>

section \<open>The abstract machine\<close>

record book =
  bk_custody :: custody
  bk_entries :: "address \<times> bytes32 \<rightharpoonup> PaymentRecord"

text \<open>
  A label holds the authorisations, the time and whether the invocation executes a queued operation: only then may a
  custody step go without authorisation.
\<close>

inductive book_step :: "address set \<times> nat \<times> bool \<Rightarrow> book \<Rightarrow> book \<Rightarrow> bool" where
  custody: "custody_step by_queue (auths, now) c c' \<Longrightarrow>
    book_step (auths, now, by_queue) \<lparr>bk_custody = c, bk_entries = e\<rparr> \<lparr>bk_custody = c', bk_entries = e\<rparr>"
| enter: "e (m, ref) = None \<Longrightarrow> ref \<noteq> 0 \<Longrightarrow> m \<in> auths \<Longrightarrow> record_wf m p \<Longrightarrow>
    book_step (auths, now, by_queue) \<lparr>bk_custody = c, bk_entries = e\<rparr> \<lparr>bk_custody = c, bk_entries = e((m, ref) \<mapsto> p)\<rparr>"
| erase: "authorised auths c \<Longrightarrow>
    book_step (auths, now, by_queue) \<lparr>bk_custody = c, bk_entries = e\<rparr>
      \<lparr>bk_custody = c, bk_entries = e |` (- ({m} \<times> refs))\<rparr>"

definition book_of :: "settlement_state \<Rightarrow> book" where
  "book_of s = \<lparr>bk_custody = custody_of s, bk_entries = ss_payment s\<rparr>"

definition executes_queued :: "settlement_call \<Rightarrow> bool" where
  "executes_queued c \<longleftrightarrow> (\<exists>ex op. c = QueueCall (CallExecute ex op))"

definition book_label :: "settlement_label \<Rightarrow> address set \<times> nat \<times> bool" where
  "book_label l = (h_auths (fst l), label_time l, executes_queued (snd l))"

section \<open>Custody\<close>

lemma quorum_authorises: "quorum env s signers \<Longrightarrow> authorised (h_auths env) (custody_of s)"
  by (auto simp: quorum_def intro: quorum_authorised)

lemma custody_of_view: "admin_view s' = admin_view s \<Longrightarrow> custody_of s' = custody_of s"
  by (rule custody_of_cong) (simp_all add: admin_view_def)

lemma larger_quorum_authorises:
  assumes "admin_quorum env s signers (t + 1)" "st_threshold s = Some t" "unat t + 1 < 2 ^ 32"
  shows "authorised (h_auths env) (custody_of s)"
proof -
  have "unat t \<le> unat (t + 1)"
    using assms(3) by (simp add: unat_add_u32)
  then show ?thesis
    using quorum_authorised assms(1,2) by blast
qed

lemma admin_call_custody:
  assumes "admin_dispatch env a s = Inr ((), s')" "shared_wf s"
  shows "custody_of s' = custody_of s \<or>
    custody_step False (h_auths env, unat (h_timestamp env)) (custody_of s) (custody_of s')"
proof (cases a)
  case (CallInit d as t g ra)
  then show ?thesis
    using assms by - (rule disjI2, intro custody_appoint [of s as t _ ra], auto simp: act_ok shared_wf_def)
next
  case (CallInitiateRecovery x)
  then obtain ra where "st_recovery_address s = Some ra" "ra \<in> h_auths env" "x \<noteq> zero_address"
    "st_pending_recovery s = None" "unat (h_timestamp env) + unat RECOVERY_DELAY_SECONDS < 2 ^ 64"
    using assms(1) by (auto simp: act_ok)
  then show ?thesis
    using assms(1) CallInitiateRecovery
    by - (rule disjI2, intro custody_initiate [of s "\<lparr>pr_new_admin = x,
          pr_execute_after = h_timestamp env + RECOVERY_DELAY_SECONDS, pr_initiated_by = ra\<rparr>"],
        auto simp: act_ok recovery_due_def unat_add_u64)
next
  case (CallCancelRecovery sg)
  then obtain p where p: "st_pending_recovery s = Some (Decodes p)"
    "authorised (h_auths env) (custody_of s) \<or> pr_initiated_by p \<in> h_auths env"
    using assms(1) quorum_authorises [of env s sg] by (auto simp: act_ok split: if_splits)
  show ?thesis
    using assms(1) CallCancelRecovery p(2) by - (rule disjI2, rule custody_withdraw [OF p(1)], auto simp: act_ok)
next
  case (CallUpdateRecoveryAddress sg x)
  then show ?thesis
    using assms(1) by - (rule disjI2, intro custody_move_recovery [of _ s x], auto simp: act_ok quorum_authorises)
next
  case CallExecuteRecovery
  then show ?thesis
    using assms(1) by (auto simp: act_ok recovery_due_def word_le_nat_alt intro!: disjI2 custody_recover)
next
  case (CallTransferAdmin sg as t)
  then have "authorised (h_auths env) (custody_of s)"
    using assms(1) by (auto simp: act_ok quorum_authorises)
  then show ?thesis
    using assms(1) CallTransferAdmin by - (rule disjI2, intro custody_hand_over [of _ s _ as t], auto simp: act_ok)
next
  case (CallChangeThreshold sg t)
  then obtain as u where u: "st_admin s = Some as" "st_threshold s = Some u" "valid_admins as t"
    "admin_quorum env s sg (u + 1)" "unat u + 1 < 2 ^ 32"
    using assms by (auto simp: act_ok admin_quorum_def shared_wf_def valid_admins_def split: option.splits)
  then show ?thesis
    using CallChangeThreshold assms(1) larger_quorum_authorises [OF u(4,2,5)]
    by - (rule disjI2, intro custody_hand_over [of _ s _ as t], auto simp: act_ok)
qed (use assms(1) in \<open>auto simp: act_ok intro!: disjI1 custody_of_cong\<close>)

text \<open>What a queued operation does to the custody needs no authorisation at the time of execution.\<close>

lemma operation_custody:
  assumes "dispatch_operation env ex op s = Inr ((), s')" "shared_wf s" "st_admin s \<noteq> None"
    "st_pending_recovery s \<noteq> None \<longrightarrow> op = CancelRecovery"
  shows "custody_of s' = custody_of s \<or> custody_step True l (custody_of s) (custody_of s')"
proof (cases l)
  case (Pair auths now)
  consider as t where "op = TransferAdmin as t" | "op = CancelRecovery"
    | "\<forall>as t. op \<noteq> TransferAdmin as t" "op \<noteq> CancelRecovery"
    by blast
  then show ?thesis
  proof cases
    case (1 as t)
    then show ?thesis
      using assms Pair by (auto simp: act_ok intro!: disjI2 custody_hand_over [of _ s _ as t])
  next
    case 2
    then obtain p where "st_pending_recovery s = Some (Decodes p)"
      using assms by (auto simp: act_ok shared_wf_def split: option.splits)
    then show ?thesis
      using 2 assms(1) Pair by (auto simp: act_ok intro!: disjI2 custody_withdraw)
  next
    case 3
    then show ?thesis
      using assms(1) by (cases op) (auto simp: unregistered_def rule_set_def rule_cleared_def default_set_def act_ok
        intro!: disjI1 custody_of_cong)
  qed
qed

lemma step_custody:
  assumes "settlement_step (env, c) s s'" "settlement_wf s"
  shows "custody_of s' = custody_of s \<or>
    custody_step (executes_queued c) (h_auths env, unat (h_timestamp env)) (custody_of s) (custody_of s')"
proof -
  have wf: "shared_wf s" "st_admin s = None \<longrightarrow> ss_scheduled s = Map.empty"
    using assms(2) by (auto simp: settlement_wf_def admin_wf_def queue_wf_def)
  consider a where "c = AdminCall a" | ex op where "c = QueueCall (CallExecute ex op)"
    | "admin_view s' = admin_view s"
  proof (cases c)
    case (QueueCall q)
    then show ?thesis
      using that assms(1) queue_frame(1) [of env q s s'] by (auto simp: settlement_step_iff)
  qed (use that assms(1) in \<open>auto simp: settlement_step_iff dest: merchant_frame(1) payment_frame(1) read_frame(1)\<close>)
  then show ?thesis
  proof cases
    case 1
    then show ?thesis
      using assms(1) wf(1) admin_call_custody [of env _ s s'] by (auto simp: settlement_step_iff executes_queued_def)
  next
    case (2 ex op)
    then have "execute env ex op s = Inr ((), s')"
      using assms(1) by (simp add: settlement_step_iff)
    then obtain s1 where s1: "executable env s op"
      "dispatch_operation env ex op (dequeued (op_hash env op) s) = Inr ((), s1)" "admin_view s' = admin_view s1"
      by (rule execute_step) (auto simp: admin_view_def)
    have "custody_of (dequeued (op_hash env op) s) = custody_of s" "custody_of s' = custody_of s1"
      using s1(3) by (auto intro: custody_of_view)
    moreover have "shared_wf (dequeued (op_hash env op) s)" "st_admin (dequeued (op_hash env op) s) \<noteq> None"
      "st_pending_recovery (dequeued (op_hash env op) s) \<noteq> None \<longrightarrow> op = CancelRecovery"
      using wf s1(1) by (auto simp: shared_wf_def executable_def)
    moreover have "executes_queued c"
      using 2 by (simp add: executes_queued_def)
    ultimately show ?thesis
      using operation_custody [OF s1(2), of "(h_auths env, unat (h_timestamp env))"] by (simp only: simp_thms)
  next
    case 3
    then show ?thesis
      by (intro disjI1 custody_of_view)
  qed
qed

section \<open>Entries\<close>

lemma step_entries:
  assumes "settlement_step (env, c) s s'" "settlement_wf s'" "ss_payment s' \<noteq> ss_payment s"
  shows "custody_of s' = custody_of s \<and>
    book_step (h_auths env, unat (h_timestamp env), by_queue) (book_of s) (book_of s')"
proof -
  obtain b where b: "c = PaymentCall b" "payment_dispatch env b s = Inr ((), s')"
    using step_payments [OF assms(1)] assms by (cases c) (auto simp: payment_view_def settlement_step_iff)
  have custody: "custody_of s' = custody_of s"
    using payment_frame(1) [OF b(2)] by (rule custody_of_view)
  have "book_step (h_auths env, unat (h_timestamp env), by_queue) (book_of s) (book_of s')"
  proof (cases b)
    case (CallStorePaymentReference m ref a)
    then obtain p where p: "ref \<noteq> 0" "m \<in> h_auths env" "ss_payment s (m, ref) = None"
      "ss_payment s' = (ss_payment s)((m, ref) \<mapsto> p)"
      using b(2) by (auto simp: silently_Inr act_ok stored_payment_def)
    then have "record_wf m p"
      using assms(2) unfolding settlement_wf_def payments_wf_def by (metis fun_upd_same)
    then show ?thesis
      using p by (auto simp: book_of_def custody intro: enter)
  next
    case (CallPrunePayment sg m ref)
    then have "ss_payment s' = ss_payment s |` (- ({m} \<times> {ref}))" "quorum env s sg"
      using b(2) by (auto simp: act_ok restrict_map_def fun_eq_iff split: if_splits)
    then show ?thesis
      unfolding book_of_def custody by (metis erase quorum_authorises)
  next
    case (CallPrunePayments sg m refs)
    then have "ss_payment s' = ss_payment s |` (- ({m} \<times> set refs))" "quorum env s sg"
      using b(2) by (auto simp: silently_Inr act_ok Let_def without_payments_def)
    then show ?thesis
      unfolding book_of_def custody by (metis erase quorum_authorises)
  qed
  then show ?thesis
    using custody by blast
qed

interpretation settlement_book: simulation settlement_step book_step book_of book_label settlement_wf
proof unfold_locales
  fix s l s'
  assume s: "settlement_wf s" "settlement_step l s s'"
  obtain env c where l: "l = (env, c)"
    by (cases l)
  have wf: "settlement_wf s'"
    using settlement_step_wf [OF s] .
  have label: "book_label l = (h_auths env, unat (h_timestamp env), executes_queued c)"
    by (simp add: l book_label_def label_time_def)
  have "book_of s' = book_of s \<or> book_step (book_label l) (book_of s) (book_of s')"
  proof (cases "ss_payment s' = ss_payment s")
    case True
    then show ?thesis
      using step_custody [of env c s s'] s unfolding label by (auto simp: l book_of_def intro: book_step.custody)
  next
    case False
    then show ?thesis
      using step_entries [of env c s s'] s(2) wf unfolding label by (auto simp: l)
  qed
  then show "settlement_wf s' \<and> (book_of s' = book_of s \<or> book_step (book_label l) (book_of s) (book_of s'))"
    using wf by blast
qed

end
