(* ===== verification/Refinement_Properties.thy ===== *)
theory Refinement_Properties
  imports Samples Settlement_Refinement Governance_Properties
begin

text \<open>
  Both contracts as refinements of their abstract machines, and the loops of the migrations, which end.
\<close>

section \<open>Refinement\<close>

text \<open>The custody nobody has taken yet.\<close>

definition no_custody :: custody where
  "no_custody = \<lparr>cu_admins = None, cu_threshold = None, cu_recovery = None, cu_pending = None\<rparr>"

text \<open>
  C11. The governance contract implements the custody machine: after every history of invocations since the
  deployment, its admins, threshold, recovery address and pending recovery are those of a history of custody steps,
  each taken by an invocation of the contract, in their order, with the authorisations and the time of that
  invocation. So the admins change only by the first appointment, by the authority of the old ones, or by a
  recovery that is due.
\<close>

theorem governance_refines_custody:
  assumes "run gov_step (gov_fresh wasm) ls s"
  shows "\<exists>ms. subseq ms (map custody_label ls) \<and> run (custody_step False) no_custody ms (custody_of s)"
proof -
  have "custody_of (gov_fresh wasm) = no_custody"
    by (simp add: custody_of_def gov_fresh_def no_custody_def)
  then show ?thesis
    using gov_custody.run_simulates [OF assms gov_fresh_wf] by simp
qed

theorem governance_refines_custody_witness:
  "\<exists>s ms. run gov_step (gov_fresh 0) [gov_do_init] s \<and> run (custody_step False) no_custody ms (custody_of s) \<and>
    cu_admins (custody_of s) = Some [alice, bob]"
proof -
  obtain s where s: "run gov_step (gov_fresh 0) [gov_do_init] s" "is_gov_state s"
    by (rule gov_sample)
  then have "cu_admins (custody_of s) = Some [alice, bob]"
    by (simp add: is_gov_state_def)
  then show ?thesis
    using governance_refines_custody [OF s(1)] s(1) by blast
qed

text \<open>
  C5. The settlement contract implements the book: after every history of invocations since the deployment, its
  custody and its payments are those of a history of steps of the book, each taken by an invocation of the
  contract, in their order, with the authorisations and the time of that invocation. So the custody changes without
  the authority of the admins or of the recovery path only when a queued operation is executed; an entry appears only
  under a free reference, well-formed and authorised by its merchant, and disappears only by the authority of
  the admins; counters, rules, the queue and governance never reach into the book in another way.
\<close>

theorem settlement_refines_book:
  assumes "run settlement_step (settlement_fresh wasm) ls s"
  shows "\<exists>ms. subseq ms (map book_label ls) \<and>
    run book_step \<lparr>bk_custody = no_custody, bk_entries = Map.empty\<rparr> ms (book_of s)"
proof -
  have "book_of (settlement_fresh wasm) = \<lparr>bk_custody = no_custody, bk_entries = Map.empty\<rparr>"
    by (simp add: book_of_def custody_of_def settlement_fresh_def no_custody_def)
  then show ?thesis
    using settlement_book.run_simulates [OF assms settlement_fresh_wf] by simp
qed

theorem settlement_refines_book_witness:
  "\<exists>s ms. run settlement_step (settlement_fresh 0) [do_init, do_register, do_pay] s \<and>
    run book_step \<lparr>bk_custody = no_custody, bk_entries = Map.empty\<rparr> ms (book_of s) \<and>
    bk_entries (book_of s) (shop, 5) = Some sample_record"
proof -
  obtain s where s: "run settlement_step (settlement_fresh 0) [do_init, do_register, do_pay] s" "is_paid_state s"
    by (rule sample_paid)
  then have "bk_entries (book_of s) (shop, 5) = Some sample_record"
    by (simp add: is_paid_state_def book_of_def)
  then show ?thesis
    using settlement_refines_book [OF s(1)] s(1) by blast
qed

section \<open>Loops that end\<close>

text \<open>
  C32. The migration loops of both contracts end, whatever version is stored: the stored version is raised to the
  current one and never lowered, a contract without a version marker is left alone, nothing else of the storage
  changes, and migrating again changes nothing.
\<close>

theorem migrations_end:
  "(\<exists>s'. run_migrations s = Inr ((), s') \<and> run_migrations s' = Inr ((), s') \<and>
     s' = s\<lparr>st_schema_version := map_option (max CURRENT_SCHEMA_VERSION) (st_schema_version s)\<rparr>) \<and>
   (\<exists>g'. gov_run_migrations g = Inr ((), g') \<and> gov_run_migrations g' = Inr ((), g') \<and>
     g' = g\<lparr>st_schema_version := map_option (max GOV_CURRENT_SCHEMA_VERSION) (st_schema_version g)\<rparr>)"
  by (cases "st_schema_version s"; cases "st_schema_version g")
    (auto simp: run_migrations_run gov_run_migrations_run migrated_version_def max_def)

end
