(* ===== verification/Lifetime_Properties.thy ===== *)
theory Lifetime_Properties
  imports Samples Governance_Properties
begin

text \<open>
  The lifetimes the contracts ask for. An entry of persistent storage that nobody extends is archived
  by the host, so an entry an invocation writes has to be extended by the same invocation.
\<close>

section \<open>Requests of an invocation\<close>

abbreviation scheduled_bump :: "bytes32 \<Rightarrow> DataKey ttl_bump" where
  "scheduled_bump k \<equiv> BumpPersistent (ScheduledOperation k) SCHEDULED_OP_TTL_THRESHOLD SCHEDULED_OP_TTL_BUMP"

text \<open>Every entry that is in \<open>s'\<close> and was not in \<open>s\<close> with this value is among the requests.\<close>

definition covered :: "DataKey ttl_bump list \<Rightarrow> settlement_state \<Rightarrow> settlement_state \<Rightarrow> bool" where
  "covered bs s s' \<longleftrightarrow>
    (\<forall>m. m \<in> ss_merchant s' \<and> m \<notin> ss_merchant s \<longrightarrow> merchant_bump m \<in> set bs) \<and>
    (\<forall>m. m \<in> ss_archived s' \<and> m \<notin> ss_archived s \<longrightarrow> archived_bump m \<in> set bs) \<and>
    (\<forall>m r. ss_rule s' m = Some r \<and> ss_rule s m \<noteq> Some r \<longrightarrow> rule_bump m \<in> set bs) \<and>
    (\<forall>m ref p. ss_payment s' (m, ref) = Some p \<and> ss_payment s (m, ref) \<noteq> Some p \<longrightarrow> payment_bump m ref \<in> set bs) \<and>
    (\<forall>m n. ss_payment_count s' m = Some n \<and> ss_payment_count s m \<noteq> Some n \<longrightarrow> count_bump m \<in> set bs) \<and>
    (\<forall>k e. ss_scheduled s' k = Some e \<and> ss_scheduled s k \<noteq> Some e \<longrightarrow> scheduled_bump k \<in> set bs)"

definition requests :: "settlement_state \<Rightarrow> settlement_state \<Rightarrow> bool" where
  "requests s s' \<longleftrightarrow> (\<exists>bs. st_bumps s' = st_bumps s @ bs \<and> covered bs s s')"

lemma requestsI: "st_bumps s' = st_bumps s @ bs \<Longrightarrow> covered bs s s' \<Longrightarrow> requests s s'"
  by (auto simp: requests_def)

lemma covered_views:
  assumes "merchant_view s' = merchant_view s" "payment_view s' = payment_view s"
    "ss_scheduled s' \<subseteq>\<^sub>m ss_scheduled s"
  shows "covered bs s s'"
  using assms by (auto simp: covered_def merchant_view_def payment_view_def map_le_def dom_def)

lemma admin_requests:
  assumes "admin_dispatch env c s = Inr ((), s')"
  shows "requests s s'"
proof -
  have "\<exists>bs. st_bumps s' = st_bumps s @ bs"
    using assms by (cases c) (auto simp: act_ok)
  then show ?thesis
    using covered_views [OF admin_frame(1,2) [OF assms]] admin_frame(3) [OF assms]
    by (auto simp: queue_view_def intro: requestsI)
qed

lemma read_requests:
  assumes "read_dispatch env c s = Inr ((), s')"
  shows "requests s s'"
proof -
  have "\<exists>bs. st_bumps s' = st_bumps s @ bs"
    using assms by (cases c) (auto simp: settlement_getter_defs act_simps act_ok)
  then show ?thesis
    using covered_views [OF read_frame(2,3) [OF assms]] read_frame(4) [OF assms]
    by (auto simp: queue_view_def intro: requestsI)
qed

lemma merchant_requests:
  assumes "merchant_dispatch env c s = Inr ((), s')"
  shows "requests s s'"
  using assms by (cases c) (auto simp: requests_def covered_def unregistered_def rule_set_def rule_cleared_def
      default_set_def act_ok split: if_splits)

lemma operation_requests:
  assumes "dispatch_operation env ex op s = Inr ((), s')"
  shows "requests s s'"
  using assms by (cases op) (auto simp: requests_def covered_def unregistered_def rule_set_def rule_cleared_def
      default_set_def act_ok split: if_splits)

lemma payment_requests:
  assumes "payment_dispatch env c s = Inr ((), s')"
  shows "requests s s'"
proof (cases c)
  case (CallStorePaymentReference m ref a)
  then obtain rule split where s': "s' = stored_payment env m ref a rule split s"
    using assms by (auto simp: silently_Inr act_ok)
  let ?bs = "[merchant_bump m] @ (if ss_rule s m = None then [] else [rule_bump m]) @ [payment_bump m ref, count_bump m]"
  have "st_bumps s' = st_bumps s @ ?bs"
    by (simp add: s' stored_payment_def)
  moreover have "covered ?bs s s'"
    unfolding s' stored_payment_def covered_def by (simp split: if_split)
  ultimately show ?thesis
    by (rule requestsI)
next
  case (CallPrunePayment sg m ref)
  then show ?thesis
    using assms by (cases "ss_payment s (m, ref)")
      (auto simp: requests_def covered_def act_ok split: if_splits)
next
  case (CallPrunePayments sg m refs)
  then show ?thesis
    using assms by (auto simp: requests_def covered_def silently_Inr act_ok Let_def without_payments_def
        pruned_count_def restrict_map_def split: if_splits)
qed

lemma cancel_all_requests:
  assumes "cancel_all env signers ops s = Inr (c, s')"
  shows "requests s s'"
proof -
  let ?s = "s\<lparr>st_bumps := st_bumps s @ [instance_bump, instance_bump]\<rparr>"
  from assms obtain s1 where s1: "cancel_each env ops 0 ?s = Inr (c, s1)" "length ops \<le> 50"
    "st_bumps s' = st_bumps s1"
    by (auto simp: act_ok)
  then have "queue_drained (cancelled_slots env ops ?s) ?s s1"
    using cancel_each_frame [OF s1(1)] by auto
  then have "st_bumps s' = st_bumps s @ [instance_bump, instance_bump]"
    using s1(3) by (auto simp: queue_drained_def)
  moreover have "ss_scheduled s' \<subseteq>\<^sub>m ss_scheduled s"
    unfolding cancel_all_frame(4) [OF assms] by (auto simp: map_le_def)
  ultimately show ?thesis
    using covered_views [OF cancel_all_frame(2,3) [OF assms]] by (auto intro: requestsI)
qed

lemma queue_requests:
  assumes "queue_dispatch env c s = Inr ((), s')"
  shows "requests s s'"
proof (cases c)
  case (CallSchedule sg op d)
  then show ?thesis
    using assms by (auto simp: requests_def covered_def enqueued_def act_ok split: if_splits)
next
  case (CallExecute ex op)
  then have "execute env ex op s = Inr ((), s')"
    using assms by simp
  then obtain s1 where s1: "dispatch_operation env ex op (dequeued (op_hash env op) s) = Inr ((), s1)"
    "s' = s1\<lparr>st_events := st_events s1 @ [([ScSymbol OP_EXECUTED_EVENT, ScBytes32 (op_hash env op)], ScVoid)]\<rparr>"
    by (rule execute_step)
  have "ss_scheduled s1 = (ss_scheduled s)(op_hash env op := None)"
    using operation_frame(2) [OF s1(1)] by (simp add: queue_view_def)
  with operation_requests [OF s1(1)] show ?thesis
    by (auto simp: s1(2) requests_def covered_def)
next
  case (CallCancel sg op)
  then show ?thesis
    using assms by (auto simp: requests_def covered_def act_ok split: if_splits)
next
  case (CallCancelAll sg ops)
  then show ?thesis
    using assms by (auto simp: silently_Inr intro: cancel_all_requests)
qed

lemma step_requests: "settlement_step (env, c) s s' \<Longrightarrow> requests s s'"
  using admin_requests queue_requests merchant_requests payment_requests read_requests
  by (cases c) (auto simp: settlement_step_iff)

section \<open>Queued operations\<close>

lemma schedule_window:
  assumes "settlement_step (env, c) s s'" "ss_scheduled s' k = Some e" "ss_scheduled s k \<noteq> Some e"
  shows "unat (so_execute_at e) \<le> unat (h_timestamp env) + 5 * unat SCHEDULED_OP_TTL_BUMP"
proof -
  have new: "\<not> ss_scheduled s' \<subseteq>\<^sub>m ss_scheduled s"
    using assms(2,3) by (auto simp: map_le_def dom_def)
  then have "queue_view s' \<noteq> queue_view s"
    by (auto simp: queue_view_def)
  then obtain q where q: "c = QueueCall q" "queue_dispatch env q s = Inr ((), s')"
    using step_queue [OF assms(1)] assms(1) by (cases c) (auto simp: settlement_step_iff)
  then obtain sg op d where "schedule env sg op d s = Inr ((), s')"
    using queue_call_effect [OF q(2)] new by auto
  then have "valid_delay d" "unat (h_timestamp env) + unat d < 2 ^ 64" "so_execute_at e = h_timestamp env + d"
    using assms(2,3) by (auto simp: schedule_Inr enqueued_def split: if_splits)
  then show ?thesis
    by (simp add: valid_delay_def unat_add_u64 SCHEDULED_OP_TTL_BUMP_def SETTLEMENT_LEDGERS_PER_DAY_def)
qed

lemma settlement_step_kept_alive:
  assumes "settlement_step (env, c) s s'"
  shows "\<exists>bs. st_bumps s' = st_bumps s @ bs \<and>
    (\<forall>m \<in> ss_merchant s' - ss_merchant s.
      BumpPersistent (Merchant m) MERCHANT_TTL_THRESHOLD MERCHANT_TTL_BUMP \<in> set bs) \<and>
    (\<forall>m \<in> ss_archived s' - ss_archived s.
      BumpPersistent (ArchivedMerchant m) MERCHANT_TTL_THRESHOLD MERCHANT_TTL_BUMP \<in> set bs) \<and>
    (\<forall>m r. ss_rule s' m = Some r \<and> ss_rule s m \<noteq> Some r \<longrightarrow>
      BumpPersistent (Rule m) RULE_TTL_THRESHOLD RULE_TTL_BUMP \<in> set bs) \<and>
    (\<forall>m ref p. ss_payment s' (m, ref) = Some p \<and> ss_payment s (m, ref) \<noteq> Some p \<longrightarrow>
      BumpPersistent (Payment m ref) PAYMENT_TTL_THRESHOLD PAYMENT_TTL_BUMP \<in> set bs) \<and>
    (\<forall>m n. ss_payment_count s' m = Some n \<and> ss_payment_count s m \<noteq> Some n \<longrightarrow>
      BumpPersistent (PaymentCount m) MERCHANT_TTL_THRESHOLD MERCHANT_TTL_BUMP \<in> set bs) \<and>
    (\<forall>k e. ss_scheduled s' k = Some e \<and> ss_scheduled s k \<noteq> Some e \<longrightarrow>
      BumpPersistent (ScheduledOperation k) SCHEDULED_OP_TTL_THRESHOLD SCHEDULED_OP_TTL_BUMP \<in> set bs \<and>
      unat (so_execute_at e) \<le> unat (h_timestamp env) + 5 * unat SCHEDULED_OP_TTL_BUMP)"
proof -
  obtain bs where "st_bumps s' = st_bumps s @ bs" "covered bs s s'"
    using step_requests [OF assms] by (auto simp: requests_def)
  then show ?thesis
    using schedule_window [OF assms] unfolding covered_def by (intro exI [of _ bs]) blast
qed

section \<open>The governance contract\<close>

text \<open>Only two entry points write to persistent storage.\<close>

lemma gov_touch_bumps:
  "st_bumps (gov_touch s) =
    st_bumps s @ [BumpInstance GOV_READ_INSTANCE_TTL_THRESHOLD GOV_READ_INSTANCE_TTL_BUMP]"
  "\<exists>bs. st_bumps (gov_touch_if b s) = st_bumps s @ bs"
  by (simp_all add: gov_touch_def gov_touch_if_def)

lemma gov_other_writes:
  assumes "gov_dispatch env c s = Inr (v, s')" "\<forall>sg key x. c \<noteq> GovUpdateSystemParam sg key x"
    "\<forall>sg asset a. c \<noteq> GovUpsertAnchor sg asset a"
  shows "gs_system_param s' = gs_system_param s" "gs_anchor s' \<subseteq>\<^sub>m gs_anchor s"
    "\<exists>bs. st_bumps s' = st_bumps s @ bs"
proof -
  show "gs_system_param s' = gs_system_param s"
    using assms by (cases c) (auto simp: gov_getter_defs act_simps act_ok split: if_splits)
  show "gs_anchor s' \<subseteq>\<^sub>m gs_anchor s"
    using assms by (cases c) (auto simp: gov_getter_defs map_le_def act_simps act_ok split: if_splits)
  show "\<exists>bs. st_bumps s' = st_bumps s @ bs"
    using assms by (cases c) (auto simp: gov_touch_bumps gov_getter_defs act_simps act_ok)
qed

lemma gov_step_requests:
  assumes "gov_step (env, c) s s'"
  shows "\<exists>bs. st_bumps s' = st_bumps s @ bs \<and>
    (\<forall>key v. gs_system_param s' key = Some v \<and> gs_system_param s key \<noteq> Some v \<longrightarrow>
      BumpPersistent (SystemParam key) SYSTEM_PARAM_TTL_THRESHOLD SYSTEM_PARAM_TTL_BUMP \<in> set bs) \<and>
    (\<forall>asset a. gs_anchor s' asset = Some a \<and> gs_anchor s asset \<noteq> Some a \<longrightarrow>
      BumpPersistent (Anchor asset) ANCHOR_TTL_THRESHOLD ANCHOR_TTL_BUMP \<in> set bs)"
proof -
  from assms obtain v where v: "gov_dispatch env c s = Inr (v, s')"
    by (auto simp: gov_step_iff)
  consider sg key x where "c = GovUpdateSystemParam sg key x" | sg asset a where "c = GovUpsertAnchor sg asset a"
    | "\<forall>sg key x. c \<noteq> GovUpdateSystemParam sg key x" "\<forall>sg asset a. c \<noteq> GovUpsertAnchor sg asset a"
    by blast
  then show ?thesis
  proof cases
    case 3
    from gov_other_writes [OF v this] show ?thesis
      by (force simp: map_le_def dom_def)
  qed (use v in \<open>auto simp: gov_touch_def act_simps act_ok\<close>)
qed

text \<open>
  C24. Whatever an invocation writes to persistent storage it also keeps alive. In the settlement contract a newly
  registered merchant, a new archive marker, a new or changed rule, payment, payment counter or queued operation
  has, in the same invocation, its lifetime extended by the policy of its kind; so have a new or changed
  parameter and anchor in the governance contract. And the lifetime of a queued operation is long enough for its
  delay: at five seconds a ledger the operation becomes executable before its entry expires.
\<close>

theorem written_entries_kept_alive:
  assumes "settlement_step (env, c) s s'" "gov_step (env', c') gs gs'"
  shows "(\<exists>bs. st_bumps s' = st_bumps s @ bs \<and>
    (\<forall>m \<in> ss_merchant s' - ss_merchant s.
      BumpPersistent (Merchant m) MERCHANT_TTL_THRESHOLD MERCHANT_TTL_BUMP \<in> set bs) \<and>
    (\<forall>m \<in> ss_archived s' - ss_archived s.
      BumpPersistent (ArchivedMerchant m) MERCHANT_TTL_THRESHOLD MERCHANT_TTL_BUMP \<in> set bs) \<and>
    (\<forall>m r. ss_rule s' m = Some r \<and> ss_rule s m \<noteq> Some r \<longrightarrow>
      BumpPersistent (Rule m) RULE_TTL_THRESHOLD RULE_TTL_BUMP \<in> set bs) \<and>
    (\<forall>m ref p. ss_payment s' (m, ref) = Some p \<and> ss_payment s (m, ref) \<noteq> Some p \<longrightarrow>
      BumpPersistent (Payment m ref) PAYMENT_TTL_THRESHOLD PAYMENT_TTL_BUMP \<in> set bs) \<and>
    (\<forall>m n. ss_payment_count s' m = Some n \<and> ss_payment_count s m \<noteq> Some n \<longrightarrow>
      BumpPersistent (PaymentCount m) MERCHANT_TTL_THRESHOLD MERCHANT_TTL_BUMP \<in> set bs) \<and>
    (\<forall>k e. ss_scheduled s' k = Some e \<and> ss_scheduled s k \<noteq> Some e \<longrightarrow>
      BumpPersistent (ScheduledOperation k) SCHEDULED_OP_TTL_THRESHOLD SCHEDULED_OP_TTL_BUMP \<in> set bs \<and>
      unat (so_execute_at e) \<le> unat (h_timestamp env) + 5 * unat SCHEDULED_OP_TTL_BUMP)) \<and>
   (\<exists>bs. st_bumps gs' = st_bumps gs @ bs \<and>
    (\<forall>key v. gs_system_param gs' key = Some v \<and> gs_system_param gs key \<noteq> Some v \<longrightarrow>
      BumpPersistent (SystemParam key) SYSTEM_PARAM_TTL_THRESHOLD SYSTEM_PARAM_TTL_BUMP \<in> set bs) \<and>
    (\<forall>asset a. gs_anchor gs' asset = Some a \<and> gs_anchor gs asset \<noteq> Some a \<longrightarrow>
      BumpPersistent (Anchor asset) ANCHOR_TTL_THRESHOLD ANCHOR_TTL_BUMP \<in> set bs))"
  by (rule conjI [OF settlement_step_kept_alive [OF assms(1)] gov_step_requests [OF assms(2)]])

theorem written_entries_kept_alive_witness:
  "\<exists>s s' bs. run settlement_step (settlement_fresh 0) [do_init] s \<and> settlement_step do_register s s' \<and>
    st_bumps s' = st_bumps s @ bs \<and>
    BumpPersistent (Merchant shop) MERCHANT_TTL_THRESHOLD MERCHANT_TTL_BUMP \<in> set bs"
proof -
  have "\<exists>s. run settlement_step (settlement_fresh 0) [do_init] s \<and>
      (\<exists>s'. settlement_step do_register s s' \<and> shop \<in> ss_merchant s' - ss_merchant s)"
    by (simp add: sample_eval)
  then obtain s s' where s: "run settlement_step (settlement_fresh 0) [do_init] s"
    "settlement_step do_register s s'" "shop \<in> ss_merchant s' - ss_merchant s"
    by blast
  have step: "settlement_step (sample_host 5, MerchantCall (CallRegisterMerchant [alice, bob] shop)) s s'"
    using s(2) by (simp add: do_register_def)
  have "\<exists>gs. gov_step (gov_host 0, GovInit alice [alice, bob] 2 rescue) (gov_fresh 0) gs"
    by (simp add: gov_sample_eval)
  then obtain gs where "gov_step (gov_host 0, GovInit alice [alice, bob] 2 rescue) (gov_fresh 0) gs" ..
  from written_entries_kept_alive [OF step this] show ?thesis
    using s by blast
qed

end
