(* ===== verification/Two_Contracts.thy ===== *)
theory Two_Contracts
  imports Settlement_Promises Governance_System
begin

text \<open>
  The settlement contract and the governance contract together. A settlement invocation calls two read-only entry points
  of the governance contract; \<open>governance_reply\<close> answers them with the governance model itself. \<open>system_step\<close>
  interleaves invocations of both contracts, with outages: a call may also fail. \<open>system_inv\<close> and
  \<open>system_settlement\<close> are the interpretations of \<open>step_invariant\<close> and \<open>simulation\<close> on it.
\<close>

section \<open>Calls between the contracts\<close>

text \<open>
  A call of the settlement contract to the governance address, answered by the governance contract's own getters on
  its state: what the host does with a cross-contract call to these two read-only entry points. A settlement
  contract is connected to a governance state when its host answers so.
\<close>

definition governance_reply :: "gov_state \<Rightarrow> string \<Rightarrow> sc_val list \<Rightarrow> sc_val reply" where
  "governance_reply gs f args =
    (let answer = (\<lambda>r. case r of Inl _ \<Rightarrow> CallFailed | Inr (v, _) \<Rightarrow> Replied v) in
     if f = ''get_fee_config'' \<and> args = [] then answer (returning (sc_option sc_fee_config) gov_get_fee_config gs)
     else (case args of
         [ScSymbol key] \<Rightarrow>
           if f = ''get_system_param'' then answer (returning (sc_option ScI128) (gov_get_system_param key) gs)
           else CallFailed
       | _ \<Rightarrow> CallFailed))"

definition connected :: "'h settlement_host_scheme \<Rightarrow> settlement_state \<Rightarrow> gov_state \<Rightarrow> bool" where
  "connected env s gs \<longleftrightarrow> (\<exists>g. ss_governance s = Some g \<and>
    h_invoke env g ''get_fee_config'' [] = governance_reply gs ''get_fee_config'' [] \<and>
    (\<forall>key. h_invoke env g ''get_system_param'' [ScSymbol key] =
       governance_reply gs ''get_system_param'' [ScSymbol key]))"

lemma governance_replies:
  "governance_reply gs ''get_fee_config'' [] = Replied (sc_option sc_fee_config (gs_fee_config gs))"
  "governance_reply gs ''get_system_param'' [ScSymbol key] = Replied (sc_option ScI128 (gs_system_param gs key))"
  by (simp_all add: governance_reply_def returning_def gov_read_steps gov_get_system_param_run bind_run ret_run)

text \<open>The rule the settlement contract makes of a fee configuration.\<close>

definition config_rule :: "FeeConfig \<Rightarrow> SettlementRule" where
  "config_rule c = \<lparr>sr_platform_fee_bps = fc_platform_fee_bps c, sr_network_fee_bps = fc_network_fee_bps c,
    sr_settlement_delay_ledger = 0, sr_auto_settle = False\<rparr>"

lemma classify_config:
  "classify_governance_fee_config (sc_option sc_fee_config c) =
    Inr (map_option (\<lambda>c. \<lparr>gfc_platform_fee_bps = fc_platform_fee_bps c,
      gfc_network_fee_bps = fc_network_fee_bps c\<rparr>) c)"
  by (cases c) (simp_all add: sc_option_def classify_governance_fee_config_def sc_fee_config_def u32_of_val_def)

lemma option_i128_config: "option_i128_reply (Replied (sc_option ScI128 v)) = Replied v"
  by (cases v) (simp_all add: option_i128_reply_def sc_option_def)

lemma connected_offer:
  assumes "connected env s gs"
  shows "governance_offer env s =
    Inr (if gs_system_param gs ''bypass_gov_fees'' = Some 1 then None else map_option config_rule (gs_fee_config gs))"
  using assms
  by (auto simp: connected_def governance_replies governance_offer_def governance_bypass_enabled_def
      SETTLEMENT_BYPASS_GOV_FEES_PARAM_def option_i128_config classify_config rule_of_config_def config_rule_def
      option.map_comp comp_def intro!: option.map_cong0 split: option.splits)

lemma connected_min_payment:
  assumes "connected env s gs"
  shows "min_payment env s = (case gs_system_param gs ''min_payment'' of Some v \<Rightarrow> v | None \<Rightarrow> 100)"
  using assms by (auto simp: connected_def governance_replies min_payment_def option_i128_config
      MIN_PAYMENT_AMOUNT_def split: option.splits)

lemma config_rule_valid: "valid_fee_config c \<Longrightarrow> valid_rule (config_rule c)"
  by (simp add: valid_fee_config_def valid_rule_def config_rule_def)

lemma bootstrap_rule_valid: "valid_rule BOOTSTRAP_DEFAULT_RULE"
  by (simp add: valid_rule_def BOOTSTRAP_DEFAULT_RULE_def MIN_FEE_BPS_def)

section \<open>Interleaved histories\<close>

text \<open>
  The governance address answers with the governance state, or the call fails. The calls of one invocation need not
  agree on that: each entry point and each parameter may fail on its own.
\<close>

definition answered_by :: "'h settlement_host_scheme \<Rightarrow> settlement_state \<Rightarrow> gov_state \<Rightarrow> bool" where
  "answered_by env s gs \<longleftrightarrow> (\<forall>g. ss_governance s = Some g \<longrightarrow>
    h_invoke env g ''get_fee_config'' [] \<in> {governance_reply gs ''get_fee_config'' [], CallFailed} \<and>
    (\<forall>key. h_invoke env g ''get_system_param'' [ScSymbol key] \<in>
       {governance_reply gs ''get_system_param'' [ScSymbol key], CallFailed}))"

datatype system_label = OnGovernance gov_label | OnSettlement settlement_label

text \<open>
  A settlement invocation leaves the governance contract as it is but for lifetimes: the getter of a parameter
  extends its entry.
\<close>

inductive system_step ::
  "system_label \<Rightarrow> gov_state \<times> settlement_state \<Rightarrow> gov_state \<times> settlement_state \<Rightarrow> bool" where
  on_governance: "gov_step l gs gs' \<Longrightarrow> system_step (OnGovernance l) (gs, s) (gs', s)"
| on_settlement: "settlement_step l s s' \<Longrightarrow> answered_by (fst l) s gs \<Longrightarrow>
    system_step (OnSettlement l) (gs, s) (gs\<lparr>st_bumps := st_bumps gs @ bumps\<rparr>, s')"

inductive_cases on_governanceE: "system_step (OnGovernance l) (gs, s) x"
inductive_cases on_settlementE: "system_step (OnSettlement l) (gs, s) x"

lemma answered_offer:
  assumes "answered_by env s gs" "governance_offer env s = r"
  shows "\<exists>rule. r = Inr rule \<and> (rule = None \<or> rule = Option.bind (ss_cached_gov_rule s) id \<or>
    (\<exists>c. gs_fee_config gs = Some c \<and> rule = Some (config_rule c)))"
proof (cases "ss_governance s")
  case None
  then show ?thesis
    using assms(2) by (auto simp: governance_offer_def)
next
  case (Some g)
  then have "h_invoke env g ''get_fee_config'' [] \<in> {Replied (sc_option sc_fee_config (gs_fee_config gs)), CallFailed}"
    using assms(1) by (auto simp: answered_by_def governance_replies)
  then show ?thesis
    using assms(2) Some
    by (auto simp: governance_offer_def classify_config rule_of_config_def config_rule_def split: if_splits)
qed

lemma answered_min_payment:
  assumes "answered_by env s gs" "params_wf (gs_system_param gs)"
  shows "0 \<le> min_payment env s"
proof (cases "ss_governance s")
  case None
  then show ?thesis
    by (simp add: min_payment_def MIN_PAYMENT_AMOUNT_def)
next
  case (Some g)
  then have "h_invoke env g ''get_system_param'' [ScSymbol ''min_payment''] \<in>
      {Replied (sc_option ScI128 (gs_system_param gs ''min_payment'')), CallFailed}"
    using assms(1) by (auto simp: answered_by_def governance_replies)
  moreover have "option_i128_reply CallFailed = CallFailed"
    by (simp add: option_i128_reply_def)
  ultimately show ?thesis
    using Some assms(2)
    by (auto simp: min_payment_def option_i128_config MIN_PAYMENT_AMOUNT_def params_wf_def split: option.splits)
qed

text \<open>A rule from governance, fresh or cached, is within the bounds of the rules the contract accepts.\<close>

definition cache_wf :: "settlement_state \<Rightarrow> bool" where
  "cache_wf s \<longleftrightarrow> pred_option valid_rule (Option.bind (ss_cached_gov_rule s) id)"

lemma answered_offer_valid:
  assumes "answered_by env s gs" "gov_wf gs" "cache_wf s"
  shows "\<exists>rule. governance_offer env s = Inr rule \<and> pred_option valid_rule rule"
proof -
  have "gs_fee_config gs = Some c \<Longrightarrow> valid_rule (config_rule c)" for c
    using assms(2) by (auto simp: gov_wf_def intro: config_rule_valid)
  then show ?thesis
    using answered_offer [OF assms(1) refl] assms(3) by (auto simp: cache_wf_def)
qed

lemma answered_rule_valid:
  assumes "answered_by env s gs" "gov_wf gs" "cache_wf s" "settlement_wf s"
  shows "\<exists>e. effective_rule env s m = Inr e \<and> valid_rule (er_rule e)"
proof -
  obtain rule where "governance_offer env s = Inr rule" "pred_option valid_rule rule"
    using answered_offer_valid [OF assms(1-3)] by blast
  moreover have "\<forall>r. ss_rule s m = Some r \<longrightarrow> valid_rule r" "\<forall>r. ss_default_rule s = Some r \<longrightarrow> valid_rule r"
    using assms(4) by (auto simp: settlement_wf_def merchants_wf_def)
  ultimately show ?thesis
    by (auto simp: effective_rule_def fallback_rule_def bootstrap_rule_valid split: option.splits)
qed

section \<open>The cached rule\<close>

lemmas cache_defs = effective_cache_def fallback_cache_def

lemma operation_cache:
  assumes "dispatch_operation env ex op s = Inr ((), s')"
  shows "ss_cached_gov_rule s' \<in> {ss_cached_gov_rule s, governance_cache env s}"
  using assms by (cases op) (auto simp: unregistered_def rule_set_def rule_cleared_def default_set_def cache_defs act_ok)

lemma queue_call_cache:
  assumes "queue_dispatch env q s = Inr ((), s')"
  shows "ss_cached_gov_rule s' \<in> {ss_cached_gov_rule s, governance_cache env s}"
proof (cases q)
  case (CallExecute ex op)
  then have "execute env ex op s = Inr ((), s')"
    using assms by simp
  then obtain s1 where s1: "dispatch_operation env ex op (dequeued (op_hash env op) s) = Inr ((), s1)"
    "ss_cached_gov_rule s' = ss_cached_gov_rule s1"
    by (rule execute_step) auto
  have "governance_cache env (dequeued (op_hash env op) s) = governance_cache env s"
    by (rule governance_offer_cong) simp_all
  then show ?thesis
    using operation_cache [OF s1(1)] s1(2) by simp
next
  case (CallCancelAll sg ops)
  then obtain n where "cancel_all env sg ops s = Inr (n, s')"
    using assms by (auto simp: silently_Inr)
  then show ?thesis
    by (auto simp: act_ok dest!: cancel_each_frame simp: queue_drained_def)
qed (use assms in \<open>auto simp: act_ok enqueued_def\<close>)

text \<open>An invocation keeps the cached rule or replaces it by what governance offered.\<close>

lemma step_cache:
  assumes "settlement_step (env, c) s s'"
  shows "ss_cached_gov_rule s' \<in> {ss_cached_gov_rule s, governance_cache env s}"
proof (cases c)
  case (AdminCall a)
  then show ?thesis
    using assms by (cases a) (auto simp: settlement_step_iff act_ok)
next
  case (QueueCall q)
  then have q: "queue_dispatch env q s = Inr ((), s')"
    using assms by (simp add: settlement_step_iff)
  show ?thesis
    using q queue_call_cache by blast
next
  case (MerchantCall b)
  then show ?thesis
    using assms by (cases b) (auto simp: settlement_step_iff unregistered_def rule_set_def rule_cleared_def
        default_set_def cache_defs act_ok)
next
  case (PaymentCall b)
  then have b: "payment_dispatch env b s = Inr ((), s')"
    using assms by (simp add: settlement_step_iff)
  show ?thesis
  proof (cases b)
    case (CallStorePaymentReference m ref a)
    then have "ss_cached_gov_rule s' = effective_cache env s m"
      using b by (auto simp: silently_Inr act_ok stored_payment_def)
    then show ?thesis
      by (simp add: cache_defs)
  qed (use b in \<open>auto simp: silently_Inr act_ok without_payments_def pruned_count_def Let_def split: if_splits\<close>)
next
  case (ReadCall b)
  then show ?thesis
    using assms by (cases b) (auto simp: settlement_step_iff settlement_getter_defs cache_defs act_simps act_ok)
qed

section \<open>Stored payments\<close>

text \<open>
  A record as it should be charged: rates within the bounds, the platform fee rounded up, the network fee rounded
  up and at most what the platform fee leaves, and the rest for the merchant.
\<close>

definition record_priced :: "PaymentRecord \<Rightarrow> bool" where
  "record_priced p \<longleftrightarrow>
    (let pf = uint (pay_platform_fee_bps p); nf = uint (pay_network_fee_bps p); a = pay_amount p in
     5 \<le> pf \<and> pf \<le> 5000 \<and> 5 \<le> nf \<and> nf \<le> 5000 \<and> 0 \<le> a \<and>
     pay_platform_fee_amount p = fee_ceil pf a \<and>
     pay_network_fee_amount p = min (fee_ceil nf a) (a - fee_ceil pf a) \<and>
     pay_platform_fee_amount p + pay_network_fee_amount p + pay_merchant_payout_amount p = a)"

lemma new_record_priced:
  assumes "valid_rule rule" "0 \<le> amount" "in_i128 amount" "splits_to amount rule split"
  shows "record_priced (new_record env m amount rule split)"
proof -
  have rates: "platform_rate rule = uint (sr_platform_fee_bps rule)"
    "network_rate rule = uint (sr_network_fee_bps rule)"
    by (simp_all add: platform_rate_def network_rate_def as_i128_def platform_bps_def network_bps_def)
  note b = valid_rule_rates [OF assms(1)]
  have "split = reference_split amount (platform_rate rule) (network_rate rule)"
    using assms(4) by (simp add: splits_to_iff [OF assms(3)])
  then show ?thesis
    using reference_split_conserves(4) [of "platform_rate rule" "network_rate rule" amount]
      reference_split_rounding(1) [of amount "platform_rate rule" "network_rate rule"]
      reference_split_legs(1) [of amount "platform_rate rule" "network_rate rule"] assms(2) b
    by (simp add: record_priced_def new_record_def rates)
qed

text \<open>Where a record comes from.\<close>

lemma step_record:
  assumes "settlement_step (env, c) s s'" "ss_payment s' k = Some p" "ss_payment s k \<noteq> Some p"
  shows "\<exists>m a e split. in_i128 a \<and> min_payment env s \<le> a \<and> effective_rule env s m = Inr e \<and>
    splits_to a (er_rule e) split \<and> p = new_record env m a (er_rule e) split"
proof -
  obtain b where b: "c = PaymentCall b" "payment_dispatch env b s = Inr ((), s')" "call_typed c"
    using step_payments [OF assms(1)] assms by (cases c) (auto simp: payment_view_def settlement_step_iff)
  show ?thesis
  proof (cases b)
    case (CallStorePaymentReference m ref a)
    then have "in_i128 a"
      using b(1,3) by (simp add: call_typed_def)
    moreover obtain e split where "min_payment env s \<le> a" "effective_rule env s m = Inr e"
      "splits_to a (er_rule e) split" "ss_payment s' = (ss_payment s)((m, ref) \<mapsto> new_record env m a (er_rule e) split)"
      using b(2) CallStorePaymentReference by (auto simp: silently_Inr act_ok stored_payment_def)
    ultimately show ?thesis
      using assms(2,3) by (auto split: if_splits)
  next
    case (CallPrunePayment sg m ref)
    then show ?thesis
      using assms(2,3) b(2) by (cases "ss_payment s (m, ref)") (auto simp: act_ok split: if_splits)
  next
    case (CallPrunePayments sg m refs)
    then show ?thesis
      using assms(2,3) b(2)
      by (auto simp: silently_Inr act_ok Let_def without_payments_def restrict_map_def split: if_splits)
  qed
qed

section \<open>The invariant of the system\<close>

definition records_priced :: "settlement_state \<Rightarrow> bool" where
  "records_priced s \<longleftrightarrow> (\<forall>k p. ss_payment s k = Some p \<longrightarrow> record_priced p)"

primrec system_wf :: "gov_state \<times> settlement_state \<Rightarrow> bool" where
  "system_wf (gs, s) \<longleftrightarrow> gov_wf gs \<and> settlement_wf s \<and> cache_wf s \<and> records_priced s"

lemma gov_wf_bumps [simp]: "gov_wf (gs\<lparr>st_bumps := b\<rparr>) = gov_wf gs"
  by (simp add: gov_wf_def shared_wf_def cong: option.case_cong)

lemma answered_cache_wf:
  assumes "settlement_step (env, c) s s'" "answered_by env s gs" "gov_wf gs" "cache_wf s"
  shows "cache_wf s'"
proof -
  obtain rule where "governance_offer env s = Inr rule" "pred_option valid_rule rule"
    using answered_offer_valid [OF assms(2-4)] by blast
  then show ?thesis
    using step_cache [OF assms(1)] assms(4) by (auto simp: cache_wf_def governance_cache_def split: option.splits)
qed

lemma answered_records_priced:
  assumes "settlement_step (env, c) s s'" "answered_by env s gs" "system_wf (gs, s)"
  shows "records_priced s'"
  unfolding records_priced_def
proof (intro allI impI)
  fix k p
  assume k: "ss_payment s' k = Some p"
  show "record_priced p"
  proof (cases "ss_payment s k = Some p")
    case True
    then show ?thesis
      using assms(3) unfolding system_wf.simps records_priced_def by blast
  next
    case False
    then obtain m a e split where p: "in_i128 a" "min_payment env s \<le> a" "effective_rule env s m = Inr e"
      "splits_to a (er_rule e) split" "p = new_record env m a (er_rule e) split"
      using step_record [OF assms(1) k] by blast
    have "valid_rule (er_rule e)"
      using answered_rule_valid [OF assms(2), of m] assms(3) p(3) by auto
    moreover have "0 \<le> min_payment env s"
      using answered_min_payment [OF assms(2)] assms(3) by (simp add: gov_wf_def)
    ultimately show ?thesis
      using p(1,2,4) unfolding p(5) by (intro new_record_priced) simp_all
  qed
qed

lemma system_step_wf:
  assumes "system_wf x" "system_step l x y"
  shows "system_wf y"
  using assms(2,1)
proof (induction rule: system_step.induct)
  case (on_governance l gs gs' s)
  then show ?case
    by (auto intro: gov_step_wf)
next
  case (on_settlement l s s' gs bumps)
  obtain env c where l: "settlement_step (env, c) s s'" "answered_by env s gs"
    using on_settlement.hyps by (metis prod.collapse)
  have "settlement_wf s'" "cache_wf s'"
    using on_settlement.prems settlement_step_wf [OF _ l(1)] answered_cache_wf [OF l] by simp_all
  then show ?case
    using on_settlement.prems answered_records_priced [OF l] by simp
qed

definition system_fresh :: "bytes32 \<Rightarrow> bytes32 \<Rightarrow> gov_state \<times> settlement_state" where
  "system_fresh wasm wasm' = (gov_fresh wasm, settlement_fresh wasm')"

lemma system_fresh_wf: "system_wf (system_fresh wasm wasm')"
  using settlement_fresh_wf [of wasm'] gov_fresh_wf [of wasm]
  by (simp add: system_fresh_def cache_wf_def records_priced_def settlement_fresh_def)

interpretation system_inv: step_invariant system_step "\<lambda>x. \<exists>wasm wasm'. x = system_fresh wasm wasm'" system_wf
  by unfold_locales (auto intro: system_fresh_wf system_step_wf)

lemma reachable_system_wf:
  assumes "run system_step (system_fresh wasm wasm') ls x"
  shows "system_wf x"
  using system_inv.reachable_inv assms by blast

text \<open>
  The settlement contract's part of an interleaved history is a history of the settlement contract, so what holds over
  the histories of that contract alone holds in the system.
\<close>

definition settlement_part :: "system_label \<Rightarrow> settlement_state \<Rightarrow> settlement_state \<Rightarrow> bool" where
  "settlement_part l s s' \<longleftrightarrow> (\<exists>m. l = OnSettlement m \<and> settlement_step m s s')"

interpretation system_settlement: simulation system_step settlement_part snd id "\<lambda>_. True"
  by unfold_locales (auto simp: settlement_part_def elim: system_step.cases)

lemma settlement_part_run:
  assumes "run settlement_part s ls s'"
  shows "\<exists>ms. run settlement_step s ms s'"
  using assms by (induction rule: run.induct) (auto simp: settlement_part_def intro: run_nil run_snoc)

lemma system_settlement_run:
  assumes "run system_step (system_fresh wasm wasm') ls (gs, s)"
  shows "\<exists>ms. run settlement_step (settlement_fresh wasm') ms s"
  using system_settlement.run_simulates [OF assms] settlement_part_run by (auto simp: system_fresh_def)

end
