(* ===== verification/Spec2Isabelle.thy ===== *)
theory Spec2Isabelle
  imports Fee_Properties Payment_Properties Queue_Properties Admin_Properties Lifecycle_Properties
    Merchant_Properties Governance_Properties Refinement_Properties Lifetime_Properties Two_Contracts
begin

text \<open>
  BettaPay's contracts on Soroban: the governance contract, the settlement contract and the crate
  \<open>bettapay_common\<close> they share. This theory joins the two contracts and imports the whole development.

  \<^bold>\<open>The program.\<close> The governance contract (\<open>governance_contract/src/lib.rs\<close>) keeps the protocol's fee
  configuration, system parameters and anchors under a multisig of admins. The settlement contract
  (\<open>settlement_contract/src\<close>) registers merchants, keeps their settlement rules, splits and stores their payments,
  and has a multisig of its own with a recovery path and a queue of timelocked operations. It reads the fee
  configuration and two parameters of the governance contract by cross-contract calls: as the rule of merchants
  without one, as the ceiling of new rules, and as the minimum payment. Both contracts use the constants, events,
  error codes, pause flag and upgrade probe of \<open>bettapay_common\<close>.

  \<^bold>\<open>How code becomes definitions.\<close> An entry point is an action: a function of the contract state that
  returns a result with the new state, or a failure (\<open>Prelude\<close>). A failure has no state because the host rolls
  the invocation back: a typed contract error, a rejected authorisation, or a trap (an overflow under
  \<open>overflow-checks\<close>, an \<open>unwrap\<close> on nothing). Storage keys are the fields of the records \<open>contract_state\<close>
  (\<open>CommonDataKey\<close>), \<open>gov_state\<close> and \<open>settlement_state\<close> (the \<open>DataKey\<close> of each contract); the published events
  and the requested lifetime extensions are part of the state. Integers have the width of the source:
  \<open>u32\<close>, \<open>u64\<close> and \<open>BytesN<32>\<close> are words, \<open>i128\<close> is \<open>int\<close> with checked operations that fail outside its
  range. What the host decides is the record \<open>host\<close>: who authorised the invocation, time and ledger sequence,
  the answers of other contracts and of a probe instance, the XDR encoding and the hash. Every operation takes
  this record as an argument, and the theorems hold for all hosts unless they state a hypothesis about it.

  \<^bold>\<open>The theories.\<close>
  \<^item> \<open>Prelude\<close>: machine integers, host values, actions and their combinators, with the collections
    \<open>act_simps\<close> (when a combinator completes and fails) and \<open>act_ok\<close> (when an operation completes and what it leaves).
  \<^item> \<open>Common_Types\<close>, \<open>Host\<close>, \<open>Events\<close>, \<open>Error_Codes\<close>, \<open>Common_Storage\<close>: the crate \<open>bettapay_common\<close>
    (\<open>constants.rs\<close> and \<open>types.rs\<close>; the host; \<open>events.rs\<close>; \<open>error_codes.rs\<close>; \<open>storage.rs\<close> and \<open>upgrade.rs\<close>).
  \<^item> \<open>Contract_Interfaces\<close>: histories (\<open>run\<close>) and the interfaces between components as locales:
    \<open>step_invariant\<close>, \<open>simulation\<close>, \<open>timelock\<close>, \<open>pausable\<close>, \<open>multisig\<close>, \<open>counted_store\<close>. All of them are
    interpreted on the contracts' own step relations and checks.
  \<^item> \<open>Custody\<close>: the abstract machine of admins, threshold and recovery that both contracts refine.
  \<^item> \<open>Governance\<close>: every function of the governance contract; \<open>Governance_Ops\<close>: when each completes and
    what it leaves; \<open>Governance_System\<close>: \<open>gov_step\<close>, its invariant and the interpretations;
    \<open>Governance_Properties\<close>: its properties.
  \<^item> \<open>Settlement_Types\<close> (\<open>errors.rs\<close>, \<open>policy.rs\<close>, \<open>types.rs\<close>), \<open>Settlement_Storage\<close> (\<open>storage.rs\<close>),
    \<open>Merchant_Rules\<close> (\<open>merchant.rs\<close>, \<open>settlement.rs\<close>), \<open>Payments\<close> (\<open>payments.rs\<close>), \<open>Admin\<close> and \<open>Scheduler\<close>
    (\<open>admin.rs\<close>): every function of the settlement contract, in the order of the source. The private functions with
    a leading underscore that the queue executes carry the suffix \<open>_scheduled\<close>.
  \<^item> \<open>Settlement_Ops\<close>, \<open>Merchant_Ops\<close>, \<open>Admin_Ops\<close>, \<open>Scheduler_Ops\<close>, \<open>Payment_Ops\<close>: when each operation
    completes and what it leaves; \<open>Fee_Split\<close>: the split against a reference on unbounded integers.
  \<^item> \<open>Settlement_System\<close>: \<open>settlement_step\<close>, one label per entry point; \<open>Settlement_Invariant\<close>: what each part
    leaves alone, and the invariant; \<open>Settlement_Promises\<close>: the interpretations for recovery, queue, pause and
    counters; \<open>Settlement_Refinement\<close>: the abstract book of custody and payments.
  \<^item> \<open>Two_Contracts\<close>: the two contracts side by side. \<open>governance_reply\<close> is the encoded answer of the governance
    contract to the two functions settlement calls; \<open>system_step\<close> interleaves the invocations of both contracts, and
    in each invocation of settlement every call to governance is either answered from the state governance has then
    or fails (the governance address settlement has configured is taken to be this contract). Its invariant says that the rule settlement would charge, and the one it caches, stay valid.
  \<^item> \<open>Sample_Parties\<close>, \<open>Samples\<close>: the concrete histories of the witnesses.
  \<^item> \<open>Fee_Properties\<close>, \<open>Payment_Properties\<close>, \<open>Queue_Properties\<close>, \<open>Admin_Properties\<close>, \<open>Lifecycle_Properties\<close>,
    \<open>Merchant_Properties\<close>, \<open>Governance_Properties\<close>, \<open>Refinement_Properties\<close>, \<open>Lifetime_Properties\<close> and this theory: the properties.

  \<^bold>\<open>What is shown.\<close> Fees: \<open>calculate_split\<close> is the split of unbounded arithmetic with fees rounded up, or
  fails exactly on overflow; the legs are not negative and add up, and grow with the amount. Payments: the outcome of
  storing on every input, the counter, immutability until pruning, the round trip of storing and every way of
  reading, the exact outcome of a batch prune. Authority: without a quorum nothing
  changes outside queue and recovery; both contracts refine the custody machine, and settlement the book of
  payments. Time: a recovery and a queued operation take effect only after their delay, over every history, and
  the life of a queued operation until then: when it is refused, when it is ready, that it can be cancelled; a pending
  recovery vetoes the queue. Pause: what it freezes, where code and documents agree on it. Rules: precedence, preview
  and charge agree, direct calls and queued operations agree, the rule charged in an outage of governance. Both
  contracts together: governance prices the payments that are stored and bounds new rules; over every interleaving,
  with outages at any time, every stored payment is priced exactly and within the fee bounds, and a registered merchant
  can store another one. Termination: the migration loops end. Lifetimes: what is written is extended in the same
  invocation, in both contracts. Events of both contracts stay inside the registry, and the audit of error tables is
  exact for every table. Some theorems and lemmas state behaviour that is surprising and follows from the code: the
  prune that ignores a pause, a legacy recovery record that blocks the recovery path, an n-of-n threshold that
  \<open>change_threshold\<close> cannot change (\<open>full_threshold_is_stuck\<close>), a rejection event that never reaches the ledger
  (\<open>settlement_events_on_chain\<close>).

  \<^bold>\<open>Bounds.\<close> There is no fuel: loops over arguments are primitive recursion on lists, and the two migration
  loops are recursive functions with a termination proof. The bounds in theorems are those of the code: the
  \<open>2 ^ 32\<close> invocations of \<open>queue_counter_exact\<close> are the capacity of a saturating counter, a payment needs a
  counter that is not full, and a queued operation the lifetime its scheduling requests; the amount of a payment is assumed to be an
  \<open>i128\<close>, which is its type.

  \<^bold>\<open>Not modelled.\<close> The Soroban host and SDK are parameters. Requested lifetimes are logged, but the model
  has no expiry of entries: it describes a contract whose entries are live. The life of a queued operation is
  therefore claimed only within the lifetime its scheduling requests. Whether an address authorised an invocation
  is one fact per address: the nonces and argument-bound entries of the host's authorisation are not modelled. Resource limits and fees of the network, the
  re-entrancy guard of the host and concurrent transactions inside one ledger are not modelled; invocations are
  atomic steps, as the host runs them. The crate roots, tests, snapshots, scripts and deployment tooling have no
  definitions. An upgrade replaces the executable hash; the histories are those of contracts that keep
  running this code.
\<close>

section \<open>Fees and minimum\<close>

text \<open>
  What governance encodes is what settlement decodes: the reply of \<open>get_fee_config\<close>, with a configuration or
  without one, is classified as exactly this configuration, for all values of the two fees, and the
  reply of \<open>get_system_param\<close> reads back as the stored parameter.
\<close>

lemma fee_config_round_trip:
  "classify_governance_fee_config (sc_option sc_fee_config config) =
    Inr (map_option (\<lambda>c. \<lparr>gfc_platform_fee_bps = fc_platform_fee_bps c,
      gfc_network_fee_bps = fc_network_fee_bps c\<rparr>) config) \<and>
   option_i128_reply (Replied (sc_option ScI128 param)) = Replied param"
  by (simp only: classify_config option_i128_config)

text \<open>The rule of a merchant that has none of its own, as the governance contract's state determines it.\<close>

definition priced_by :: "gov_state \<Rightarrow> EffectiveRule \<Rightarrow> bool" where
  "priced_by gs e \<longleftrightarrow>
    (case gs_fee_config gs of
         Some c \<Rightarrow>
           if gs_system_param gs ''bypass_gov_fees'' = Some 1
           then er_provenance e = FromBootstrap \<and> er_rule e = BOOTSTRAP_DEFAULT_RULE
           else er_provenance e = FromGovernance \<and> sr_platform_fee_bps (er_rule e) = fc_platform_fee_bps c \<and>
             sr_network_fee_bps (er_rule e) = fc_network_fee_bps c
       | None \<Rightarrow> er_provenance e = FromBootstrap \<and> er_rule e = BOOTSTRAP_DEFAULT_RULE)"

text \<open>
  C15. Governance prices payments: when the settlement contract is connected to a governance contract with any
  history, a payment that it stores for a merchant without a rule of its own, with no default rule set, carries exactly
  the two rates configured in governance, unless the bypass parameter is 1 or nothing is configured, when it carries
  those of the bootstrap rule; the stored amounts are the split of the amount under that rule, which
  \<open>get_rule_provenance\<close> reports with its origin; and the amount is at least the minimum payment, which is the governance
  parameter, or 100 without one, and never negative.
\<close>

theorem governance_prices_payments:
  assumes "run gov_step (gov_fresh wasm) gls gs" "connected env s gs"
    "ss_rule s m = None" "ss_default_rule s = None"
    "store_payment_reference env m ref amount s = Inr (split, s')"
  shows "\<exists>e p s''. priced_by gs e \<and> ss_payment s' (m, ref) = Some p \<and> pay_amount p = amount \<and>
    pay_platform_fee_bps p = sr_platform_fee_bps (er_rule e) \<and>
    pay_network_fee_bps p = sr_network_fee_bps (er_rule e) \<and>
    calculate_split amount (er_rule e) s = Inr (split, s) \<and>
    pay_platform_fee_amount p = fs_platform_fee_amount split \<and>
    pay_network_fee_amount p = fs_network_fee_amount split \<and>
    pay_merchant_payout_amount p = fs_merchant_payout_amount split \<and>
    get_rule_provenance env m s = Inr (e, s'') \<and>
    (case gs_system_param gs ''min_payment'' of Some v \<Rightarrow> 0 \<le> v \<and> v \<le> amount | None \<Rightarrow> 100 \<le> amount)"
proof -
  obtain e where e: "effective_rule env s m = Inr e" "splits_to amount (er_rule e) split" "min_payment env s \<le> amount"
    "s' = stored_payment env m ref amount (er_rule e) split s"
    using assms(5) by (auto simp: store_payment_reference_Inr)
  have "priced_by gs e"
    using assms(3,4) e(1) by (auto simp: effective_rule_def fallback_rule_def connected_offer [OF assms(2)]
        config_rule_def priced_by_def split: option.splits if_splits)
  moreover have "case gs_system_param gs ''min_payment'' of Some v \<Rightarrow> 0 \<le> v \<and> v \<le> amount | None \<Rightarrow> 100 \<le> amount"
    using reachable_gov_wf [OF assms(1)] e(3)
    by (auto simp: connected_min_payment [OF assms(2)] gov_wf_def params_wf_def split: option.splits)
  moreover obtain s'' where "get_rule_provenance env m s = Inr (e, s'')"
    using e(1) by (auto simp: get_rule_provenance_def read_effective_rule_no_bump_run)
  ultimately show ?thesis
    using e(2,4) by (auto simp: stored_payment_def new_record_def calculate_split_Inr)
qed

text \<open>A sample host that is connected.\<close>

definition linked_host :: "gov_state \<Rightarrow> settlement_host" where
  "linked_host gs = sample_host 9\<lparr>h_invoke := \<lambda>_ f args. governance_reply gs f args\<rparr>"

lemma linked: "is_paid_state s \<Longrightarrow> connected (linked_host gs) s gs"
  by (simp add: connected_def linked_host_def is_paid_state_def)

text \<open>A governance history that sets fees of 60 and 30 basis points.\<close>

definition sample_config :: FeeConfig where
  "sample_config = \<lparr>fc_platform_fee_bps = 60, fc_network_fee_bps = 30\<rparr>"

definition gov_do_config :: gov_label where
  "gov_do_config = (gov_host 3, GovSetFeeConfig [alice, bob] sample_config)"

lemma sample_governed:
  obtains gs where "run gov_step (gov_fresh 0) [gov_do_init, gov_do_config] gs"
    "gs_fee_config gs = Some sample_config" "gs_system_param gs = Map.empty"
proof -
  have "\<exists>gs. run gov_step (gov_fresh 0) [gov_do_init, gov_do_config] gs \<and>
      gs_fee_config gs = Some sample_config \<and> gs_system_param gs = Map.empty"
    by (simp add: gov_sample_eval gov_do_config_def sample_config_def valid_fee_config_def)
  then show thesis
    using that by blast
qed

lemma sample_config_split:
  "splits_to 1000 (config_rule sample_config) split \<longleftrightarrow>
    split = \<lparr>fs_gross_amount = 1000, fs_platform_fee_amount = 6, fs_network_fee_amount = 3,
      fs_merchant_payout_amount = 991\<rparr>"
proof -
  have "platform_rate (config_rule sample_config) = 60" "network_rate (config_rule sample_config) = 30"
    by (simp_all add: platform_rate_def network_rate_def as_i128_def platform_bps_def network_bps_def
        config_rule_def sample_config_def)
  moreover have "split_fits 1000 90"
    by (simp add: in_i128_def split_fits_def i128_min_def i128_max_def)
  ultimately show ?thesis
    by (simp add: splits_to_iff in_i128_1000 reference_split_def fee_ceil_div Let_def)
qed

theorem governance_prices_payments_witness:
  "\<exists>gs s split s' p. run gov_step (gov_fresh 0) [gov_do_init, gov_do_config] gs \<and> is_paid_state s \<and>
    store_payment_reference (linked_host gs) shop 9 1000 s = Inr (split, s') \<and>
    ss_payment s' (shop, 9) = Some p \<and> pay_platform_fee_bps p = 60 \<and> pay_network_fee_bps p = 30"
proof -
  obtain gs where gs: "run gov_step (gov_fresh 0) [gov_do_init, gov_do_config] gs"
    "gs_fee_config gs = Some sample_config" "gs_system_param gs = Map.empty"
    by (rule sample_governed)
  obtain s where s: "is_paid_state s"
    using sample_paid by blast
  then have none: "ss_rule s shop = None" "ss_default_rule s = None"
    by (simp_all add: is_paid_state_def)
  obtain e where e: "effective_rule (linked_host gs) s shop = Inr e" "er_rule e = config_rule sample_config"
    by (simp add: effective_rule_def none fallback_rule_def connected_offer [OF linked [OF s]] gs(2,3))
  have "min_payment (linked_host gs) s = 100"
    by (simp add: connected_min_payment [OF linked [OF s]] gs(3))
  moreover have "shop \<in> h_auths (linked_host gs)"
    by (simp add: linked_host_def sample_host_def)
  ultimately obtain split s' where pay: "store_payment_reference (linked_host gs) shop 9 1000 s = Inr (split, s')"
    using s e by (simp add: store_payment_reference_Inr is_paid_state_def paused_def sample_config_split)
  from governance_prices_payments [OF gs(1) linked [OF s] none this]
  have "\<exists>p. ss_payment s' (shop, 9) = Some p \<and> pay_platform_fee_bps p = 60 \<and> pay_network_fee_bps p = 30"
    by (auto simp: priced_by_def sample_config_def gs(2,3))
  then show ?thesis
    using gs(1) s pay by blast
qed

section \<open>Interleaved histories of both contracts\<close>

text \<open>Histories of one contract as histories of the system, when the sample host's calls are answered.\<close>

lemma governance_history:
  assumes "run gov_step gs ls gs'"
  shows "run system_step (gs, s) (map OnGovernance ls) (gs', s)"
  using assms by (induction rule: run.induct) (auto intro: run_nil run_snoc on_governance)

lemma settlement_history:
  assumes "run settlement_step s ls s'" "\<forall>l \<in> set ls. \<forall>t. answered_by (fst l) t gs"
  shows "run system_step (gs, s) (map OnSettlement ls) (gs, s')"
  using assms
proof (induction rule: run.induct)
  case (run_snoc s ls s' l s'')
  then have "system_step (OnSettlement l) (gs, s') (gs\<lparr>st_bumps := st_bumps gs @ []\<rparr>, s'')"
    by (intro on_settlement) simp_all
  then show ?case
    using run_snoc run.run_snoc [of system_step "(gs, s)" "map OnSettlement ls" "(gs, s')" "OnSettlement l"] by simp
qed (simp add: run_nil)

lemma sample_answered: "gs_fee_config gs = None \<Longrightarrow> answered_by (sample_host now) s gs"
  by (simp add: answered_by_def governance_replies sample_host_def sc_option_def)

definition sample_system_history :: "system_label list" where
  "sample_system_history = map OnGovernance [gov_do_init] @ map OnSettlement [do_init, do_register, do_pay]"

lemma sample_system:
  obtains gs s where "run system_step (system_fresh 0 0) sample_system_history (gs, s)" "is_gov_state gs"
    "is_paid_state s"
proof -
  obtain gs where gs: "run gov_step (gov_fresh 0) [gov_do_init] gs" "is_gov_state gs"
    by (rule gov_sample)
  obtain s where s: "run settlement_step (settlement_fresh 0) [do_init, do_register, do_pay] s" "is_paid_state s"
    by (rule sample_paid)
  have "gs_fee_config gs = None"
    using gs(2) by (simp add: is_gov_state_def)
  then have "\<forall>l \<in> set [do_init, do_register, do_pay]. \<forall>t. answered_by (fst l) t gs"
    by (simp add: sample_answered do_init_def do_register_def do_pay_def)
  from settlement_history [OF s(1) this] governance_history [OF gs(1), of "settlement_fresh 0"]
  have "run system_step (system_fresh 0 0) sample_system_history (gs, s)"
    unfolding system_fresh_def sample_system_history_def by (rule run_append)
  then show thesis
    using that gs(2) s(2) by blast
qed

text \<open>
  C9. End to end, over every interleaving of invocations of the two contracts since their deployment, with calls to
  governance that fail at any time: every stored payment belongs to its merchant, its amount is not negative, both its
  rates are within the fee bounds, whether they came from the merchant's rule, the default, governance, the cached
  governance rule or the bootstrap rule; its platform fee is the exact fee rounded up, its network fee the exact fee
  rounded up and capped at what the platform fee leaves, its payout the rest, and no leg is negative.
\<close>

theorem system_payments_priced:
  assumes "run system_step (system_fresh wasm wasm') ls (gs, s)" "ss_payment s (m, ref) = Some p"
  shows "pay_merchant p = m \<and> 0 \<le> pay_amount p \<and>
    5 \<le> uint (pay_platform_fee_bps p) \<and> uint (pay_platform_fee_bps p) \<le> 5000 \<and>
    5 \<le> uint (pay_network_fee_bps p) \<and> uint (pay_network_fee_bps p) \<le> 5000 \<and>
    pay_platform_fee_amount p = \<lceil>real_of_int (pay_amount p * uint (pay_platform_fee_bps p)) / 10000\<rceil> \<and>
    pay_network_fee_amount p = min \<lceil>real_of_int (pay_amount p * uint (pay_network_fee_bps p)) / 10000\<rceil>
      (pay_amount p - pay_platform_fee_amount p) \<and>
    0 \<le> pay_network_fee_amount p \<and> 0 \<le> pay_merchant_payout_amount p \<and>
    pay_platform_fee_amount p + pay_network_fee_amount p + pay_merchant_payout_amount p = pay_amount p"
proof -
  have "settlement_wf s" "record_priced p"
    using reachable_system_wf [OF assms(1)] assms(2) unfolding system_wf.simps records_priced_def by blast+
  moreover from this(1) have "record_wf m p"
    using assms(2) by (simp add: settlement_wf_def payments_wf_def)
  ultimately show ?thesis
    unfolding record_wf_def record_priced_def fee_ceil_def Let_def by simp
qed

theorem system_payments_priced_witness:
  "\<exists>gs s p. run system_step (system_fresh 0 0) sample_system_history (gs, s) \<and> ss_payment s (shop, 5) = Some p \<and>
    pay_network_fee_amount p = min \<lceil>real_of_int (pay_amount p * uint (pay_network_fee_bps p)) / 10000\<rceil>
      (pay_amount p - pay_platform_fee_amount p) \<and>
    pay_platform_fee_amount p + pay_network_fee_amount p + pay_merchant_payout_amount p = pay_amount p"
proof -
  obtain gs s where s: "run system_step (system_fresh 0 0) sample_system_history (gs, s)" "is_paid_state s"
    by (rule sample_system)
  then have "ss_payment s (shop, 5) = Some sample_record"
    by (simp add: is_paid_state_def)
  then show ?thesis
    using system_payments_priced [OF s(1)] s(1) by blast
qed



text \<open>
  C16. The ceiling is the governance contract's own configuration: in the settlement contract connected to a
  governance contract that has a fee configuration, an invocation that sets a new merchant rule or a new default
  rule, directly or from the queue, leaves fees at most those of the configuration.
\<close>

theorem ceiling_is_governance_config:
  assumes "settlement_step (env, c) s s'" "connected env s gs" "gs_fee_config gs = Some config"
    "ss_rule s' m = Some rule \<and> ss_rule s m \<noteq> Some rule \<or>
     ss_default_rule s' = Some rule \<and> ss_default_rule s \<noteq> Some rule"
  shows "sr_platform_fee_bps rule \<le> fc_platform_fee_bps config \<and>
    sr_network_fee_bps rule \<le> fc_network_fee_bps config"
proof -
  have "fee_allowed env s rule"
    using step_new_rule [OF assms(1)] assms(4) by (auto simp: new_rule_def)
  then show ?thesis
    using assms(2,3) by (auto simp: fee_allowed_def connected_def governance_replies classify_config)
qed

theorem ceiling_is_governance_config_witness:
  "\<exists>gs s s'. is_paid_state s \<and>
    settlement_step (linked_host gs, MerchantCall (CallSetDefaultRule [alice, bob] sample_rule)) s s' \<and>
    sr_platform_fee_bps sample_rule \<le> fc_platform_fee_bps sample_config"
proof -
  obtain gs where gs: "run gov_step (gov_fresh 0) [gov_do_init, gov_do_config] gs"
    "gs_fee_config gs = Some sample_config" "gs_system_param gs = Map.empty"
    by (rule sample_governed)
  obtain s where s: "is_paid_state s"
    using sample_paid by blast
  have "quorum (linked_host gs) s [alice, bob]" "\<not> paused s" "valid_rule sample_rule" "ss_default_rule s = None"
    using s by (simp_all add: is_paid_state_def quorum_def admin_quorum_def paused_def linked_host_def sample_host_def
        sample_addresses valid_rule_def sample_rule_def)
  moreover have "fee_allowed (linked_host gs) s sample_rule"
    using linked [OF s, of gs]
    by (auto simp: fee_allowed_def connected_def governance_replies classify_config gs(2) sample_config_def
        sample_rule_def)
  ultimately obtain s' where step: "settlement_step (linked_host gs,
      MerchantCall (CallSetDefaultRule [alice, bob] sample_rule)) s s'" "ss_default_rule s' = Some sample_rule"
    by (simp add: settlement_step_iff call_typed_def set_default_rule_Inr default_set_def)
  then show ?thesis
    using ceiling_is_governance_config [OF step(1) linked [OF s] gs(2), of shop sample_rule] s
      \<open>ss_default_rule s = None\<close> by auto
qed

section \<open>Events\<close>

text \<open>Both logs at once, over the interleaved histories.\<close>

definition system_log_ok :: "gov_state \<times> settlement_state \<Rightarrow> bool" where
  "system_log_ok x \<longleftrightarrow> gov_log_ok (fst x) \<and> log_ok (snd x)"

interpretation system_log: step_invariant system_step "\<lambda>x. \<exists>wasm wasm'. x = system_fresh wasm wasm'" system_log_ok
proof unfold_locales
  show "system_log_ok x" if "\<exists>wasm wasm'. x = system_fresh wasm wasm'" for x
    using that by (auto simp: system_log_ok_def system_fresh_def gov_log_ok_def gov_fresh_def log_ok_def
        settlement_fresh_def)
  show "system_log_ok y" if "system_log_ok x" "system_step l x y" for x l y
    using that(2,1)
    by (induction rule: system_step.induct)
      (auto simp: system_log_ok_def gov_log_ok_def [of "_\<lparr>st_bumps := _\<rparr>"]
        intro: gov_step_log step_log simp flip: gov_log_ok_def)
qed

text \<open>
  C36. Every event that either contract leaves on the ledger, along any interleaving of their invocations, starts with a
  topic of the shared registry; one of the governance contract with a topic from the shared or the governance part of
  the registry, so that no consumer takes it for an event of the settlement contract.
\<close>

theorem ledger_events_registered:
  assumes "run system_step (system_fresh wasm wasm') ls (gs, s)"
    "(topics, data) \<in> set (st_events gs) \<union> set (st_events s)"
  shows "\<exists>t rest. topics = ScSymbol t # rest \<and> t \<in> set ALL_EVENT_TOPICS \<and>
    ((topics, data) \<in> set (st_events gs) \<longrightarrow> t \<in> set (take 15 ALL_EVENT_TOPICS))"
proof -
  have logs: "gov_log_ok gs" "log_ok s"
    using system_log.reachable_inv [OF _ assms(1)] by (auto simp: system_log_ok_def)
  have "gov_event (topics, data)" if "(topics, data) \<in> set (st_events gs)"
    using logs(1) that by (auto simp: gov_log_ok_def list_all_iff)
  moreover have "registered_event (topics, data)" if "(topics, data) \<in> set (st_events s)"
    using logs(2) that by (auto simp: log_ok_def list_all_iff on_chain_def)
  ultimately show ?thesis
    using assms(2) set_take_subset [of 15 ALL_EVENT_TOPICS]
    by (auto simp: registered_event_def gov_event_def split: list.splits sc_val.splits)
qed

theorem ledger_events_registered_witness:
  "\<exists>gs s data. run system_step (system_fresh 0 0)
      (map OnGovernance [gov_do_init] @ map OnSettlement [do_init, do_register]) (gs, s) \<and>
    ([ScSymbol INITIALIZED_EVENT], data) \<in> set (st_events gs) \<and>
    INITIALIZED_EVENT \<in> set (take 15 ALL_EVENT_TOPICS) \<and>
    ([ScSymbol MERCHANT_CONSENT_EVENT, ScAddress shop], ScVoid) \<in> set (st_events s) \<and>
    MERCHANT_CONSENT_EVENT \<in> set ALL_EVENT_TOPICS"
proof -
  have "\<exists>gs data. run gov_step (gov_fresh 0) [gov_do_init] gs \<and> gs_fee_config gs = None \<and>
      ([ScSymbol INITIALIZED_EVENT], data) \<in> set (st_events gs)"
    by (simp add: gov_sample_eval)
  then obtain gs data where gs: "run gov_step (gov_fresh 0) [gov_do_init] gs" "gs_fee_config gs = None"
    "([ScSymbol INITIALIZED_EVENT], data) \<in> set (st_events gs)"
    by blast
  have "\<exists>s. run settlement_step (settlement_fresh 0) [do_init, do_register] s \<and>
      ([ScSymbol MERCHANT_CONSENT_EVENT, ScAddress shop], ScVoid) \<in> set (st_events s)"
    by (simp add: sample_eval)
  then obtain s where s: "run settlement_step (settlement_fresh 0) [do_init, do_register] s"
    "([ScSymbol MERCHANT_CONSENT_EVENT, ScAddress shop], ScVoid) \<in> set (st_events s)"
    by blast
  have "\<forall>l \<in> set [do_init, do_register]. \<forall>t. answered_by (fst l) t gs"
    using gs(2) by (simp add: sample_answered do_init_def do_register_def)
  from settlement_history [OF s(1) this] governance_history [OF gs(1), of "settlement_fresh 0"]
  have run: "run system_step (system_fresh 0 0)
      (map OnGovernance [gov_do_init] @ map OnSettlement [do_init, do_register]) (gs, s)"
    unfolding system_fresh_def by (rule run_append)
  have "INITIALIZED_EVENT \<in> set (take 15 ALL_EVENT_TOPICS)" "MERCHANT_CONSENT_EVENT \<in> set ALL_EVENT_TOPICS"
    using ledger_events_registered [OF run, of "[ScSymbol INITIALIZED_EVENT]" data]
      ledger_events_registered [OF run, of "[ScSymbol MERCHANT_CONSENT_EVENT, ScAddress shop]" ScVoid] gs(3) s(2)
    by auto
  then show ?thesis
    using run gs(3) s(2) by blast
qed

section \<open>Error codes\<close>

text \<open>
  The tables of both contracts pass the collision check, their compile-time assertions hold, and each contract gives
  different errors different codes.
\<close>

lemma error_tables:
  "gov_code_assertions" "settlement_code_assertions" "inj gov_error_code" "inj settlement_error_code"
  "assert_no_code_collisions gov_error_table GOVERNANCE_RANGE_START"
  "assert_no_code_collisions settlement_error_table SETTLEMENT_RANGE_START"
proof -
  show gov_code_assertions settlement_code_assertions
    by (simp_all add: gov_code_assertions_def settlement_code_assertions_def code_defs)
  show "inj gov_error_code"
    by (rule injI, case_tac x; case_tac y; simp)
  show "inj settlement_error_code"
    by (rule injI, case_tac x; case_tac y; simp)
  show "assert_no_code_collisions gov_error_table GOVERNANCE_RANGE_START"
    "assert_no_code_collisions settlement_error_table SETTLEMENT_RANGE_START"
    by code_simp+
qed

text \<open>
  C37. The repository's audit of an error table is exact, for every table and range: the collision check passes if and
  only if no code is used twice and every entry is a shared code under its shared name or a code outside the shared
  ones from the contract's own range; the gap audit returns exactly the unused codes between the least and the
  greatest code of the range; and when the tables of two contracts pass, a code below the range of the second that
  both use is a shared code with the same name in both, so a client can tell errors apart by their code.
\<close>

theorem code_audit_exact:
  "(assert_no_code_collisions t r \<longleftrightarrow> distinct (map snd t) \<and>
      (\<forall>name code. (name, code) \<in> set t \<longrightarrow>
        (name, code) \<in> set SHARED_CODES \<or> code \<notin> snd ` set SHARED_CODES \<and> r \<le> code)) \<and>
   set (find_code_gaps t r) =
     {c. (\<exists>lo \<in> snd ` set t. r \<le> lo \<and> lo \<le> c) \<and> (\<exists>hi \<in> snd ` set t. r \<le> hi \<and> c \<le> hi)} - snd ` set t \<and>
   (assert_no_code_collisions t r \<and> assert_no_code_collisions t' r' \<and> (name, code) \<in> set t \<and>
      (name', code) \<in> set t' \<and> code < r' \<longrightarrow> name = name' \<and> (name, code) \<in> set SHARED_CODES)"
proof -
  have check: "assert_no_code_collisions t r \<longleftrightarrow> distinct (map snd t) \<and> (\<forall>name code. (name, code) \<in> set t \<longrightarrow>
      (name, code) \<in> set SHARED_CODES \<or> code \<notin> snd ` set SHARED_CODES \<and> r \<le> code)" for t r
    unfolding assert_no_code_collisions_def codes_pairwise_different_iff list_all_iff Ball_def split_paired_All
      entry_conforms_iff by (rule conj_commute)
  have gaps: "set (find_code_gaps t r) =
     {c. (\<exists>lo \<in> snd ` set t. r \<le> lo \<and> lo \<le> c) \<and> (\<exists>hi \<in> snd ` set t. r \<le> hi \<and> c \<le> hi)} - snd ` set t"
    unfolding find_code_gaps_set specific_codes_def by (auto; meson order_trans)
  have "name = name' \<and> (name, code) \<in> set SHARED_CODES"
    if "assert_no_code_collisions t r" "assert_no_code_collisions t' r'" "(name, code) \<in> set t"
      "(name', code) \<in> set t'" "code < r'"
  proof -
    have shared: "(name', code) \<in> set SHARED_CODES"
      using that(2,4,5) unfolding check by (meson leD)
    then have "code \<in> snd ` set SHARED_CODES"
      by force
    then have "(name, code) \<in> set SHARED_CODES"
      using that(1,3) unfolding check by blast
    moreover have "inj_on snd (set SHARED_CODES)"
      using SHARED_CODES_distinct(1) by (simp add: distinct_map)
    ultimately show ?thesis
      using shared inj_onD [of snd "set SHARED_CODES" "(name, code)" "(name', code)"] by simp
  qed
  with check gaps show ?thesis
    by blast
qed

theorem code_audit_exact_witness:
  "assert_no_code_collisions gov_error_table GOVERNANCE_RANGE_START \<and>
   assert_no_code_collisions settlement_error_table SETTLEMENT_RANGE_START \<and>
   (''Paused'', PAUSED) \<in> set gov_error_table \<and> (''Paused'', PAUSED) \<in> set settlement_error_table \<and>
   (''Paused'', PAUSED) \<in> set SHARED_CODES"
proof -
  have "(''Paused'', PAUSED) \<in> set gov_error_table" "(''Paused'', PAUSED) \<in> set settlement_error_table"
    "PAUSED < SETTLEMENT_RANGE_START"
    by code_simp+
  then show ?thesis
    using code_audit_exact [of gov_error_table GOVERNANCE_RANGE_START settlement_error_table SETTLEMENT_RANGE_START
        "''Paused''" PAUSED "''Paused''"] error_tables(5,6)
    by blast
qed

end
